(* ===== verification/Mtx_Prelude.thy ===== *)
theory Mtx_Prelude
  imports Main "HOL-Library.Word" "HOL-Library.Signed_Division"
begin

text \<open>
  Shared vocabulary of the development.  It fixes the machine integers of the Go sources, the
  type of Go errors, the state-and-error threading that every operation with an \<open>error\<close>
  result uses, slices, and the big-endian integer codecs that all RTMP packets are built from.
  The lemmas are collected in two groups: \<open>io_simps\<close> unfolds the threading of state
  and errors, \<open>codec_simps\<close> evaluates the byte codecs.
\<close>

unbundle bit_operations_syntax

named_theorems io_simps "unfolding of the state and error threading"
named_theorems codec_simps "round trips of the big-endian integer codecs"

section \<open>Machine integers\<close>

type_synonym byte = "8 word"
type_synonym u8 = "8 word"
type_synonym u16 = "16 word"
type_synonym u32 = "32 word"
type_synonym u64 = "64 word"

text \<open>
  \<open>time.Duration\<close> is an \<open>int64\<close> that counts nanoseconds.  It is modelled as an \<open>int\<close>;
  \<open>wrap64\<close> is the two's complement wrap-around of its arithmetic.  Go's integer division
  truncates towards zero (\<open>sdiv\<close>).
\<close>

type_synonym duration = int

definition wrap64 :: "int \<Rightarrow> int" where
  "wrap64 x = signed_take_bit 63 x"

definition millisecond :: duration where
  "millisecond = 1000000"

definition second :: duration where
  "second = 1000000000"

lemma wrap64_id [simp]: "- (2 ^ 63) \<le> x \<Longrightarrow> x < 2 ^ 63 \<Longrightarrow> wrap64 x = x"
  by (simp add: wrap64_def signed_take_bit_int_eq_self)

text \<open>\<open>uint32(d / time.Millisecond)\<close> and \<open>time.Duration(v) * time.Millisecond\<close>.\<close>

definition to_ms :: "duration \<Rightarrow> u32" where
  "to_ms d = word_of_int (d sdiv millisecond)"

definition of_ms :: "u32 \<Rightarrow> duration" where
  "of_ms v = wrap64 (uint v * millisecond)"

lemma uint_u32_less: "uint (v :: u32) < 4294967296"
  using uint_lt2p [of v] by simp

lemma of_ms_eq: "of_ms v = uint v * 1000000"
proof -
  have "0 \<le> uint v" "uint v < 4294967296"
    by (simp_all add: uint_u32_less)
  then have "- (2 ^ 63) \<le> uint v * 1000000" "uint v * 1000000 < 2 ^ 63"
    by (auto intro: order_trans [of _ 0])
  then show ?thesis by (simp add: of_ms_def millisecond_def)
qed

lemma to_ms_of_ms [simp]: "to_ms (of_ms v) = v"
proof -
  have "(uint v * 1000000) sdiv 1000000 = uint v"
    by (cases "v = 0") (simp_all add: signed_divide_int_def sgn_mult abs_mult sgn_1_pos word_neq_0_conv)
  then show ?thesis by (simp add: to_ms_def of_ms_eq millisecond_def)
qed

lemma of_ms_inject [simp]: "of_ms v = of_ms w \<longleftrightarrow> v = w"
  by (metis to_ms_of_ms)

section \<open>Errors and state\<close>

text \<open>
  The errors of the Go code.  \<open>Err\<close> carries the text of an error built by \<open>fmt.Errorf\<close> or
  \<open>errors.New\<close>; \<open>Panic\<close> is a run-time panic (a nil dereference, an index out of range, a failed
  type assertion or an explicit \<open>panic\<close>).  \<open>NoProgress\<close> is the outcome of a read loop over a
  reader that returns no bytes and no error for ever.
\<close>

datatype error = EOF | UnexpectedEOF | NoProgress | Err string | Panic

type_synonym 'a result = "error + 'a"

text \<open>An operation on a state of type \<open>'s\<close> that returns a value or an error.\<close>

type_synonym ('s, 'a) io = "'s \<Rightarrow> 'a result \<times> 's"

definition returnIO :: "'a \<Rightarrow> ('s, 'a) io" where
  [io_simps]: "returnIO a s = (Inr a, s)"

definition failIO :: "error \<Rightarrow> ('s, 'a) io" where
  [io_simps]: "failIO e s = (Inl e, s)"

definition bindIO :: "('s, 'a) io \<Rightarrow> ('a \<Rightarrow> ('s, 'b) io) \<Rightarrow> ('s, 'b) io" where
  "bindIO m f s = (case m s of (Inl e, s') \<Rightarrow> (Inl e, s') | (Inr a, s') \<Rightarrow> f a s')"

lemma bindIO_Inl: "m s = (Inl e, s') \<Longrightarrow> bindIO m f s = (Inl e, s')"
  by (simp add: bindIO_def)

lemma bindIO_Inr: "m s = (Inr a, s') \<Longrightarrow> bindIO m f s = f a s'"
  by (simp add: bindIO_def)

lemma bindIO_return [io_simps]: "bindIO (returnIO a) f s = f a s"
  by (simp add: bindIO_def returnIO_def)

lemma bindIO_fail [io_simps]: "bindIO (failIO e) f s = (Inl e, s)"
  by (simp add: bindIO_def failIO_def)

lemma bindIO_assoc: "bindIO (bindIO m f) g s = bindIO m (\<lambda>a. bindIO (f a) g) s"
  by (simp add: bindIO_def split: prod.splits sum.splits)

lemma bindIO_InrE:
  assumes "bindIO m f s = (Inr b, s2)"
  obtains a s1 where "m s = (Inr a, s1)" and "f a s1 = (Inr b, s2)"
  using assms by (auto simp: bindIO_def split: prod.splits sum.splits)

text \<open>A pure result inside an operation, and the dereference of a pointer that may be nil.\<close>

definition liftIO :: "'a result \<Rightarrow> ('s, 'a) io" where
  [io_simps]: "liftIO r s = (r, s)"

definition deref :: "'a option \<Rightarrow> 'a result" where
  "deref p = (case p of None \<Rightarrow> Inl Panic | Some v \<Rightarrow> Inr v)"

lemma deref_Some [simp]: "deref (Some v) = Inr v"
  and deref_None [simp]: "deref None = Inl Panic"
  by (simp_all add: deref_def)

lemma bindIO_lift_Inr [io_simps]: "bindIO (liftIO (Inr a)) f s = f a s"
  and bindIO_lift_Inl [io_simps]: "bindIO (liftIO (Inl e)) f s = (Inl e, s)"
  by (simp_all add: bindIO_def liftIO_def)

text \<open>Sequencing of pure results, and a check that returns an error if its condition holds.\<close>

definition bindR :: "'a result \<Rightarrow> ('a \<Rightarrow> 'b result) \<Rightarrow> 'b result" where
  "bindR r f = (case r of Inl e \<Rightarrow> Inl e | Inr a \<Rightarrow> f a)"

definition rejectR :: "bool \<Rightarrow> string \<Rightarrow> unit result" where
  "rejectR c msg = (if c then Inl (Err msg) else Inr ())"

lemma bindR_simps [simp]: "bindR (Inl e) f = Inl e" "bindR (Inr a) f = f a"
  by (simp_all add: bindR_def)

lemma bindR_Inr_iff: "bindR r f = Inr b \<longleftrightarrow> (\<exists>a. r = Inr a \<and> f a = Inr b)"
  by (cases r) simp_all

lemma rejectR_Inr_iff [simp]: "rejectR c msg = Inr u \<longleftrightarrow> \<not> c"
  by (simp add: rejectR_def)

text \<open>\<open>if x == 0 { x = d }\<close>, for numbers and for strings.\<close>

definition dflt :: "'a :: zero \<Rightarrow> 'a \<Rightarrow> 'a" where
  "dflt d x = (if x = 0 then d else x)"

definition dflts :: "string \<Rightarrow> string \<Rightarrow> string" where
  "dflts d x = (if x = '''' then d else x)"

lemma dflt_idem [simp]: "dflt d (dflt d x) = dflt d x"
  by (simp add: dflt_def)

lemma dflts_idem [simp]: "dflts d (dflts d x) = dflts d x"
  by (simp add: dflts_def)

lemma dflt_eq_0 [simp]: "dflt d x = 0 \<longleftrightarrow> x = 0 \<and> d = 0"
  by (simp add: dflt_def)

section \<open>Slices\<close>

text \<open>The elements \<open>xs[a:b]\<close> of a range within \<open>xs\<close>, and \<open>copy(dst[at:], src)\<close>.\<close>

definition subslice :: "'a list \<Rightarrow> nat \<Rightarrow> nat \<Rightarrow> 'a list" where
  "subslice xs a b = take (b - a) (drop a xs)"

lemma length_subslice [simp]: "length (subslice xs a b) = min (length xs - a) (b - a)"
  by (simp add: subslice_def)

definition copy_at :: "'a list \<Rightarrow> nat \<Rightarrow> 'a list \<Rightarrow> 'a list" where
  "copy_at dst at src =
     (let n = min (length dst - at) (length src)
      in take at dst @ take n src @ drop (at + n) dst)"

lemma length_copy_at [simp]: "at \<le> length dst \<Longrightarrow> length (copy_at dst at src) = length dst"
  by (simp add: copy_at_def Let_def min_def)

lemma take_copy_at: "n \<le> at \<Longrightarrow> at \<le> length dst \<Longrightarrow> take n (copy_at dst at src) = take n dst"
  by (simp add: copy_at_def Let_def min_def)

lemma drop_copy_at:
  "at + length src \<le> length dst \<Longrightarrow>
   drop (at + length src) (copy_at dst at src) = drop (at + length src) dst"
  by (simp add: copy_at_def Let_def min_def)

lemma subslice_copy_at:
  "at + length src \<le> length dst \<Longrightarrow> subslice (copy_at dst at src) at (at + length src) = src"
  by (auto simp: copy_at_def subslice_def Let_def min_def)

text \<open>
  The index expression \<open>xs[i]\<close> and the slice expressions \<open>xs[a:b]\<close> and \<open>xs[a:]\<close> as operations: what
  follows them gets the value, and an index out of range is a panic.  The capacity of a slice is taken
  to be its length, so that the model panics wherever the code may.
\<close>

definition idx :: "'a list \<Rightarrow> nat \<Rightarrow> ('a \<Rightarrow> 'b result) \<Rightarrow> 'b result" where
  "idx xs i k = (if i < length xs then k (xs ! i) else Inl Panic)"

definition slice_range :: "'a list \<Rightarrow> nat \<Rightarrow> nat \<Rightarrow> ('a list \<Rightarrow> 'b result) \<Rightarrow> 'b result" where
  "slice_range xs a b k = (if a \<le> b \<and> b \<le> length xs then k (subslice xs a b) else Inl Panic)"

definition slice_from :: "'a list \<Rightarrow> nat \<Rightarrow> ('a list \<Rightarrow> 'b result) \<Rightarrow> 'b result" where
  "slice_from xs a k = (if a \<le> length xs then k (drop a xs) else Inl Panic)"

lemma idx_in_range [simp]: "i < length xs \<Longrightarrow> idx xs i k = k (xs ! i)"
  and idx_out_of_range: "length xs \<le> i \<Longrightarrow> idx xs i k = Inl Panic"
  by (simp_all add: idx_def)

lemma slice_range_in [simp]: "a \<le> b \<Longrightarrow> b \<le> length xs \<Longrightarrow> slice_range xs a b k = k (subslice xs a b)"
  and slice_range_out: "length xs < b \<Longrightarrow> slice_range xs a b k = Inl Panic"
  by (simp_all add: slice_range_def)

lemma slice_from_in_range [simp]: "a \<le> length xs \<Longrightarrow> slice_from xs a k = k (drop a xs)"
  and slice_from_out_of_range: "length xs < a \<Longrightarrow> slice_from xs a k = Inl Panic"
  by (simp_all add: slice_from_def)

section \<open>Big-endian integers\<close>

definition be16 :: "u16 \<Rightarrow> byte list" where
  "be16 v = [ucast (drop_bit 8 v), ucast v]"

definition be24 :: "u32 \<Rightarrow> byte list" where
  "be24 v = [ucast (drop_bit 16 v), ucast (drop_bit 8 v), ucast v]"

definition be32 :: "u32 \<Rightarrow> byte list" where
  "be32 v = [ucast (drop_bit 24 v), ucast (drop_bit 16 v), ucast (drop_bit 8 v), ucast v]"

definition of_be16 :: "byte \<Rightarrow> byte \<Rightarrow> u16" where
  "of_be16 a b = push_bit 8 (ucast a) OR ucast b"

definition of_be24 :: "byte \<Rightarrow> byte \<Rightarrow> byte \<Rightarrow> u32" where
  "of_be24 a b c = push_bit 16 (ucast a) OR push_bit 8 (ucast b) OR ucast c"

definition of_be32 :: "byte \<Rightarrow> byte \<Rightarrow> byte \<Rightarrow> byte \<Rightarrow> u32" where
  "of_be32 a b c d =
     push_bit 24 (ucast a) OR push_bit 16 (ucast b) OR push_bit 8 (ucast c) OR ucast d"

lemma length_be [simp]: "length (be16 w) = 2" "length (be24 v) = 3" "length (be32 v) = 4"
  by (simp_all add: be16_def be24_def be32_def)

lemma bit_byte_high: "bit (b :: byte) n \<Longrightarrow> n < 8"
  using bit_imp_le_length [of b n] by simp

lemma bit_byte_out: "8 \<le> n \<Longrightarrow> \<not> bit (b :: byte) n"
  using bit_byte_high [of b n] by auto

lemma bit_sub_add: "\<not> bit v (k + (n - k)) \<Longrightarrow> bit v n \<Longrightarrow> n < k"
  by (rule ccontr) simp

lemma of_be16_be16 [codec_simps]: "of_be16 (ucast (drop_bit 8 v)) (ucast v) = v"
  unfolding of_be16_def
  by (rule bit_word_eqI) (auto simp: bit_simps)

lemma of_be24_be24 [codec_simps]:
  "of_be24 (ucast (drop_bit 16 v)) (ucast (drop_bit 8 v)) (ucast v) = take_bit 24 v"
  unfolding of_be24_def
  by (rule bit_word_eqI) (auto simp: bit_simps not_less dest: bit_sub_add)

lemma of_be32_be32 [codec_simps]:
  "of_be32 (ucast (drop_bit 24 v)) (ucast (drop_bit 16 v)) (ucast (drop_bit 8 v)) (ucast v) = v"
  unfolding of_be32_def
  by (rule bit_word_eqI) (auto simp: bit_simps not_less dest: bit_sub_add)

lemma be16_of_be16 [codec_simps]: "be16 (of_be16 a b) = [a, b]"
  unfolding be16_def of_be16_def
  by (auto intro!: bit_word_eqI simp: bit_simps bit_byte_out)

lemma be24_of_be24 [codec_simps]: "be24 (of_be24 a b c) = [a, b, c]"
  unfolding be24_def of_be24_def
  by (auto intro!: bit_word_eqI simp: bit_simps bit_byte_out)

lemma be32_of_be32 [codec_simps]: "be32 (of_be32 a b c d) = [a, b, c, d]"
  unfolding be32_def of_be32_def
  by (auto intro!: bit_word_eqI simp: bit_simps bit_byte_out)

lemma take_bit_24_id: "unat (v :: u32) < 2 ^ 24 \<Longrightarrow> take_bit 24 v = v"
  by (metis take_bit_nat_eq_self unsigned_take_bit_eq word_unat_eq_iff)

lemma unat_of_be24_less: "unat (of_be24 a b c) < 2 ^ 24"
proof -
  have "of_be24 a b c = take_bit 24 (of_be24 a b c)"
    unfolding of_be24_def
    by (rule bit_word_eqI) (auto simp: bit_simps bit_byte_out)
  then have "unat (of_be24 a b c) = take_bit 24 (unat (of_be24 a b c))"
    by (metis unsigned_take_bit_eq)
  also have "\<dots> < 2 ^ 24" by (rule take_bit_nat_less_exp)
  finally show ?thesis .
qed

section \<open>Printing\<close>

text \<open>The verb \<open>%d\<close> (or \<open>%v\<close>) of \<open>fmt\<close> for a number that is not negative and for an array of bytes.\<close>

fun show_nat :: "nat \<Rightarrow> string" where
  "show_nat n = (if n < 10 then [char_of (48 + n)] else show_nat (n div 10) @ [char_of (48 + n mod 10)])"

declare show_nat.simps [simp del]

definition show_int :: "int \<Rightarrow> string" where
  "show_int i = (if i < 0 then ''-'' @ show_nat (nat (- i)) else show_nat (nat i))"

definition quoted :: "string \<Rightarrow> string" where
  "quoted s = [CHR 0x27] @ s @ [CHR 0x27]"

fun show_words :: "byte list \<Rightarrow> string" where
  "show_words [] = []"
| "show_words [b] = show_nat (unat b)"
| "show_words (b # bs) = show_nat (unat b) @ '' '' @ show_words bs"

definition show_bytes :: "byte list \<Rightarrow> string" where
  "show_bytes bs = ''['' @ show_words bs @ '']''"

end
