(* ===== verification/ByteStream.thy ===== *)
theory ByteStream
  imports Mtx_Prelude "HOL-Library.Sublist"
begin

text \<open>
  The byte streams below the RTMP protocol: the counting reader and writer of
  \<open>internal/rtmp/bytecounter\<close>, and what the sources use of Go's standard library on top of them
  (\<open>io.ReadFull\<close>, \<open>bufio.Reader\<close> and \<open>bufio.Writer\<close> with their default buffer of 4096 bytes).
  The two locales \<open>io_reader\<close> and \<open>io_writer\<close> are the contracts that \<open>io.Reader\<close> and \<open>io.Writer\<close>
  clients rely on; each is interpreted on the plain counting stream (used by the handshake) and
  on the buffered stream (used by the messages).
\<close>

section \<open>The network connection\<close>

text \<open>
  The bytes that the peer sends arrive in segments.  A read with a buffer of \<open>n\<close> bytes returns
  what is available of the next non-empty segment, and the end of file after the last one.
\<close>

fun conn_read :: "nat \<Rightarrow> (byte list list, byte list) io" where
  "conn_read n [] = (Inl EOF, [])"
| "conn_read n ([] # ss) = conn_read n ss"
| "conn_read n ((b # bs) # ss) = (Inr (take n (b # bs)), drop n (b # bs) # ss)"

text \<open>
  A connection accepts bytes until it breaks: \<open>None\<close> is a connection that does not break,
  \<open>Some k\<close> one that accepts \<open>k\<close> more bytes.  A write returns the number of bytes it accepted.
\<close>

record conn_out =
  co_sent :: "byte list"
  co_limit :: "nat option"

definition conn_write :: "byte list \<Rightarrow> conn_out \<Rightarrow> (nat \<times> error option) \<times> conn_out" where
  "conn_write p c =
     (case co_limit c of
        None \<Rightarrow> ((length p, None), c\<lparr>co_sent := co_sent c @ p\<rparr>)
      | Some k \<Rightarrow>
          if length p \<le> k
          then ((length p, None), c\<lparr>co_sent := co_sent c @ p, co_limit := Some (k - length p)\<rparr>)
          else ((k, Some (Err ''write error'')),
                c\<lparr>co_sent := co_sent c @ take k p, co_limit := Some 0\<rparr>))"

section \<open>bytecounter\<close>

record bc_reader =
  bcr_r :: "byte list list"
  bcr_count :: u64

definition bc_NewReader :: "byte list list \<Rightarrow> bc_reader" where
  "bc_NewReader r = \<lparr>bcr_r = r, bcr_count = 0\<rparr>"

definition bc_Read :: "nat \<Rightarrow> (bc_reader, byte list) io" where
  "bc_Read n r =
     (case conn_read n (bcr_r r) of
        (Inl e, ss) \<Rightarrow> (Inl e, r\<lparr>bcr_r := ss\<rparr>)
      | (Inr p, ss) \<Rightarrow> (Inr p, r\<lparr>bcr_r := ss, bcr_count := bcr_count r + of_nat (length p)\<rparr>))"

definition bc_r_Count :: "bc_reader \<Rightarrow> u64" where
  "bc_r_Count r = bcr_count r"

definition bc_r_SetCount :: "u64 \<Rightarrow> bc_reader \<Rightarrow> bc_reader" where
  "bc_r_SetCount v r = r\<lparr>bcr_count := v\<rparr>"

record bc_writer =
  bcw_w :: conn_out
  bcw_count :: u64

definition bc_NewWriter :: "conn_out \<Rightarrow> bc_writer" where
  "bc_NewWriter w = \<lparr>bcw_w = w, bcw_count = 0\<rparr>"

definition bc_Write :: "byte list \<Rightarrow> bc_writer \<Rightarrow> (nat \<times> error option) \<times> bc_writer" where
  "bc_Write p w =
     (let ((n, err), c) = conn_write p (bcw_w w)
      in ((n, err), w\<lparr>bcw_w := c, bcw_count := bcw_count w + of_nat n\<rparr>))"

definition bc_w_Count :: "bc_writer \<Rightarrow> u64" where
  "bc_w_Count w = bcw_count w"

definition bc_w_SetCount :: "u64 \<Rightarrow> bc_writer \<Rightarrow> bc_writer" where
  "bc_w_SetCount v w = w\<lparr>bcw_count := v\<rparr>"

text \<open>The pair of both, over one connection.\<close>

record bc_readwriter =
  bcrw_Reader :: bc_reader
  bcrw_Writer :: bc_writer

definition bc_NewReadWriter :: "byte list list \<Rightarrow> conn_out \<Rightarrow> bc_readwriter" where
  "bc_NewReadWriter r w = \<lparr>bcrw_Reader = bc_NewReader r, bcrw_Writer = bc_NewWriter w\<rparr>"

section \<open>io.ReadFull\<close>

text \<open>
  \<open>io.ReadFull\<close> reads until its buffer of \<open>n\<close> bytes is full.  A read that delivers bytes delivers
  at least one, so \<open>n\<close> rounds are enough; lemma \<open>read_full_ok\<close> below shows that the
  \<open>NoProgress\<close> of an exhausted loop does not occur for a reader that keeps the contract.
\<close>

fun read_full_loop ::
  "nat \<Rightarrow> (nat \<Rightarrow> ('s, byte list) io) \<Rightarrow> nat \<Rightarrow> byte list \<Rightarrow> ('s, byte list) io" where
  "read_full_loop 0 rd n acc s = (if n = 0 then (Inr acc, s) else (Inl NoProgress, s))"
| "read_full_loop (Suc fuel) rd n acc s =
     (if n = 0 then (Inr acc, s)
      else case rd n s of
             (Inl e, s') \<Rightarrow> (Inl (if e = EOF \<and> acc \<noteq> [] then UnexpectedEOF else e), s')
           | (Inr p, s') \<Rightarrow> read_full_loop fuel rd (n - length p) (acc @ p) s')"

definition read_full :: "(nat \<Rightarrow> ('s, byte list) io) \<Rightarrow> nat \<Rightarrow> ('s, byte list) io" where
  "read_full rd n s = read_full_loop n rd n [] s"

locale io_reader =
  fixes read :: "nat \<Rightarrow> ('s, byte list) io"
    and pending :: "'s \<Rightarrow> byte list"
  assumes read_eof:
    "0 < n \<Longrightarrow> pending s = [] \<Longrightarrow> \<exists>s'. read n s = (Inl EOF, s') \<and> pending s' = []"
    and read_some:
    "0 < n \<Longrightarrow> pending s \<noteq> [] \<Longrightarrow>
     \<exists>p s'. read n s = (Inr p, s') \<and> p \<noteq> [] \<and> length p \<le> n \<and> pending s = p @ pending s'"
begin

lemma loop_ok:
  "n \<le> fuel \<Longrightarrow> n \<le> length (pending s) \<Longrightarrow>
   \<exists>s'. read_full_loop fuel read n acc s = (Inr (acc @ take n (pending s)), s') \<and>
        pending s' = drop n (pending s)"
proof (induction fuel arbitrary: n acc s)
  case 0
  then show ?case by simp
next
  case (Suc fuel)
  show ?case
  proof (cases "n = 0")
    case True
    then show ?thesis by simp
  next
    case False
    with Suc.prems have "pending s \<noteq> []" by auto
    with False obtain p s' where p: "read n s = (Inr p, s')" "p \<noteq> []" "length p \<le> n"
        "pending s = p @ pending s'"
      using read_some [of n s] by blast
    have "0 < length p" "length (pending s) = length p + length (pending s')"
      using p(2,4) by simp_all
    then have "n - length p \<le> fuel" "n - length p \<le> length (pending s')"
      using Suc.prems p(3) by linarith+
    from Suc.IH [OF this, of "acc @ p"] False p show ?thesis by auto
  qed
qed

lemma loop_short:
  "n \<le> fuel \<Longrightarrow> length (pending s) < n \<Longrightarrow>
   \<exists>s'. read_full_loop fuel read n acc s =
          (Inl (if acc @ pending s = [] then EOF else UnexpectedEOF), s') \<and> pending s' = []"
proof (induction fuel arbitrary: n acc s)
  case 0
  then show ?case by simp
next
  case (Suc fuel)
  have n: "0 < n" using Suc.prems by simp
  show ?case
  proof (cases "pending s = []")
    case True
    with read_eof [OF n] n show ?thesis by fastforce
  next
    case False
    with n obtain p s' where p: "read n s = (Inr p, s')" "p \<noteq> []" "length p \<le> n"
        "pending s = p @ pending s'"
      using read_some [of n s] by blast
    have "0 < length p" "length (pending s) = length p + length (pending s')"
      using p(2,4) by simp_all
    then have "n - length p \<le> fuel" "length (pending s') < n - length p"
      using Suc.prems p(3) by linarith+
    from Suc.IH [OF this, of "acc @ p"] n p show ?thesis by auto
  qed
qed

lemma read_full_ok:
  "n \<le> length (pending s) \<Longrightarrow>
   \<exists>s'. read_full read n s = (Inr (take n (pending s)), s') \<and> pending s' = drop n (pending s)"
  unfolding read_full_def using loop_ok [of n n s "[]"] by simp

lemma read_full_short:
  "length (pending s) < n \<Longrightarrow>
   \<exists>s'. read_full read n s = (Inl (if pending s = [] then EOF else UnexpectedEOF), s') \<and>
        pending s' = []"
  unfolding read_full_def using loop_short [of n n s "[]"] by simp

lemma read_full_pending_le:
  assumes "read_full read n s = (r, s')"
  shows "length (pending s') \<le> length (pending s)"
  using assms read_full_ok [of n s] read_full_short [of s n]
  by (cases "n \<le> length (pending s)") (auto simp: not_le)

lemma read_full_InrD:
  assumes "read_full read n s = (Inr p, s')"
  shows "length p = n" and "pending s = p @ pending s'"
proof -
  have "n \<le> length (pending s)"
    using assms read_full_short [of s n] by (auto simp: not_le [symmetric] split: if_splits)
  with assms read_full_ok [of n s] show "length p = n" "pending s = p @ pending s'"
    by auto
qed

end

section \<open>bufio.Reader\<close>

definition bufio_size :: nat where
  "bufio_size = 4096"

text \<open>The buffered bytes, the byte that \<open>UnreadByte\<close> can give back, and the reader below.\<close>

record bufio_reader =
  br_buf :: "byte list"
  br_lastByte :: "byte option"
  br_rd :: bc_reader

definition bufio_NewReader :: "bc_reader \<Rightarrow> bufio_reader" where
  "bufio_NewReader r = \<lparr>br_buf = [], br_lastByte = None, br_rd = r\<rparr>"

definition bufio_copy :: "nat \<Rightarrow> (bufio_reader, byte list) io" where
  "bufio_copy n b =
     (let p = take n (br_buf b)
      in (Inr p, b\<lparr>br_buf := drop n (br_buf b), br_lastByte := Some (last p)\<rparr>))"

definition bufio_Read :: "nat \<Rightarrow> (bufio_reader, byte list) io" where
  "bufio_Read n b =
     (if n = 0 then (Inr [], b)
      else if br_buf b \<noteq> [] then bufio_copy n b
      else if bufio_size \<le> n
           then (case bc_Read n (br_rd b) of
                   (Inl e, r) \<Rightarrow> (Inl e, b\<lparr>br_rd := r\<rparr>)
                 | (Inr p, r) \<Rightarrow> (Inr p, b\<lparr>br_rd := r, br_lastByte := Some (last p)\<rparr>))
           else (case bc_Read bufio_size (br_rd b) of
                   (Inl e, r) \<Rightarrow> (Inl e, b\<lparr>br_rd := r\<rparr>)
                 | (Inr p, r) \<Rightarrow> bufio_copy n (b\<lparr>br_rd := r, br_buf := p\<rparr>)))"

definition bufio_ReadByte :: "(bufio_reader, byte) io" where
  "bufio_ReadByte b =
     (case br_buf b of
        c # cs \<Rightarrow> (Inr c, b\<lparr>br_buf := cs, br_lastByte := Some c\<rparr>)
      | [] \<Rightarrow>
          (case bc_Read bufio_size (br_rd b) of
             (Inl e, r) \<Rightarrow> (Inl e, b\<lparr>br_rd := r\<rparr>)
           | (Inr [], r) \<Rightarrow> (Inl NoProgress, b\<lparr>br_rd := r\<rparr>)
           | (Inr (c # cs), r) \<Rightarrow> (Inr c, b\<lparr>br_rd := r, br_buf := cs, br_lastByte := Some c\<rparr>)))"

definition bufio_UnreadByte :: "(bufio_reader, unit) io" where
  "bufio_UnreadByte b =
     (case br_lastByte b of
        None \<Rightarrow> (Inl (Err ''bufio: invalid use of UnreadByte''), b)
      | Some c \<Rightarrow> (Inr (), b\<lparr>br_buf := c # br_buf b, br_lastByte := None\<rparr>))"

section \<open>The reader contract holds\<close>

definition bc_pending :: "bc_reader \<Rightarrow> byte list" where
  "bc_pending r = concat (bcr_r r)"

definition br_pending :: "bufio_reader \<Rightarrow> byte list" where
  "br_pending b = br_buf b @ bc_pending (br_rd b)"

lemma conn_read_eof: "concat ss = [] \<Longrightarrow> conn_read n ss = (Inl EOF, [])"
  by (induction n ss rule: conn_read.induct) auto

lemma conn_read_some:
  "0 < n \<Longrightarrow> concat ss \<noteq> [] \<Longrightarrow>
   \<exists>p ss'. conn_read n ss = (Inr p, ss') \<and> p \<noteq> [] \<and> length p \<le> n \<and> concat ss = p @ concat ss'"
proof (induction n ss rule: conn_read.induct)
  case (3 n b bs ss)
  then have "take n (b # bs) \<noteq> []" by (cases n) auto
  moreover have "concat ((b # bs) # ss) = take n (b # bs) @ concat (drop n (b # bs) # ss)"
    by (metis append_assoc append_take_drop_id concat.simps(2))
  ultimately show ?case by simp
qed auto

lemma bc_Read_eof: "bc_pending r = [] \<Longrightarrow> \<exists>r'. bc_Read n r = (Inl EOF, r') \<and> bc_pending r' = []"
  by (simp add: bc_Read_def bc_pending_def conn_read_eof)

lemma bc_Read_some:
  assumes "0 < n" and "bc_pending r \<noteq> []"
  shows "\<exists>p r'. bc_Read n r = (Inr p, r') \<and> p \<noteq> [] \<and> length p \<le> n \<and>
     bc_pending r = p @ bc_pending r' \<and> bcr_count r' = bcr_count r + of_nat (length p)"
proof -
  from conn_read_some [OF assms(1), of "bcr_r r"] assms(2) obtain p ss where
    "conn_read n (bcr_r r) = (Inr p, ss)" "p \<noteq> []" "length p \<le> n" "concat (bcr_r r) = p @ concat ss"
    by (auto simp: bc_pending_def)
  then show ?thesis by (auto simp: bc_Read_def bc_pending_def)
qed

interpretation bc: io_reader bc_Read bc_pending
  using bc_Read_eof bc_Read_some by unfold_locales blast+

lemma bufio_copy_some:
  assumes "0 < n" "br_buf b \<noteq> []"
  shows "\<exists>p b'. bufio_copy n b = (Inr p, b') \<and> p \<noteq> [] \<and> length p \<le> n \<and>
     br_pending b = p @ br_pending b'"
  using assms by (auto simp: bufio_copy_def br_pending_def Let_def)

lemma bufio_Read_some:
  assumes "0 < n" "br_pending b \<noteq> []"
  shows "\<exists>p b'. bufio_Read n b = (Inr p, b') \<and> p \<noteq> [] \<and> length p \<le> n \<and>
     br_pending b = p @ br_pending b'"
proof (cases "br_buf b = []")
  case False
  with bufio_copy_some [OF assms(1)] assms(1) show ?thesis by (simp add: bufio_Read_def)
next
  case True
  then have pend: "bc_pending (br_rd b) \<noteq> []" using assms(2) by (simp add: br_pending_def)
  show ?thesis
  proof (cases "bufio_size \<le> n")
    case big: True
    obtain p r where "bc_Read n (br_rd b) = (Inr p, r)" "p \<noteq> []" "length p \<le> n"
        "bc_pending (br_rd b) = p @ bc_pending r"
      using bc_Read_some [OF assms(1) pend] by blast
    with True big assms(1) show ?thesis by (simp add: bufio_Read_def br_pending_def)
  next
    case small: False
    have "0 < bufio_size" by (simp add: bufio_size_def)
    then obtain p r where p: "bc_Read bufio_size (br_rd b) = (Inr p, r)" "p \<noteq> []"
        "bc_pending (br_rd b) = p @ bc_pending r"
      using bc_Read_some [OF _ pend] by blast
    from bufio_copy_some [OF assms(1), of "b\<lparr>br_rd := r, br_buf := p\<rparr>"] p True small assms(1)
    show ?thesis by (simp add: bufio_Read_def br_pending_def)
  qed
qed

lemma bufio_Read_eof:
  assumes "0 < n" "br_pending b = []"
  shows "\<exists>b'. bufio_Read n b = (Inl EOF, b') \<and> br_pending b' = []"
proof -
  have "br_buf b = []" "bc_pending (br_rd b) = []" using assms(2) by (auto simp: br_pending_def)
  with bc_Read_eof [of "br_rd b" n] bc_Read_eof [of "br_rd b" bufio_size] assms(1)
  show ?thesis by (auto simp: bufio_Read_def br_pending_def)
qed

interpretation bufio: io_reader bufio_Read br_pending
  using bufio_Read_eof bufio_Read_some by unfold_locales

lemma bufio_ReadByte_eof:
  "br_pending b = [] \<Longrightarrow> \<exists>b'. bufio_ReadByte b = (Inl EOF, b') \<and> br_pending b' = []"
  using bc_Read_eof [of "br_rd b" bufio_size]
  by (auto simp: bufio_ReadByte_def br_pending_def)

lemma bufio_ReadByte_some:
  assumes "br_pending b = c # cs"
  shows "\<exists>b'. bufio_ReadByte b = (Inr c, b') \<and> br_pending b' = cs \<and> br_lastByte b' = Some c"
proof (cases "br_buf b")
  case Nil
  then have "bc_pending (br_rd b) \<noteq> []" "0 < bufio_size"
    using assms by (auto simp: br_pending_def bufio_size_def)
  then obtain p r where p: "bc_Read bufio_size (br_rd b) = (Inr p, r)" "p \<noteq> []"
      "bc_pending (br_rd b) = p @ bc_pending r"
    using bc_Read_some by blast
  then obtain ps where "p = c # ps" using assms Nil by (cases p) (auto simp: br_pending_def)
  with p Nil assms show ?thesis by (simp add: bufio_ReadByte_def br_pending_def)
next
  case (Cons d ds)
  with assms show ?thesis by (simp add: bufio_ReadByte_def br_pending_def)
qed

text \<open>Reading a byte and giving it back leaves the stream as it was.\<close>

lemma bufio_peek:
  assumes "br_pending b = c # cs"
  shows "\<exists>b1 b2. bufio_ReadByte b = (Inr c, b1) \<and> bufio_UnreadByte b1 = (Inr (), b2) \<and>
     br_pending b2 = br_pending b"
  using bufio_ReadByte_some [OF assms] assms
  by (auto simp: bufio_UnreadByte_def br_pending_def)

section \<open>bufio.Writer\<close>

text \<open>
  The buffered bytes, the error that sticks once a write below has failed, and the writer below.
\<close>

record bufio_writer =
  bw_buf :: "byte list"
  bw_err :: "error option"
  bw_wr :: bc_writer

definition bufio_NewWriter :: "bc_writer \<Rightarrow> bufio_writer" where
  "bufio_NewWriter w = \<lparr>bw_buf = [], bw_err = None, bw_wr = w\<rparr>"

definition bufio_Flush :: "(bufio_writer, unit) io" where
  "bufio_Flush b =
     (case bw_err b of
        Some e \<Rightarrow> (Inl e, b)
      | None \<Rightarrow>
          if bw_buf b = [] then (Inr (), b)
          else (case bc_Write (bw_buf b) (bw_wr b) of
                  ((n, Some e), w) \<Rightarrow>
                    (Inl e, b\<lparr>bw_wr := w, bw_buf := drop n (bw_buf b), bw_err := Some e\<rparr>)
                | ((n, None), w) \<Rightarrow>
                    if n < length (bw_buf b)
                    then (Inl (Err ''short write''),
                          b\<lparr>bw_wr := w, bw_buf := drop n (bw_buf b), bw_err := Some (Err ''short write'')\<rparr>)
                    else (Inr (), b\<lparr>bw_wr := w, bw_buf := []\<rparr>)))"

text \<open>
  The loop of \<open>Write\<close>: while the bytes do not fit and nothing has failed, bytes go straight to the
  writer below when nothing is buffered, and otherwise the buffer is filled up and flushed.  The
  second component of the state is what remains of the argument.
\<close>

definition bufio_Write_step :: "byte list \<times> bufio_writer \<Rightarrow> byte list \<times> bufio_writer" where
  "bufio_Write_step = (\<lambda>(p, b).
     if bw_buf b = []
     then (let ((n, err), w) = bc_Write p (bw_wr b)
           in (drop n p, b\<lparr>bw_wr := w, bw_err := err\<rparr>))
     else (let n = bufio_size - length (bw_buf b)
           in (drop n p, snd (bufio_Flush (b\<lparr>bw_buf := bw_buf b @ take n p\<rparr>)))))"

definition bufio_Write_cond :: "byte list \<times> bufio_writer \<Rightarrow> bool" where
  "bufio_Write_cond = (\<lambda>(p, b). bufio_size - length (bw_buf b) < length p \<and> bw_err b = None)"

lemma bc_Write_count: "bc_Write p w = ((n, None), w') \<Longrightarrow> n = length p"
  by (auto simp: bc_Write_def conn_write_def Let_def split: option.splits if_splits prod.splits)

lemma bufio_Flush_buf:
  "bufio_Flush b = (r, b') \<Longrightarrow> bw_err b = None \<Longrightarrow> bw_err b' = None \<Longrightarrow> bw_buf b' = []"
  by (auto simp: bufio_Flush_def split: option.splits if_splits prod.splits)

function bufio_Write_loop :: "byte list \<times> bufio_writer \<Rightarrow> byte list \<times> bufio_writer" where
  "bufio_Write_loop pb =
     (if bufio_Write_cond pb then bufio_Write_loop (bufio_Write_step pb) else pb)"
  by pat_completeness auto
termination
proof (relation "measure (\<lambda>(p, b). if bw_err b \<noteq> None then 0
    else Suc (2 * length p + (if bw_buf b = [] then 0 else 1)))")
  fix pb :: "byte list \<times> bufio_writer"
  assume cond: "bufio_Write_cond pb"
  obtain p b where pb: "pb = (p, b)" by (cases pb)
  have err: "bw_err b = None" and p: "p \<noteq> []"
    using cond by (auto simp: pb bufio_Write_cond_def)
  show "(bufio_Write_step pb, pb) \<in> measure (\<lambda>(p, b). if bw_err b \<noteq> None then 0
    else Suc (2 * length p + (if bw_buf b = [] then 0 else 1)))"
  proof (cases "bw_buf b = []")
    case True
    obtain n e w where w: "bc_Write p (bw_wr b) = ((n, e), w)" by (cases "bc_Write p (bw_wr b)") auto
    with True err p bc_Write_count [of p "bw_wr b" n w] show ?thesis
      by (cases e) (simp_all add: pb bufio_Write_step_def)
  next
    case False
    let ?n = "bufio_size - length (bw_buf b)"
    obtain r b' where f: "bufio_Flush (b\<lparr>bw_buf := bw_buf b @ take ?n p\<rparr>) = (r, b')"
      by (cases "bufio_Flush (b\<lparr>bw_buf := bw_buf b @ take ?n p\<rparr>)") auto
    with False err bufio_Flush_buf [OF f] show ?thesis
      by (auto simp: pb bufio_Write_step_def Let_def)
  qed
qed simp

declare bufio_Write_loop.simps [simp del]

definition bufio_Write :: "byte list \<Rightarrow> (bufio_writer, unit) io" where
  "bufio_Write p b =
     (let (p', b') = bufio_Write_loop (p, b)
      in case bw_err b' of
           Some e \<Rightarrow> (Inl e, b')
         | None \<Rightarrow> (Inr (), b'\<lparr>bw_buf := bw_buf b' @ p'\<rparr>))"

section \<open>The writer contract\<close>

locale io_writer =
  fixes wr :: "byte list \<Rightarrow> ('s, unit) io"
    and stream :: "'s \<Rightarrow> byte list"
    and healthy :: "'s \<Rightarrow> bool"
  assumes write_ok:
    "healthy s \<Longrightarrow> \<exists>s'. wr p s = (Inr (), s') \<and> healthy s' \<and> stream s' = stream s @ p"
begin

text \<open>A sequence of writes that the connection accepts appends all the bytes, in order.\<close>

primrec write_list :: "byte list list \<Rightarrow> ('s, unit) io" where
  "write_list [] = returnIO ()"
| "write_list (p # ps) = bindIO (wr p) (\<lambda>_. write_list ps)"

lemma write_list_ok:
  "healthy s \<Longrightarrow>
   \<exists>s'. write_list ps s = (Inr (), s') \<and> healthy s' \<and> stream s' = stream s @ concat ps"
proof (induction ps arbitrary: s)
  case Nil
  then show ?case by (simp add: returnIO_def)
next
  case (Cons p ps)
  from write_ok [OF Cons.prems] obtain s1 where s1: "wr p s = (Inr (), s1)" "healthy s1"
      "stream s1 = stream s @ p"
    by blast
  from Cons.IH [OF s1(2)] s1 show ?case by (auto simp: bindIO_Inr)
qed

end

text \<open>The write of the counting writer as its callers see it: the error alone.\<close>

definition bc_write :: "byte list \<Rightarrow> (bc_writer, unit) io" where
  "bc_write p w = (case bc_Write p w of ((n, Some e), w') \<Rightarrow> (Inl e, w') | ((n, None), w') \<Rightarrow> (Inr (), w'))"

definition bc_healthy :: "bc_writer \<Rightarrow> bool" where
  "bc_healthy w \<longleftrightarrow> co_limit (bcw_w w) = None"

definition bc_stream :: "bc_writer \<Rightarrow> byte list" where
  "bc_stream w = co_sent (bcw_w w)"

lemma bc_Write_healthy:
  assumes "bc_healthy w"
  shows "\<exists>w'. bc_Write p w = ((length p, None), w') \<and> bc_healthy w' \<and>
    bc_stream w' = bc_stream w @ p \<and> bcw_count w' = bcw_count w + of_nat (length p)"
  using assms by (simp add: bc_Write_def conn_write_def bc_healthy_def bc_stream_def)

interpretation bc: io_writer bc_write bc_stream bc_healthy
proof
  fix s p
  assume "bc_healthy s"
  from bc_Write_healthy [OF this, of p]
  show "\<exists>s'. bc_write p s = (Inr (), s') \<and> bc_healthy s' \<and> bc_stream s' = bc_stream s @ p"
    by (auto simp: bc_write_def)
qed

definition bw_healthy :: "bufio_writer \<Rightarrow> bool" where
  "bw_healthy b \<longleftrightarrow> bw_err b = None \<and> bc_healthy (bw_wr b)"

text \<open>What has been written so far: the bytes sent, then the bytes still buffered.\<close>

definition bw_stream :: "bufio_writer \<Rightarrow> byte list" where
  "bw_stream b = bc_stream (bw_wr b) @ bw_buf b"

lemma bufio_Flush_healthy:
  assumes "bw_healthy b"
  shows "\<exists>b'. bufio_Flush b = (Inr (), b') \<and> bw_healthy b' \<and> bw_buf b' = [] \<and>
     bw_stream b' = bw_stream b"
  using assms bc_Write_healthy [of "bw_wr b" "bw_buf b"]
  by (auto simp: bufio_Flush_def bw_healthy_def bw_stream_def)

lemma bufio_Write_step_healthy:
  assumes "bw_healthy b" and "bufio_Write_step (p, b) = (p', b')"
  shows "bw_healthy b' \<and> bw_stream b' @ p' = bw_stream b @ p"
proof (cases "bw_buf b = []")
  case True
  with assms bc_Write_healthy [of "bw_wr b" p] show ?thesis
    by (auto simp: bufio_Write_step_def bw_healthy_def bw_stream_def)
next
  case False
  let ?n = "bufio_size - length (bw_buf b)"
  have "bw_healthy (b\<lparr>bw_buf := bw_buf b @ take ?n p\<rparr>)" using assms(1) by (simp add: bw_healthy_def)
  from bufio_Flush_healthy [OF this] obtain b'' where
    "bufio_Flush (b\<lparr>bw_buf := bw_buf b @ take ?n p\<rparr>) = (Inr (), b'')" "bw_healthy b''"
    "bw_stream b'' = bw_stream b @ take ?n p"
    by (auto simp: bw_stream_def)
  with False assms(2) show ?thesis by (auto simp: bufio_Write_step_def Let_def)
qed

lemma bufio_Write_loop_healthy:
  "bw_healthy (snd pb) \<Longrightarrow> bufio_Write_loop pb = (p', b') \<Longrightarrow>
   bw_healthy b' \<and> bw_stream b' @ p' = bw_stream (snd pb) @ fst pb"
proof (induction pb rule: bufio_Write_loop.induct)
  case (1 pb)
  show ?case
  proof (cases "bufio_Write_cond pb")
    case True
    obtain p1 b1 where step: "bufio_Write_step pb = (p1, b1)" by (cases "bufio_Write_step pb")
    have s: "bw_healthy b1 \<and> bw_stream b1 @ p1 = bw_stream (snd pb) @ fst pb"
      using bufio_Write_step_healthy [of "snd pb" "fst pb" p1 b1] "1.prems"(1) step by simp
    have "bufio_Write_loop (p1, b1) = (p', b')"
      using "1.prems"(2) True step by (simp add: bufio_Write_loop.simps [of pb])
    with "1.IH" [OF True] step s show ?thesis by simp
  next
    case False
    with "1.prems" show ?thesis by (auto simp: bufio_Write_loop.simps [of pb])
  qed
qed

interpretation bufio: io_writer bufio_Write bw_stream bw_healthy
proof
  fix s p
  assume h: "bw_healthy s"
  obtain p' b' where l: "bufio_Write_loop (p, s) = (p', b')" by (cases "bufio_Write_loop (p, s)")
  with bufio_Write_loop_healthy [of "(p, s)" p' b'] h
  have "bw_healthy b'" "bw_stream b' @ p' = bw_stream s @ p" by auto
  with l show "\<exists>s'. bufio_Write p s = (Inr (), s') \<and> bw_healthy s' \<and> bw_stream s' = bw_stream s @ p"
    by (auto simp: bufio_Write_def bw_healthy_def bw_stream_def)
qed

end
