(* ===== verification/Chunk.thy ===== *)
theory Chunk
  imports ByteStream
begin

text \<open>
  The four chunk formats of \<open>internal/rtmp/chunk\<close>: a chunk stream id, a message header that the
  formats 1 to 3 abbreviate more and more, and a part of the body of a message.  \<open>Read\<close> takes the
  reader as an argument, as the Go methods take an \<open>io.Reader\<close>.  The locale \<open>chunk_codec\<close> is the
  contract of the interface \<open>chunk.Chunk\<close> that the raw message reader and writer rely on; it holds
  for the four formats over every reader.
\<close>

section \<open>Type 0\<close>

record Chunk0 =
  c0_ChunkStreamID :: byte
  c0_Timestamp :: u32
  c0_Type :: u8
  c0_MessageStreamID :: u32
  c0_BodyLen :: u32
  c0_Body :: "byte list"

definition Chunk0_Read :: "(nat \<Rightarrow> ('s, byte list) io) \<Rightarrow> u32 \<Rightarrow> ('s, Chunk0) io" where
  "Chunk0_Read rd chunkMaxBodyLen =
     bindIO (read_full rd 12) (\<lambda>header.
       let bodyLen = of_be24 (header ! 4) (header ! 5) (header ! 6);
           chunkBodyLen = (if bodyLen > chunkMaxBodyLen then chunkMaxBodyLen else bodyLen)
       in bindIO (read_full rd (unat chunkBodyLen)) (\<lambda>body.
         returnIO
           \<lparr>c0_ChunkStreamID = header ! 0 AND 0x3F,
            c0_Timestamp = of_be24 (header ! 1) (header ! 2) (header ! 3),
            c0_Type = header ! 7,
            c0_MessageStreamID = of_be32 (header ! 8) (header ! 9) (header ! 10) (header ! 11),
            c0_BodyLen = bodyLen,
            c0_Body = body\<rparr>))"

definition Chunk0_Marshal :: "Chunk0 \<Rightarrow> byte list" where
  "Chunk0_Marshal c =
     [c0_ChunkStreamID c] @ be24 (c0_Timestamp c) @ be24 (c0_BodyLen c) @ [c0_Type c] @
     be32 (c0_MessageStreamID c) @ c0_Body c"

section \<open>Type 1\<close>

record Chunk1 =
  c1_ChunkStreamID :: byte
  c1_TimestampDelta :: u32
  c1_Type :: u8
  c1_BodyLen :: u32
  c1_Body :: "byte list"

definition Chunk1_Read :: "(nat \<Rightarrow> ('s, byte list) io) \<Rightarrow> u32 \<Rightarrow> ('s, Chunk1) io" where
  "Chunk1_Read rd chunkMaxBodyLen =
     bindIO (read_full rd 8) (\<lambda>header.
       let bodyLen = of_be24 (header ! 4) (header ! 5) (header ! 6);
           chunkBodyLen = (if bodyLen > chunkMaxBodyLen then chunkMaxBodyLen else bodyLen)
       in bindIO (read_full rd (unat chunkBodyLen)) (\<lambda>body.
         returnIO
           \<lparr>c1_ChunkStreamID = header ! 0 AND 0x3F,
            c1_TimestampDelta = of_be24 (header ! 1) (header ! 2) (header ! 3),
            c1_Type = header ! 7,
            c1_BodyLen = bodyLen,
            c1_Body = body\<rparr>))"

definition Chunk1_Marshal :: "Chunk1 \<Rightarrow> byte list" where
  "Chunk1_Marshal c =
     [push_bit 6 1 OR c1_ChunkStreamID c] @ be24 (c1_TimestampDelta c) @ be24 (c1_BodyLen c) @
     [c1_Type c] @ c1_Body c"

section \<open>Type 2\<close>

record Chunk2 =
  c2_ChunkStreamID :: byte
  c2_TimestampDelta :: u32
  c2_Body :: "byte list"

definition Chunk2_Read :: "(nat \<Rightarrow> ('s, byte list) io) \<Rightarrow> u32 \<Rightarrow> ('s, Chunk2) io" where
  "Chunk2_Read rd chunkBodyLen =
     bindIO (read_full rd 4) (\<lambda>header.
       bindIO (read_full rd (unat chunkBodyLen)) (\<lambda>body.
         returnIO
           \<lparr>c2_ChunkStreamID = header ! 0 AND 0x3F,
            c2_TimestampDelta = of_be24 (header ! 1) (header ! 2) (header ! 3),
            c2_Body = body\<rparr>))"

definition Chunk2_Marshal :: "Chunk2 \<Rightarrow> byte list" where
  "Chunk2_Marshal c =
     [push_bit 6 2 OR c2_ChunkStreamID c] @ be24 (c2_TimestampDelta c) @ c2_Body c"

section \<open>Type 3\<close>

record Chunk3 =
  c3_ChunkStreamID :: byte
  c3_Body :: "byte list"

definition Chunk3_Read :: "(nat \<Rightarrow> ('s, byte list) io) \<Rightarrow> u32 \<Rightarrow> ('s, Chunk3) io" where
  "Chunk3_Read rd chunkBodyLen =
     bindIO (read_full rd 1) (\<lambda>header.
       bindIO (read_full rd (unat chunkBodyLen)) (\<lambda>body.
         returnIO \<lparr>c3_ChunkStreamID = header ! 0 AND 0x3F, c3_Body = body\<rparr>))"

definition Chunk3_Marshal :: "Chunk3 \<Rightarrow> byte list" where
  "Chunk3_Marshal c = [push_bit 6 3 OR c3_ChunkStreamID c] @ c3_Body c"

section \<open>The chunk interface\<close>

text \<open>
  A chunk that is read with the body length it was written for comes back unchanged.  Every chunk
  that is read takes at least one byte off the stream and is well-formed: its fields fit their
  width on the wire and its body has the length that was asked for.  A read fails only at the end
  of the stream.
\<close>

locale chunk_codec =
  fixes Read :: "u32 \<Rightarrow> ('s, 'c) io"
    and Marshal :: "'c \<Rightarrow> byte list"
    and pending :: "'s \<Rightarrow> byte list"
    and wf :: "u32 \<Rightarrow> 'c \<Rightarrow> bool"
  assumes read_marshal:
    "wf n c \<Longrightarrow> pending s = Marshal c @ rest \<Longrightarrow> \<exists>s'. Read n s = (Inr c, s') \<and> pending s' = rest"
    and read_consumes: "Read n s = (Inr c, s') \<Longrightarrow> length (pending s') < length (pending s)"
    and read_pending_le: "Read n s = (r, s') \<Longrightarrow> length (pending s') \<le> length (pending s)"
    and read_wf: "Read n s = (Inr c, s') \<Longrightarrow> wf n c"
    and read_error: "Read n s = (Inl e, s') \<Longrightarrow> e = EOF \<or> e = UnexpectedEOF"
begin

text \<open>A run of chunks, each with the body length it is read with, comes back in order.\<close>

primrec read_run :: "u32 list \<Rightarrow> ('s, 'c list) io" where
  "read_run [] = returnIO []"
| "read_run (n # ns) = bindIO (Read n) (\<lambda>c. bindIO (read_run ns) (\<lambda>cs. returnIO (c # cs)))"

lemma read_run_ok:
  "list_all2 wf ns cs \<Longrightarrow> pending s = concat (map Marshal cs) @ rest \<Longrightarrow>
   \<exists>s'. read_run ns s = (Inr cs, s') \<and> pending s' = rest"
proof (induction ns cs arbitrary: s rule: list_all2_induct)
  case Nil
  then show ?case by (simp add: returnIO_def)
next
  case (Cons n ns c cs)
  from read_marshal [OF Cons.hyps(1), of s "concat (map Marshal cs) @ rest"] Cons.prems
  obtain s1 where s1: "Read n s = (Inr c, s1)" "pending s1 = concat (map Marshal cs) @ rest"
    by auto
  from Cons.IH [OF s1(2)] s1(1) show ?case by (auto simp: bindIO_Inr returnIO_def)
qed

end

section \<open>The four formats keep the contract\<close>

definition Chunk0_wf :: "u32 \<Rightarrow> Chunk0 \<Rightarrow> bool" where
  "Chunk0_wf n c \<longleftrightarrow>
     c0_ChunkStreamID c AND 0x3F = c0_ChunkStreamID c \<and> unat (c0_Timestamp c) < 2 ^ 24 \<and>
     unat (c0_BodyLen c) < 2 ^ 24 \<and> length (c0_Body c) = min (unat (c0_BodyLen c)) (unat n)"

definition Chunk1_wf :: "u32 \<Rightarrow> Chunk1 \<Rightarrow> bool" where
  "Chunk1_wf n c \<longleftrightarrow>
     c1_ChunkStreamID c AND 0x3F = c1_ChunkStreamID c \<and> unat (c1_TimestampDelta c) < 2 ^ 24 \<and>
     unat (c1_BodyLen c) < 2 ^ 24 \<and> length (c1_Body c) = min (unat (c1_BodyLen c)) (unat n)"

definition Chunk2_wf :: "u32 \<Rightarrow> Chunk2 \<Rightarrow> bool" where
  "Chunk2_wf n c \<longleftrightarrow>
     c2_ChunkStreamID c AND 0x3F = c2_ChunkStreamID c \<and> unat (c2_TimestampDelta c) < 2 ^ 24 \<and>
     length (c2_Body c) = unat n"

definition Chunk3_wf :: "u32 \<Rightarrow> Chunk3 \<Rightarrow> bool" where
  "Chunk3_wf n c \<longleftrightarrow>
     c3_ChunkStreamID c AND 0x3F = c3_ChunkStreamID c \<and> length (c3_Body c) = unat n"

text \<open>The two top bits of the first byte are the format; masking them gives the id back.\<close>

lemma format_id_mask:
  assumes "(i :: byte) AND 0x3F = i"
  shows "(push_bit 6 f OR i) AND 0x3F = i"
proof -
  have "bit i n \<Longrightarrow> n < 6" for n
  proof -
    assume "bit i n"
    then have "bit (i AND mask 6) n" using assms by (simp add: mask_eq_exp_minus_1)
    then show "n < 6" by (simp add: bit_simps)
  qed
  then have "(push_bit 6 f OR i) AND mask 6 = i"
    by (intro bit_word_eqI) (auto simp: bit_simps)
  then show ?thesis by (simp add: mask_eq_exp_minus_1)
qed

lemma format_id_simps:
  assumes "(i :: byte) AND 0x3F = i"
  shows "(64 OR i) AND 0x3F = i" and "(128 OR i) AND 0x3F = i" and "(192 OR i) AND 0x3F = i"
  using format_id_mask [OF assms, of 1] format_id_mask [OF assms, of 2] format_id_mask [OF assms, of 3]
  by simp_all

lemma mask_id: "((b :: byte) AND 0x3F) AND 0x3F = b AND 0x3F"
  by (simp add: and.assoc)

lemmas read_be24 = unat_of_be24_less [simplified]

lemma unat_min_len:
  "unat (if (b :: u32) > n then n else b) = min (unat b) (unat n)"
  by (simp add: word_less_nat_alt)

context io_reader
begin

lemma read_full_append:
  assumes "pending s = p @ q"
  shows "\<exists>s'. read_full read (length p) s = (Inr p, s') \<and> pending s' = q"
  using read_full_ok [of "length p" s] assms by simp

text \<open>A header of \<open>n\<close> bytes followed by a body whose length the header determines.\<close>

lemma header_body_pending:
  assumes "bindIO (read_full read n)
      (\<lambda>h. bindIO (read_full read (len h)) (\<lambda>b. returnIO (f h b))) s = (r, s')"
  shows "length (pending s') \<le> length (pending s)"
proof -
  obtain r1 s1 where r1: "read_full read n s = (r1, s1)" by (cases "read_full read n s")
  note le1 = read_full_pending_le [OF r1]
  show ?thesis
  proof (cases r1)
    case (Inl e)
    with assms r1 le1 show ?thesis by (simp add: bindIO_Inl)
  next
    case (Inr h)
    obtain r2 s2 where r2: "read_full read (len h) s1 = (r2, s2)"
      by (cases "read_full read (len h) s1")
    with assms r1 Inr have "s' = s2"
      by (cases r2) (auto simp: bindIO_def returnIO_def)
    with le1 read_full_pending_le [OF r2] show ?thesis by simp
  qed
qed

lemma read_full_InlD: "read_full read n s = (Inl e, s') \<Longrightarrow> e = EOF \<or> e = UnexpectedEOF"
  using read_full_ok [of n s] read_full_short [of s n]
  by (cases "n \<le> length (pending s)") (auto simp: not_le split: if_splits)

lemma header_body_InlD:
  "bindIO (read_full read n)
      (\<lambda>h. bindIO (read_full read (len h)) (\<lambda>b. returnIO (f h b))) s = (Inl e, s') \<Longrightarrow>
   e = EOF \<or> e = UnexpectedEOF"
  by (auto simp: bindIO_def returnIO_def split: prod.splits sum.splits dest: read_full_InlD)

lemma header_body_InrD:
  assumes "bindIO (read_full read n)
      (\<lambda>h. bindIO (read_full read (len h)) (\<lambda>b. returnIO (f h b))) s = (Inr c, s')"
  obtains h b where "c = f h b" "length h = n" "length b = len h" "pending s = h @ b @ pending s'"
proof -
  from assms obtain h s1 where h: "read_full read n s = (Inr h, s1)"
      "bindIO (read_full read (len h)) (\<lambda>b. returnIO (f h b)) s1 = (Inr c, s')"
    by (rule bindIO_InrE)
  from h(2) obtain b s2 where b: "read_full read (len h) s1 = (Inr b, s2)"
      "returnIO (f h b) s2 = (Inr c, s')"
    by (rule bindIO_InrE)
  from b(2) have "c = f h b" "s2 = s'" by (auto simp: returnIO_def)
  with read_full_InrD [OF h(1)] read_full_InrD [OF b(1)] show thesis
    by (intro that) auto
qed

end

lemmas header_codec = be24_def be32_def codec_simps take_bit_24_id format_id_simps unat_min_len Let_def

sublocale io_reader \<subseteq> c0: chunk_codec "Chunk0_Read read" Chunk0_Marshal pending Chunk0_wf
proof
  fix n c s rest
  assume wf: "Chunk0_wf n c" and pend: "pending s = Chunk0_Marshal c @ rest"
  let ?h = "[c0_ChunkStreamID c] @ be24 (c0_Timestamp c) @ be24 (c0_BodyLen c) @ [c0_Type c] @
    be32 (c0_MessageStreamID c)"
  have "pending s = ?h @ c0_Body c @ rest" using pend by (simp add: Chunk0_Marshal_def)
  from read_full_append [OF this] obtain s1 where
    s1: "read_full read 12 s = (Inr ?h, s1)" "pending s1 = c0_Body c @ rest" by auto
  from read_full_append [OF s1(2)] obtain s2 where
    s2: "read_full read (length (c0_Body c)) s1 = (Inr (c0_Body c), s2)" "pending s2 = rest" by auto
  show "\<exists>s'. Chunk0_Read read n s = (Inr c, s') \<and> pending s' = rest"
    using wf s1(1) s2
    by (simp add: Chunk0_Read_def Chunk0_wf_def bindIO_Inr returnIO_def header_codec)
next
  fix n s c s'
  assume "Chunk0_Read read n s = (Inr c, s')"
  then show "length (pending s') < length (pending s)"
    unfolding Chunk0_Read_def Let_def by (rule header_body_InrD) simp
next
  fix n s r s'
  assume "Chunk0_Read read n s = (r, s')"
  then show "length (pending s') \<le> length (pending s)"
    unfolding Chunk0_Read_def Let_def by (rule header_body_pending)
next
  fix n s c s'
  assume "Chunk0_Read read n s = (Inr c, s')"
  then show "Chunk0_wf n c"
    unfolding Chunk0_Read_def Let_def
    by (rule header_body_InrD) (simp add: unat_min_len Chunk0_wf_def mask_id read_be24)
next
  fix n s e s'
  assume "Chunk0_Read read n s = (Inl e, s')"
  then show "e = EOF \<or> e = UnexpectedEOF"
    unfolding Chunk0_Read_def Let_def by (rule header_body_InlD)
qed

sublocale io_reader \<subseteq> c1: chunk_codec "Chunk1_Read read" Chunk1_Marshal pending Chunk1_wf
proof
  fix n c s rest
  assume wf: "Chunk1_wf n c" and pend: "pending s = Chunk1_Marshal c @ rest"
  let ?h = "[push_bit 6 1 OR c1_ChunkStreamID c] @ be24 (c1_TimestampDelta c) @ be24 (c1_BodyLen c) @
    [c1_Type c]"
  have "pending s = ?h @ c1_Body c @ rest" using pend by (simp add: Chunk1_Marshal_def)
  from read_full_append [OF this] obtain s1 where
    s1: "read_full read 8 s = (Inr ?h, s1)" "pending s1 = c1_Body c @ rest" by auto
  from read_full_append [OF s1(2)] obtain s2 where
    s2: "read_full read (length (c1_Body c)) s1 = (Inr (c1_Body c), s2)" "pending s2 = rest" by auto
  show "\<exists>s'. Chunk1_Read read n s = (Inr c, s') \<and> pending s' = rest"
    using wf s1(1) s2
    by (simp add: Chunk1_Read_def Chunk1_wf_def bindIO_Inr returnIO_def header_codec)
next
  fix n s c s'
  assume "Chunk1_Read read n s = (Inr c, s')"
  then show "length (pending s') < length (pending s)"
    unfolding Chunk1_Read_def Let_def by (rule header_body_InrD) simp
next
  fix n s r s'
  assume "Chunk1_Read read n s = (r, s')"
  then show "length (pending s') \<le> length (pending s)"
    unfolding Chunk1_Read_def Let_def by (rule header_body_pending)
next
  fix n s c s'
  assume "Chunk1_Read read n s = (Inr c, s')"
  then show "Chunk1_wf n c"
    unfolding Chunk1_Read_def Let_def
    by (rule header_body_InrD) (simp add: unat_min_len Chunk1_wf_def mask_id read_be24)
next
  fix n s e s'
  assume "Chunk1_Read read n s = (Inl e, s')"
  then show "e = EOF \<or> e = UnexpectedEOF"
    unfolding Chunk1_Read_def Let_def by (rule header_body_InlD)
qed

sublocale io_reader \<subseteq> c2: chunk_codec "Chunk2_Read read" Chunk2_Marshal pending Chunk2_wf
proof
  fix n c s rest
  assume wf: "Chunk2_wf n c" and pend: "pending s = Chunk2_Marshal c @ rest"
  let ?h = "[push_bit 6 2 OR c2_ChunkStreamID c] @ be24 (c2_TimestampDelta c)"
  have "pending s = ?h @ c2_Body c @ rest" using pend by (simp add: Chunk2_Marshal_def)
  from read_full_append [OF this] obtain s1 where
    s1: "read_full read 4 s = (Inr ?h, s1)" "pending s1 = c2_Body c @ rest" by auto
  from read_full_append [OF s1(2)] obtain s2 where
    s2: "read_full read (length (c2_Body c)) s1 = (Inr (c2_Body c), s2)" "pending s2 = rest" by auto
  show "\<exists>s'. Chunk2_Read read n s = (Inr c, s') \<and> pending s' = rest"
    using wf s1(1) s2
    by (simp add: Chunk2_Read_def Chunk2_wf_def bindIO_Inr returnIO_def header_codec)
next
  fix n s c s'
  assume "Chunk2_Read read n s = (Inr c, s')"
  then show "length (pending s') < length (pending s)"
    unfolding Chunk2_Read_def Let_def by (rule header_body_InrD) simp
next
  fix n s r s'
  assume "Chunk2_Read read n s = (r, s')"
  then show "length (pending s') \<le> length (pending s)"
    unfolding Chunk2_Read_def Let_def by (rule header_body_pending)
next
  fix n s c s'
  assume "Chunk2_Read read n s = (Inr c, s')"
  then show "Chunk2_wf n c"
    unfolding Chunk2_Read_def Let_def
    by (rule header_body_InrD) (simp add: unat_min_len Chunk2_wf_def mask_id read_be24)
next
  fix n s e s'
  assume "Chunk2_Read read n s = (Inl e, s')"
  then show "e = EOF \<or> e = UnexpectedEOF"
    unfolding Chunk2_Read_def Let_def by (rule header_body_InlD)
qed

sublocale io_reader \<subseteq> c3: chunk_codec "Chunk3_Read read" Chunk3_Marshal pending Chunk3_wf
proof
  fix n c s rest
  assume wf: "Chunk3_wf n c" and pend: "pending s = Chunk3_Marshal c @ rest"
  let ?h = "[push_bit 6 3 OR c3_ChunkStreamID c]"
  have "pending s = ?h @ c3_Body c @ rest" using pend by (simp add: Chunk3_Marshal_def)
  from read_full_append [OF this] obtain s1 where
    s1: "read_full read 1 s = (Inr ?h, s1)" "pending s1 = c3_Body c @ rest" by auto
  from read_full_append [OF s1(2)] obtain s2 where
    s2: "read_full read (length (c3_Body c)) s1 = (Inr (c3_Body c), s2)" "pending s2 = rest" by auto
  show "\<exists>s'. Chunk3_Read read n s = (Inr c, s') \<and> pending s' = rest"
    using wf s1(1) s2
    by (simp add: Chunk3_Read_def Chunk3_wf_def bindIO_Inr returnIO_def header_codec)
next
  fix n s c s'
  assume "Chunk3_Read read n s = (Inr c, s')"
  then show "length (pending s') < length (pending s)"
    unfolding Chunk3_Read_def Let_def by (rule header_body_InrD) simp
next
  fix n s r s'
  assume "Chunk3_Read read n s = (r, s')"
  then show "length (pending s') \<le> length (pending s)"
    unfolding Chunk3_Read_def Let_def by (rule header_body_pending)
next
  fix n s c s'
  assume "Chunk3_Read read n s = (Inr c, s')"
  then show "Chunk3_wf n c"
    unfolding Chunk3_Read_def Let_def
    by (rule header_body_InrD) (simp add: unat_min_len Chunk3_wf_def mask_id read_be24)
next
  fix n s e s'
  assume "Chunk3_Read read n s = (Inl e, s')"
  then show "e = EOF \<or> e = UnexpectedEOF"
    unfolding Chunk3_Read_def Let_def by (rule header_body_InlD)
qed

end
