(* ===== verification/RawReader.thy ===== *)
theory RawReader
  imports Chunk
begin

text \<open>
  The raw message reader of \<open>internal/rtmp/rawmessage/reader.go\<close>: it assembles messages from the
  interleaved chunks of up to 64 chunk streams.  The state of a chunk stream and of the reader are
  records with the fields of the Go structs; the scratch fields \<open>c0\<close> to \<open>c3\<close>, which every use
  overwrites first, are the local results of the chunk reads.  The callback \<open>onAckNeeded\<close> acts on a
  state \<open>'w\<close> of its own (the writer, in \<open>message.ReadWriter\<close>).  A nil dereference of the source is
  the error \<open>Panic\<close>; the invariant \<open>rcs_ok\<close> shows that it does not happen.
\<close>

section \<open>State\<close>

record RawMessage =
  m_ChunkStreamID :: byte
  m_Timestamp :: duration
  m_Type :: u8
  m_MessageStreamID :: u32
  m_Body :: "byte list"

record readerChunkStream =
  curTimestamp :: "u32 option"
  curType :: "u8 option"
  curMessageStreamID :: "u32 option"
  curBodyLen :: "u32 option"
  curBody :: "byte list option"
  curTimestampDelta :: "u32 option"

record RawReader =
  rr_br :: bufio_reader
  rr_chunkSize :: u32
  rr_ackWindowSize :: u32
  rr_lastAckCount :: u32
  rr_msg :: RawMessage
  rr_chunkStreams :: "byte \<rightharpoonup> readerChunkStream"

definition new_readerChunkStream :: readerChunkStream where
  "new_readerChunkStream =
     \<lparr>curTimestamp = None, curType = None, curMessageStreamID = None, curBodyLen = None,
      curBody = None, curTimestampDelta = None\<rparr>"

definition zero_RawMessage :: RawMessage where
  "zero_RawMessage =
     \<lparr>m_ChunkStreamID = 0, m_Timestamp = 0, m_Type = 0, m_MessageStreamID = 0, m_Body = []\<rparr>"

definition RawReader_New :: "bc_reader \<Rightarrow> RawReader" where
  "RawReader_New r =
     \<lparr>rr_br = bufio_NewReader r, rr_chunkSize = 128, rr_ackWindowSize = 0, rr_lastAckCount = 0,
      rr_msg = zero_RawMessage, rr_chunkStreams = Map.empty\<rparr>"

definition RawReader_SetChunkSize :: "u32 \<Rightarrow> RawReader \<Rightarrow> RawReader" where
  "RawReader_SetChunkSize v r = r\<lparr>rr_chunkSize := v\<rparr>"

definition RawReader_SetWindowAckSize :: "u32 \<Rightarrow> RawReader \<Rightarrow> RawReader" where
  "RawReader_SetWindowAckSize v r = r\<lparr>rr_ackWindowSize := v\<rparr>"

section \<open>Reading a chunk\<close>

definition readChunk ::
  "(u32 \<Rightarrow> ('w, unit) io) \<Rightarrow> (bufio_reader, 'c) io \<Rightarrow> (RawReader \<times> 'w, 'c) io" where
  "readChunk onAckNeeded rd = (\<lambda>(r, w).
     case rd (rr_br r) of
       (Inl e, b) \<Rightarrow> (Inl e, (r\<lparr>rr_br := b\<rparr>, w))
     | (Inr c, b) \<Rightarrow>
         (let r = r\<lparr>rr_br := b\<rparr> in
          if rr_ackWindowSize r \<noteq> 0
          then (let count = ucast (bc_r_Count (br_rd b)) :: u32;
                    diff = count - rr_lastAckCount r in
                if diff > rr_ackWindowSize r
                then (case onAckNeeded count w of
                        (Inl e, w) \<Rightarrow> (Inl e, (r, w))
                      | (Inr _, w) \<Rightarrow>
                          (Inr c, (r\<lparr>rr_lastAckCount := rr_lastAckCount r + rr_ackWindowSize r\<rparr>, w)))
                else (Inr c, (r, w)))
          else (Inr c, (r, w))))"

section \<open>Reading a message\<close>

text \<open>
  The result \<open>Inr None\<close> is the sentinel \<open>errMoreChunksNeeded\<close>, \<open>Inr (Some m)\<close> a complete message.
\<close>

type_synonym 'w rc_state = "readerChunkStream \<times> RawReader \<times> 'w"

definition finish_message ::
  "u32 \<Rightarrow> u8 \<Rightarrow> u32 \<Rightarrow> byte list \<Rightarrow> ('w rc_state, RawMessage option) io" where
  "finish_message ts typ msid body = (\<lambda>(rc, r, w).
     let m = (rr_msg r)\<lparr>m_Timestamp := of_ms ts, m_Type := typ, m_MessageStreamID := msid,
                        m_Body := body\<rparr>
     in (Inr (Some m), (rc, r\<lparr>rr_msg := m\<rparr>, w)))"

definition chunk_len :: "u32 \<Rightarrow> RawReader \<Rightarrow> u32" where
  "chunk_len n r = (if n > rr_chunkSize r then rr_chunkSize r else n)"

definition readMessage0 :: "(u32 \<Rightarrow> ('w, unit) io) \<Rightarrow> ('w rc_state, RawMessage option) io" where
  "readMessage0 onAckNeeded = (\<lambda>(rc, r, w).
     if curBody rc \<noteq> None
     then (Inl (Err ''received type 0 chunk but expected type 3 chunk''), (rc, r, w))
     else case readChunk onAckNeeded (Chunk0_Read bufio_Read (rr_chunkSize r)) (r, w) of
            (Inl e, (r, w)) \<Rightarrow> (Inl e, (rc, r, w))
          | (Inr c, (r, w)) \<Rightarrow>
              (let rc = rc\<lparr>curMessageStreamID := Some (c0_MessageStreamID c),
                           curType := Some (c0_Type c),
                           curTimestamp := Some (c0_Timestamp c),
                           curBodyLen := Some (c0_BodyLen c),
                           curTimestampDelta := None\<rparr> in
               if c0_BodyLen c \<noteq> of_nat (length (c0_Body c))
               then (Inr None, (rc\<lparr>curBody := Some (c0_Body c)\<rparr>, r, w))
               else finish_message (c0_Timestamp c) (c0_Type c) (c0_MessageStreamID c) (c0_Body c)
                      (rc, r, w)))"

definition readMessage1 :: "(u32 \<Rightarrow> ('w, unit) io) \<Rightarrow> ('w rc_state, RawMessage option) io" where
  "readMessage1 onAckNeeded = (\<lambda>(rc, r, w).
     case curTimestamp rc of
       None \<Rightarrow> (Inl (Err ''received type 1 chunk without previous chunk''), (rc, r, w))
     | Some ts \<Rightarrow>
         if curBody rc \<noteq> None
         then (Inl (Err ''received type 1 chunk but expected type 3 chunk''), (rc, r, w))
         else (case readChunk onAckNeeded (Chunk1_Read bufio_Read (rr_chunkSize r)) (r, w) of
                (Inl e, (r, w)) \<Rightarrow> (Inl e, (rc, r, w))
              | (Inr c, (r, w)) \<Rightarrow>
                  (let ts' = ts + c1_TimestampDelta c;
                       rc = rc\<lparr>curType := Some (c1_Type c), curTimestamp := Some ts',
                               curBodyLen := Some (c1_BodyLen c),
                               curTimestampDelta := Some (c1_TimestampDelta c)\<rparr> in
                   if c1_BodyLen c \<noteq> of_nat (length (c1_Body c))
                   then (Inr None, (rc\<lparr>curBody := Some (c1_Body c)\<rparr>, r, w))
                   else bindIO (liftIO (deref (curMessageStreamID rc)))
                          (\<lambda>msid. finish_message ts' (c1_Type c) msid (c1_Body c)) (rc, r, w))))"

definition readMessage2 :: "(u32 \<Rightarrow> ('w, unit) io) \<Rightarrow> ('w rc_state, RawMessage option) io" where
  "readMessage2 onAckNeeded = (\<lambda>(rc, r, w).
     case curTimestamp rc of
       None \<Rightarrow> (Inl (Err ''received type 2 chunk without previous chunk''), (rc, r, w))
     | Some ts \<Rightarrow>
         if curBody rc \<noteq> None
         then (Inl (Err ''received type 2 chunk but expected type 3 chunk''), (rc, r, w))
         else (case curBodyLen rc of
                None \<Rightarrow> (Inl Panic, (rc, r, w))
              | Some bodyLen \<Rightarrow>
                  (case readChunk onAckNeeded (Chunk2_Read bufio_Read (chunk_len bodyLen r)) (r, w) of
                     (Inl e, (r, w)) \<Rightarrow> (Inl e, (rc, r, w))
                   | (Inr c, (r, w)) \<Rightarrow>
                       (let ts' = ts + c2_TimestampDelta c;
                            rc = rc\<lparr>curTimestamp := Some ts',
                                    curTimestampDelta := Some (c2_TimestampDelta c)\<rparr> in
                        if bodyLen \<noteq> of_nat (length (c2_Body c))
                        then (Inr None, (rc\<lparr>curBody := Some (c2_Body c)\<rparr>, r, w))
                        else bindIO (liftIO (deref (curType rc))) (\<lambda>typ.
                               bindIO (liftIO (deref (curMessageStreamID rc)))
                                 (\<lambda>msid. finish_message ts' typ msid (c2_Body c))) (rc, r, w)))))"

text \<open>Type 3, a further chunk of a message under way.\<close>

definition readMessage3_continue ::
  "(u32 \<Rightarrow> ('w, unit) io) \<Rightarrow> byte list \<Rightarrow> ('w rc_state, RawMessage option) io" where
  "readMessage3_continue onAckNeeded body = (\<lambda>(rc, r, w).
     case curBodyLen rc of
       None \<Rightarrow> (Inl Panic, (rc, r, w))
     | Some bodyLen \<Rightarrow>
         (case readChunk onAckNeeded
                 (Chunk3_Read bufio_Read (chunk_len (bodyLen - of_nat (length body)) r)) (r, w) of
            (Inl e, (r, w)) \<Rightarrow> (Inl e, (rc, r, w))
          | (Inr c, (r, w)) \<Rightarrow>
              (let body' = body @ c3_Body c in
               if bodyLen \<noteq> of_nat (length body')
               then (Inr None, (rc\<lparr>curBody := Some body'\<rparr>, r, w))
               else bindIO (liftIO (deref (curTimestamp rc))) (\<lambda>ts.
                      bindIO (liftIO (deref (curType rc))) (\<lambda>typ.
                        bindIO (liftIO (deref (curMessageStreamID rc)))
                          (\<lambda>msid. finish_message ts typ msid body')))
                      (rc\<lparr>curBody := None\<rparr>, r, w))))"

text \<open>Type 3, the first chunk of a message that repeats the previous header and delta.\<close>

definition readMessage3_repeat ::
  "(u32 \<Rightarrow> ('w, unit) io) \<Rightarrow> u32 \<Rightarrow> ('w rc_state, RawMessage option) io" where
  "readMessage3_repeat onAckNeeded delta = (\<lambda>(rc, r, w).
     case curBodyLen rc of
       None \<Rightarrow> (Inl Panic, (rc, r, w))
     | Some bodyLen \<Rightarrow>
         (case readChunk onAckNeeded (Chunk3_Read bufio_Read (chunk_len bodyLen r)) (r, w) of
            (Inl e, (r, w)) \<Rightarrow> (Inl e, (rc, r, w))
          | (Inr c, (r, w)) \<Rightarrow>
              (case curTimestamp rc of
                 None \<Rightarrow> (Inl Panic, (rc, r, w))
               | Some ts \<Rightarrow>
                   (let ts' = ts + delta; rc = rc\<lparr>curTimestamp := Some ts'\<rparr> in
                    if bodyLen \<noteq> of_nat (length (c3_Body c))
                    then (Inr None, (rc\<lparr>curBody := Some (c3_Body c)\<rparr>, r, w))
                    else bindIO (liftIO (deref (curType rc))) (\<lambda>typ.
                           bindIO (liftIO (deref (curMessageStreamID rc)))
                             (\<lambda>msid. finish_message ts' typ msid (c3_Body c))) (rc, r, w)))))"

definition readMessage3 :: "(u32 \<Rightarrow> ('w, unit) io) \<Rightarrow> ('w rc_state, RawMessage option) io" where
  "readMessage3 onAckNeeded = (\<lambda>(rc, r, w).
     case curBody rc of
       Some body \<Rightarrow> readMessage3_continue onAckNeeded body (rc, r, w)
     | None \<Rightarrow>
         (case curTimestampDelta rc of
            None \<Rightarrow> (Inl (Err ''received type 3 chunk without previous chunk''), (rc, r, w))
          | Some delta \<Rightarrow> readMessage3_repeat onAckNeeded delta (rc, r, w)))"

definition readMessage ::
  "(u32 \<Rightarrow> ('w, unit) io) \<Rightarrow> byte \<Rightarrow> ('w rc_state, RawMessage option) io" where
  "readMessage onAckNeeded typ =
     (if typ = 0 then readMessage0 onAckNeeded
      else if typ = 1 then readMessage1 onAckNeeded
      else if typ = 2 then readMessage2 onAckNeeded
      else readMessage3 onAckNeeded)"

section \<open>Consumption of the stream\<close>

definition rr_pending :: "RawReader \<Rightarrow> byte list" where
  "rr_pending r = br_pending (rr_br r)"

lemma rr_pending_simps [simp]:
  "rr_pending (r\<lparr>rr_chunkSize := v\<rparr>) = rr_pending r"
  "rr_pending (r\<lparr>rr_ackWindowSize := v\<rparr>) = rr_pending r"
  "rr_pending (r\<lparr>rr_lastAckCount := v\<rparr>) = rr_pending r"
  "rr_pending (r\<lparr>rr_msg := m\<rparr>) = rr_pending r"
  "rr_pending (r\<lparr>rr_chunkStreams := cs\<rparr>) = rr_pending r"
  "rr_pending (r\<lparr>rr_br := b\<rparr>) = br_pending b"
  by (simp_all add: rr_pending_def)

text \<open>
  What a chunk read does to the reader: the buffered stream moves on as the chunk's \<open>Read\<close> says, and
  only the acknowledge count may change besides.
\<close>

lemma readChunk_InrD:
  assumes "readChunk onAck rd (r, w) = (Inr c, (r', w'))"
  shows "\<exists>b. rd (rr_br r) = (Inr c, b) \<and> rr_br r' = b \<and> rr_chunkSize r' = rr_chunkSize r \<and>
     rr_chunkStreams r' = rr_chunkStreams r \<and> rr_msg r' = rr_msg r \<and>
     rr_ackWindowSize r' = rr_ackWindowSize r"
  using assms
  by (auto simp: readChunk_def Let_def split: prod.splits sum.splits if_splits)

lemma readChunk_pending_less:
  assumes "\<And>b c b'. rd b = (Inr c, b') \<Longrightarrow> length (br_pending b') < length (br_pending b)"
    and "readChunk onAck rd (r, w) = (Inr c, (r', w'))"
  shows "length (rr_pending r') < length (rr_pending r)"
  using readChunk_InrD [OF assms(2)] assms(1) by (auto simp: rr_pending_def)

lemma chunk_consumes:
  "readChunk onAck (Chunk0_Read bufio_Read n) (r, w) = (Inr d0, (r', w')) \<Longrightarrow>
   length (rr_pending r') < length (rr_pending r)"
  "readChunk onAck (Chunk1_Read bufio_Read n) (r, w) = (Inr d1, (r', w')) \<Longrightarrow>
   length (rr_pending r') < length (rr_pending r)"
  "readChunk onAck (Chunk2_Read bufio_Read n) (r, w) = (Inr d2, (r', w')) \<Longrightarrow>
   length (rr_pending r') < length (rr_pending r)"
  "readChunk onAck (Chunk3_Read bufio_Read n) (r, w) = (Inr d3, (r', w')) \<Longrightarrow>
   length (rr_pending r') < length (rr_pending r)"
  by (rule readChunk_pending_less, erule bufio.c0.read_consumes, assumption)
     (rule readChunk_pending_less, erule bufio.c1.read_consumes, assumption,
      rule readChunk_pending_less, erule bufio.c2.read_consumes, assumption,
      rule readChunk_pending_less, erule bufio.c3.read_consumes, assumption)

lemmas readMessage_defs =
  readMessage0_def readMessage1_def readMessage2_def readMessage3_def readMessage3_continue_def
  readMessage3_repeat_def finish_message_def bindIO_def liftIO_def deref_def Let_def

lemmas readMessage_splits = prod.splits sum.splits if_splits option.splits

lemma readMessage0_consumes:
  "readMessage0 onAck (rc, r, w) = (Inr m, (rc', r', w')) \<Longrightarrow>
   length (rr_pending r') < length (rr_pending r)"
  by (auto simp: readMessage_defs dest: chunk_consumes split: readMessage_splits)

lemma readMessage1_consumes:
  "readMessage1 onAck (rc, r, w) = (Inr m, (rc', r', w')) \<Longrightarrow>
   length (rr_pending r') < length (rr_pending r)"
  by (auto simp: readMessage_defs dest: chunk_consumes split: readMessage_splits)

lemma readMessage2_consumes:
  "readMessage2 onAck (rc, r, w) = (Inr m, (rc', r', w')) \<Longrightarrow>
   length (rr_pending r') < length (rr_pending r)"
  by (auto simp: readMessage_defs dest: chunk_consumes split: readMessage_splits)

lemma readMessage3_consumes:
  "readMessage3 onAck (rc, r, w) = (Inr m, (rc', r', w')) \<Longrightarrow>
   length (rr_pending r') < length (rr_pending r)"
  by (auto simp: readMessage_defs dest: chunk_consumes split: readMessage_splits)

lemma readMessage_consumes:
  assumes "readMessage onAck typ (rc, r, w) = (Inr m, (rc', r', w'))"
  shows "length (rr_pending r') < length (rr_pending r)"
  using assms readMessage0_consumes readMessage1_consumes readMessage2_consumes readMessage3_consumes
  by (auto simp: readMessage_def split: if_splits)

lemma ReadByte_pending:
  assumes "bufio_ReadByte b = (Inr byt, b1)"
  shows "br_pending (snd (bufio_UnreadByte b1)) = br_pending b"
proof (cases "br_pending b")
  case Nil
  with bufio_ReadByte_eof [OF Nil] assms show ?thesis by auto
next
  case (Cons c cs)
  with bufio_peek [OF Cons] assms show ?thesis by auto
qed

section \<open>Read\<close>

text \<open>
  \<open>Read\<close> loops until a message is complete.  Every round takes at least one byte off the stream,
  which bounds the loop.
\<close>

function RawReader_Read :: "(u32 \<Rightarrow> ('w, unit) io) \<Rightarrow> (RawReader \<times> 'w, RawMessage) io" where
  "RawReader_Read onAckNeeded (r, w) =
     (case bufio_ReadByte (rr_br r) of
        (Inl e, b) \<Rightarrow> (Inl e, (r\<lparr>rr_br := b\<rparr>, w))
      | (Inr byt, b) \<Rightarrow>
          (let typ = drop_bit 6 byt;
               chunkStreamID = byt AND 0x3F;
               rc = (case rr_chunkStreams r chunkStreamID of
                       None \<Rightarrow> new_readerChunkStream | Some rc \<Rightarrow> rc)
           in case readMessage onAckNeeded typ (rc, r\<lparr>rr_br := snd (bufio_UnreadByte b)\<rparr>, w) of
                (Inl e, (rc, r, w)) \<Rightarrow>
                  (Inl e, (r\<lparr>rr_chunkStreams := (rr_chunkStreams r)(chunkStreamID \<mapsto> rc)\<rparr>, w))
              | (Inr None, (rc, r, w)) \<Rightarrow>
                  RawReader_Read onAckNeeded
                    (r\<lparr>rr_chunkStreams := (rr_chunkStreams r)(chunkStreamID \<mapsto> rc)\<rparr>, w)
              | (Inr (Some m), (rc, r, w)) \<Rightarrow>
                  (let m = m\<lparr>m_ChunkStreamID := chunkStreamID\<rparr>
                   in (Inr m, (r\<lparr>rr_msg := m,
                                 rr_chunkStreams := (rr_chunkStreams r)(chunkStreamID \<mapsto> rc)\<rparr>, w)))))"
  by pat_completeness auto
termination
proof (relation "measure (\<lambda>(onAck, r, w). length (rr_pending r))", goal_cases)
  case 1
  show ?case by simp
next
  case 2
  then show ?case by (auto dest!: readMessage_consumes [OF sym] ReadByte_pending [OF sym] simp: rr_pending_def)
qed

declare RawReader_Read.simps [simp del]

section \<open>Invariant and absence of panics\<close>

text \<open>
  A chunk stream is either fresh, or has seen a complete header: the pointers are set, the body
  length fits in 24 bits, and a body under way is shorter than the length it is to reach.
\<close>

definition rcs_ok :: "readerChunkStream \<Rightarrow> bool" where
  "rcs_ok rc =
     (case curTimestamp rc of
        None \<Rightarrow> rc = new_readerChunkStream
      | Some _ \<Rightarrow>
          curType rc \<noteq> None \<and> curMessageStreamID rc \<noteq> None \<and>
          (case curBodyLen rc of
             None \<Rightarrow> False
           | Some n \<Rightarrow>
               unat n < 2 ^ 24 \<and>
               (case curBody rc of None \<Rightarrow> True | Some b \<Rightarrow> length b < unat n)))"

definition rr_ok :: "RawReader \<Rightarrow> bool" where
  "rr_ok r \<longleftrightarrow> (\<forall>i rc. rr_chunkStreams r i = Some rc \<longrightarrow> rcs_ok rc)"

lemma rcs_ok_new [simp]: "rcs_ok new_readerChunkStream"
  by (simp add: rcs_ok_def new_readerChunkStream_def)

lemma rr_ok_New [simp]: "rr_ok (RawReader_New r)"
  by (simp add: rr_ok_def RawReader_New_def)

lemma rr_ok_Set [simp]:
  "rr_ok (RawReader_SetChunkSize v r) = rr_ok r" "rr_ok (RawReader_SetWindowAckSize v r) = rr_ok r"
  by (simp_all add: rr_ok_def RawReader_SetChunkSize_def RawReader_SetWindowAckSize_def)

lemma readChunk_frame:
  assumes "readChunk onAck rd (r, w) = (res, (r', w'))"
  shows "rr_chunkStreams r' = rr_chunkStreams r \<and> rr_chunkSize r' = rr_chunkSize r"
  using assms by (auto simp: readChunk_def Let_def split: prod.splits sum.splits if_splits)

lemma readChunk_no_panic:
  assumes "\<And>b e b'. rd b = (Inl e, b') \<Longrightarrow> e = EOF \<or> e = UnexpectedEOF"
    and "\<And>v w e w'. onAck v w = (Inl e, w') \<Longrightarrow> e \<noteq> Panic"
    and "readChunk onAck rd (r, w) = (Inl e, s)"
  shows "e \<noteq> Panic"
  using assms(3)
  by (auto simp: readChunk_def Let_def split: prod.splits sum.splits if_splits
      dest: assms(1,2))

text \<open>A complete chunk read gives a well-formed chunk.\<close>

lemma chunk_read_wf:
  "readChunk onAck (Chunk0_Read bufio_Read n) (r, w) = (Inr d0, s) \<Longrightarrow> Chunk0_wf n d0"
  "readChunk onAck (Chunk1_Read bufio_Read n) (r, w) = (Inr d1, s) \<Longrightarrow> Chunk1_wf n d1"
  "readChunk onAck (Chunk2_Read bufio_Read n) (r, w) = (Inr d2, s) \<Longrightarrow> Chunk2_wf n d2"
  "readChunk onAck (Chunk3_Read bufio_Read n) (r, w) = (Inr d3, s) \<Longrightarrow> Chunk3_wf n d3"
  by (cases s; auto dest!: readChunk_InrD bufio.c0.read_wf bufio.c1.read_wf bufio.c2.read_wf
      bufio.c3.read_wf)+

lemma unat_of_nat_u32: "n < 2 ^ 32 \<Longrightarrow> unat (of_nat n :: u32) = n"
  by (simp add: unat_of_nat)

lemma len_neq_less:
  "length b \<le> unat (n :: u32) \<Longrightarrow> n \<noteq> of_nat (length b) \<Longrightarrow> length b < unat n"
  by (metis le_neq_implies_less of_nat_unat ucast_id)

lemma unat_chunk_len: "unat (chunk_len n r) = min (unat n) (unat (rr_chunkSize r))"
  by (simp add: chunk_len_def word_less_nat_alt)

lemma unat_sub_len:
  "length b < unat (n :: u32) \<Longrightarrow> unat (n - of_nat (length b)) = unat n - length b"
proof -
  assume l: "length b < unat n"
  have "unat n < 2 ^ 32" using unsigned_less [of n] by simp
  then have "unat (of_nat (length b) :: u32) = length b" using l by (intro unat_of_nat_u32) simp
  with l show ?thesis by (simp add: unat_sub word_le_nat_alt)
qed

text \<open>The reads of the five branches keep the invariant of the chunk stream.\<close>

lemma readMessage0_ok:
  assumes "rcs_ok rc" "readMessage0 onAck (rc, r, w) = (res, (rc', r', w'))"
  shows "rcs_ok rc'"
  using assms
  by (auto simp: readMessage_defs rcs_ok_def Chunk0_wf_def min_def
      dest!: chunk_read_wf intro: len_neq_less split: readMessage_splits)

lemma readMessage1_ok:
  assumes "rcs_ok rc" "readMessage1 onAck (rc, r, w) = (res, (rc', r', w'))"
  shows "rcs_ok rc'"
  using assms
  by (auto simp: readMessage_defs rcs_ok_def Chunk1_wf_def
      dest!: chunk_read_wf intro: len_neq_less split: readMessage_splits)

lemma readMessage2_ok:
  assumes "rcs_ok rc" "readMessage2 onAck (rc, r, w) = (res, (rc', r', w'))"
  shows "rcs_ok rc'"
  using assms
  by (auto simp: readMessage_defs rcs_ok_def Chunk2_wf_def unat_chunk_len
      dest!: chunk_read_wf intro: len_neq_less split: readMessage_splits)

lemma rcs_ok_SomeE:
  assumes "rcs_ok rc" and "rc \<noteq> new_readerChunkStream"
  obtains ts t msid n where "curTimestamp rc = Some ts" "curType rc = Some t"
    "curMessageStreamID rc = Some msid" "curBodyLen rc = Some n" "unat n < 2 ^ 24"
    "\<And>b. curBody rc = Some b \<Longrightarrow> length b < unat n"
  using assms by (auto simp: rcs_ok_def split: option.splits)

lemma readMessage3_continue_ok:
  assumes ok: "rcs_ok rc" and body: "curBody rc = Some body"
    and read: "readMessage3_continue onAck body (rc, r, w) = (res, (rc', r', w'))"
  shows "rcs_ok rc'"
proof -
  have "rc \<noteq> new_readerChunkStream" using body by (auto simp: new_readerChunkStream_def)
  with ok obtain ts t msid n where rc: "curTimestamp rc = Some ts" "curType rc = Some t"
      "curMessageStreamID rc = Some msid" "curBodyLen rc = Some n" "unat n < 2 ^ 24"
      "length body < unat n"
    using body by (auto elim!: rcs_ok_SomeE)
  let ?rd = "readChunk onAck (Chunk3_Read bufio_Read (chunk_len (n - of_nat (length body)) r)) (r, w)"
  obtain x r1 w1 where rd: "?rd = (x, (r1, w1))" by (cases ?rd) auto
  show ?thesis
  proof (cases x)
    case (Inl e)
    with read rd rc ok show ?thesis by (simp add: readMessage3_continue_def)
  next
    case (Inr c)
    have len: "length (body @ c3_Body c) \<le> unat n"
      using chunk_read_wf(4) [of onAck _ r w c] rd Inr rc
      by (simp add: Chunk3_wf_def unat_chunk_len unat_sub_len)
    show ?thesis
    proof (cases "n = of_nat (length (body @ c3_Body c))")
      case True
      then have "rc' = rc\<lparr>curBody := None\<rparr>"
        using read rd Inr rc by (simp add: readMessage3_continue_def Let_def io_simps finish_message_def)
      with rc show ?thesis by (simp add: rcs_ok_def)
    next
      case False
      then have "rc' = rc\<lparr>curBody := Some (body @ c3_Body c)\<rparr>"
        using read rd Inr rc by (simp add: readMessage3_continue_def Let_def)
      with rc len_neq_less [OF len False] show ?thesis by (simp add: rcs_ok_def)
    qed
  qed
qed

lemma readMessage3_repeat_ok:
  assumes "rcs_ok rc" "curBody rc = None"
    "readMessage3_repeat onAck delta (rc, r, w) = (res, (rc', r', w'))"
  shows "rcs_ok rc'"
  using assms
  by (auto simp: readMessage_defs rcs_ok_def Chunk3_wf_def unat_chunk_len
      dest!: chunk_read_wf intro!: len_neq_less split: readMessage_splits)

lemma readMessage_ok:
  assumes ok: "rcs_ok rc" and read: "readMessage onAck t (rc, r, w) = (res, (rc', r', w'))"
  shows "rcs_ok rc'"
proof -
  have "rcs_ok rc'" if "readMessage3 onAck (rc, r, w) = (res, (rc', r', w'))"
    using that ok
    by (auto simp: readMessage3_def split: option.splits
        dest: readMessage3_continue_ok [OF ok] readMessage3_repeat_ok [OF ok])
  with read show ?thesis
    by (auto simp: readMessage_def split: if_splits
        dest: readMessage0_ok [OF ok] readMessage1_ok [OF ok] readMessage2_ok [OF ok])
qed

lemma readMessage_frame:
  assumes "readMessage onAck t (rc, r, w) = (res, (rc', r', w'))"
  shows "rr_chunkStreams r' = rr_chunkStreams r"
  using assms
  by (auto simp: readMessage_def readMessage_defs split: readMessage_splits dest!: readChunk_frame)

text \<open>An acknowledge callback that does not panic itself.\<close>

definition no_panic :: "(u32 \<Rightarrow> ('w, unit) io) \<Rightarrow> bool" where
  "no_panic onAck \<longleftrightarrow> (\<forall>v w. fst (onAck v w) \<noteq> Inl Panic)"

lemma no_panicD: "no_panic onAck \<Longrightarrow> onAck v w = (Inl e, w') \<Longrightarrow> e \<noteq> Panic"
  by (auto simp: no_panic_def) (metis fst_conv)

lemma chunk_no_panic:
  assumes "no_panic onAck"
  shows "readChunk onAck (Chunk0_Read bufio_Read n) (r, w) = (Inl e, s) \<Longrightarrow> e \<noteq> Panic"
    and "readChunk onAck (Chunk1_Read bufio_Read n) (r, w) = (Inl e, s) \<Longrightarrow> e \<noteq> Panic"
    and "readChunk onAck (Chunk2_Read bufio_Read n) (r, w) = (Inl e, s) \<Longrightarrow> e \<noteq> Panic"
    and "readChunk onAck (Chunk3_Read bufio_Read n) (r, w) = (Inl e, s) \<Longrightarrow> e \<noteq> Panic"
  by (erule readChunk_no_panic [rotated 2];
      blast dest: bufio.c0.read_error bufio.c1.read_error bufio.c2.read_error bufio.c3.read_error
        no_panicD [OF assms])+

lemma readMessage_no_panic:
  assumes np: "no_panic onAck" and ok: "rcs_ok rc"
    and read: "readMessage onAck t (rc, r, w) = (Inl e, s)"
  shows "e \<noteq> Panic"
proof -
  have "e \<noteq> Panic" if "readMessage0 onAck (rc, r, w) = (Inl e, s)"
    using that by (auto simp: readMessage_defs split: readMessage_splits dest: chunk_no_panic [OF np])
  moreover have "e \<noteq> Panic" if "readMessage1 onAck (rc, r, w) = (Inl e, s)"
    using that ok
    by (auto simp: readMessage_defs rcs_ok_def split: readMessage_splits dest: chunk_no_panic [OF np])
  moreover have "e \<noteq> Panic" if "readMessage2 onAck (rc, r, w) = (Inl e, s)"
    using that ok
    by (auto simp: readMessage_defs rcs_ok_def split: readMessage_splits dest: chunk_no_panic [OF np])
  moreover have "e \<noteq> Panic" if "readMessage3 onAck (rc, r, w) = (Inl e, s)"
    using that ok
    by (auto simp: readMessage_defs rcs_ok_def new_readerChunkStream_def split: readMessage_splits
        dest: chunk_no_panic [OF np])
  ultimately show ?thesis using read by (auto simp: readMessage_def split: if_splits)
qed

lemma bufio_ReadByte_error: "bufio_ReadByte b = (Inl e, b') \<Longrightarrow> e = EOF"
  using bufio_ReadByte_eof [of b] bufio_ReadByte_some [of b]
  by (cases "br_pending b") auto

text \<open>One round of \<open>Read\<close>: what follows the read of a chunk on the chunk stream \<open>i\<close>.\<close>

definition after_round ::
  "(u32 \<Rightarrow> ('w, unit) io) \<Rightarrow> byte \<Rightarrow> RawMessage option result \<times> 'w rc_state \<Rightarrow>
   RawMessage result \<times> RawReader \<times> 'w" where
  "after_round onAck i = (\<lambda>(y, (rc1, r1, w1)).
     let r2 = r1\<lparr>rr_chunkStreams := (rr_chunkStreams r1)(i \<mapsto> rc1)\<rparr> in
     case y of
       Inl e \<Rightarrow> (Inl e, (r2, w1))
     | Inr None \<Rightarrow> RawReader_Read onAck (r2, w1)
     | Inr (Some m) \<Rightarrow>
         (Inr (m\<lparr>m_ChunkStreamID := i\<rparr>), (r2\<lparr>rr_msg := m\<lparr>m_ChunkStreamID := i\<rparr>\<rparr>, w1)))"

lemma RawReader_Read_round:
  assumes "bufio_ReadByte (rr_br r) = (Inr byt, b)"
    and "rc = (case rr_chunkStreams r (byt AND 0x3F) of None \<Rightarrow> new_readerChunkStream | Some rc \<Rightarrow> rc)"
  shows "RawReader_Read onAck (r, w) =
    after_round onAck (byt AND 0x3F)
      (readMessage onAck (drop_bit 6 byt) (rc, r\<lparr>rr_br := snd (bufio_UnreadByte b)\<rparr>, w))"
  using assms
  by (simp add: RawReader_Read.simps [of onAck r w] after_round_def Let_def
      split: prod.splits sum.splits option.splits)

lemma RawReader_Read_safe:
  assumes np: "no_panic onAck"
  shows "rr_ok r \<Longrightarrow> RawReader_Read onAck (r, w) = (res, (r', w')) \<Longrightarrow>
    rr_ok r' \<and> res \<noteq> Inl Panic"
proof (induction "length (rr_pending r)" arbitrary: r w rule: less_induct)
  case less
  obtain x b where rb: "bufio_ReadByte (rr_br r) = (x, b)" by (cases "bufio_ReadByte (rr_br r)")
  show ?case
  proof (cases x)
    case (Inl e)
    with less.prems rb bufio_ReadByte_error [of "rr_br r" e b] show ?thesis
      by (auto simp: RawReader_Read.simps [of onAck r w] rr_ok_def)
  next
    case (Inr byt)
    define rc where "rc = (case rr_chunkStreams r (byt AND 0x3F) of
      None \<Rightarrow> new_readerChunkStream | Some rc \<Rightarrow> rc)"
    let ?r0 = "r\<lparr>rr_br := snd (bufio_UnreadByte b)\<rparr>"
    obtain y rc1 r1 w1 where rm: "readMessage onAck (drop_bit 6 byt) (rc, ?r0, w) = (y, (rc1, r1, w1))"
      by (cases "readMessage onAck (drop_bit 6 byt) (rc, ?r0, w)") auto
    note round = RawReader_Read_round [OF rb [unfolded Inr] rc_def, of onAck w, unfolded rm after_round_def]
    have rc: "rcs_ok rc" using less.prems(1) by (auto simp: rc_def rr_ok_def split: option.splits)
    define r2 where "r2 = r1\<lparr>rr_chunkStreams := (rr_chunkStreams r1)(byt AND 0x3F \<mapsto> rc1)\<rparr>"
    have r2: "rr_ok r2"
      using readMessage_frame [OF rm] readMessage_ok [OF rc rm] less.prems(1)
      by (auto simp: rr_ok_def r2_def)
    consider (err) e where "y = Inl e" | (more) "y = Inr None" | (got) m where "y = Inr (Some m)"
      by (cases y) auto
    then show ?thesis
    proof cases
      case err
      with round less.prems(2) r2 readMessage_no_panic [OF np rc rm [unfolded err]] show ?thesis
        by (auto simp: r2_def Let_def)
    next
      case more
      have "length (rr_pending r2) < length (rr_pending r)"
        using readMessage_consumes [OF rm [unfolded more]] ReadByte_pending [OF rb [unfolded Inr]]
        by (simp add: r2_def rr_pending_def)
      from less.hyps [OF this r2] round less.prems(2) more show ?thesis
        by (simp add: r2_def Let_def)
    next
      case got
      with round less.prems(2) r2 show ?thesis
        by (auto simp: r2_def Let_def rr_ok_def)
    qed
  qed
qed

end
