(* ===== verification/RawWriter.thy ===== *)
theory RawWriter
  imports RawReader
begin

text \<open>
  The raw message writer of \<open>internal/rtmp/rawmessage/writer.go\<close>: it splits a message into chunks of
  at most the chunk size and abbreviates the header of the first chunk as far as the previous
  message of the same chunk stream allows.
\<close>

section \<open>State\<close>

record writerChunkStream =
  lastMessageStreamID :: "u32 option"
  lastType :: "u8 option"
  lastBodyLen :: "u32 option"
  lastTimestamp :: "duration option"
  lastTimestampDelta :: "duration option"

record RawWriter =
  rw_bw :: bufio_writer
  rw_checkAcknowledge :: bool
  rw_chunkSize :: u32
  rw_ackWindowSize :: u32
  rw_ackValue :: u32
  rw_chunkStreams :: "byte \<rightharpoonup> writerChunkStream"

definition new_writerChunkStream :: writerChunkStream where
  "new_writerChunkStream =
     \<lparr>lastMessageStreamID = None, lastType = None, lastBodyLen = None, lastTimestamp = None,
      lastTimestampDelta = None\<rparr>"

definition RawWriter_New :: "bc_writer \<Rightarrow> bool \<Rightarrow> RawWriter" where
  "RawWriter_New w checkAcknowledge =
     \<lparr>rw_bw = bufio_NewWriter w, rw_checkAcknowledge = checkAcknowledge, rw_chunkSize = 128,
      rw_ackWindowSize = 0, rw_ackValue = 0, rw_chunkStreams = Map.empty\<rparr>"

definition RawWriter_SetChunkSize :: "u32 \<Rightarrow> RawWriter \<Rightarrow> RawWriter" where
  "RawWriter_SetChunkSize v w = w\<lparr>rw_chunkSize := v\<rparr>"

definition RawWriter_SetWindowAckSize :: "u32 \<Rightarrow> RawWriter \<Rightarrow> RawWriter" where
  "RawWriter_SetWindowAckSize v w = w\<lparr>rw_ackWindowSize := v\<rparr>"

definition RawWriter_SetAcknowledgeValue :: "u32 \<Rightarrow> RawWriter \<Rightarrow> RawWriter" where
  "RawWriter_SetAcknowledgeValue v w = w\<lparr>rw_ackValue := v\<rparr>"

section \<open>Writing a chunk\<close>

text \<open>The values that the interface type \<open>chunk.Chunk\<close> takes.\<close>

datatype chunk = K0 Chunk0 | K1 Chunk1 | K2 Chunk2 | K3 Chunk3

fun chunk_Marshal :: "chunk \<Rightarrow> byte list" where
  "chunk_Marshal (K0 c) = Chunk0_Marshal c"
| "chunk_Marshal (K1 c) = Chunk1_Marshal c"
| "chunk_Marshal (K2 c) = Chunk2_Marshal c"
| "chunk_Marshal (K3 c) = Chunk3_Marshal c"

definition writeChunk :: "chunk \<Rightarrow> (RawWriter, unit) io" where
  "writeChunk c w =
     (if rw_checkAcknowledge w \<and> rw_ackWindowSize w \<noteq> 0 \<and>
         ucast (bc_w_Count (bw_wr (rw_bw w))) - rw_ackValue w > rw_ackWindowSize w * 3 div 2
      then (Inl (Err ''no acknowledge received within window''), w)
      else case bufio_Write (chunk_Marshal c) (rw_bw w) of (r, b) \<Rightarrow> (r, w\<lparr>rw_bw := b\<rparr>))"

section \<open>Writing a message\<close>

text \<open>The timestamp relative to the previous message, used only if it is not negative.\<close>

definition timestamp_delta :: "writerChunkStream \<Rightarrow> RawMessage \<Rightarrow> duration option" where
  "timestamp_delta wc msg =
     (case lastTimestamp wc of
        None \<Rightarrow> None
      | Some t \<Rightarrow>
          (let diff = wrap64 (m_Timestamp msg - t) in if diff \<ge> 0 then Some diff else None))"

text \<open>The choice of the first chunk.\<close>

definition first_chunk ::
  "writerChunkStream \<Rightarrow> RawMessage \<Rightarrow> duration option \<Rightarrow> u32 \<Rightarrow> byte list \<Rightarrow> chunk result" where
  "first_chunk wc msg timestampDelta bodyLen part =
     (let c0 = K0 \<lparr>c0_ChunkStreamID = m_ChunkStreamID msg, c0_Timestamp = to_ms (m_Timestamp msg),
                   c0_Type = m_Type msg, c0_MessageStreamID = m_MessageStreamID msg,
                   c0_BodyLen = bodyLen, c0_Body = part\<rparr>
      in case (lastMessageStreamID wc, timestampDelta) of
           (Some msid, Some delta) \<Rightarrow>
             if msid \<noteq> m_MessageStreamID msg then Inr c0
             else (case (case lastType wc of
                           None \<Rightarrow> Inl Panic
                         | Some t \<Rightarrow>
                             if t \<noteq> m_Type msg then Inr True
                             else (case lastBodyLen wc of
                                     None \<Rightarrow> Inl Panic
                                   | Some bl \<Rightarrow> Inr (bl \<noteq> bodyLen))) of
                     Inl e \<Rightarrow> Inl e
                   | Inr True \<Rightarrow>
                       Inr (K1 \<lparr>c1_ChunkStreamID = m_ChunkStreamID msg,
                                c1_TimestampDelta = to_ms delta, c1_Type = m_Type msg,
                                c1_BodyLen = bodyLen, c1_Body = part\<rparr>)
                   | Inr False \<Rightarrow>
                       if lastTimestampDelta wc \<noteq> Some delta
                       then Inr (K2 \<lparr>c2_ChunkStreamID = m_ChunkStreamID msg,
                                     c2_TimestampDelta = to_ms delta, c2_Body = part\<rparr>)
                       else Inr (K3 \<lparr>c3_ChunkStreamID = m_ChunkStreamID msg, c3_Body = part\<rparr>))
         | _ \<Rightarrow> Inr c0)"

definition remember ::
  "RawMessage \<Rightarrow> duration option \<Rightarrow> u32 \<Rightarrow> writerChunkStream \<Rightarrow> writerChunkStream" where
  "remember msg timestampDelta bodyLen wc =
     wc\<lparr>lastMessageStreamID := Some (m_MessageStreamID msg), lastType := Some (m_Type msg),
        lastBodyLen := Some bodyLen, lastTimestamp := Some (m_Timestamp msg),
        lastTimestampDelta := (case timestampDelta of None \<Rightarrow> lastTimestampDelta wc | Some d \<Rightarrow> Some d)\<rparr>"

text \<open>
  The loop over the chunks of a message.  With a positive chunk size every round but the last moves
  the position on, so one round per byte and one more is enough (\<open>writeMessage_fuel\<close>); with a
  chunk size of 0 and a non-empty body the loop of the source does not end, which the exhausted
  fuel stands for (\<open>writeMessage_diverges\<close> in theory \<open>RawStream\<close>).
\<close>

fun writeMessage_loop ::
  "nat \<Rightarrow> RawMessage \<Rightarrow> duration option \<Rightarrow> bool \<Rightarrow> u32 \<Rightarrow> (writerChunkStream \<times> RawWriter, unit) io" where
  "writeMessage_loop 0 msg timestampDelta firstChunk pos s = (Inl NoProgress, s)"
| "writeMessage_loop (Suc fuel) msg timestampDelta firstChunk pos (wc, w) =
     (let bodyLen = of_nat (length (m_Body msg)) :: u32;
          chunkBodyLen = (if bodyLen - pos > rw_chunkSize w then rw_chunkSize w else bodyLen - pos);
          part = subslice (m_Body msg) (unat pos) (unat (pos + chunkBodyLen));
          c = (if firstChunk then first_chunk wc msg timestampDelta bodyLen part
               else Inr (K3 \<lparr>c3_ChunkStreamID = m_ChunkStreamID msg, c3_Body = part\<rparr>))
      in case c of
           Inl e \<Rightarrow> (Inl e, (wc, w))
         | Inr c \<Rightarrow>
             (case writeChunk c w of
                (Inl e, w) \<Rightarrow> (Inl e, (wc, w))
              | (Inr _, w) \<Rightarrow>
                  (let wc = (if firstChunk then remember msg timestampDelta bodyLen wc else wc);
                       pos = pos + chunkBodyLen
                   in if bodyLen - pos = 0
                      then (case bufio_Flush (rw_bw w) of (r, b) \<Rightarrow> (r, (wc, w\<lparr>rw_bw := b\<rparr>)))
                      else writeMessage_loop fuel msg timestampDelta False pos (wc, w))))"

definition writeMessage :: "RawMessage \<Rightarrow> (writerChunkStream \<times> RawWriter, unit) io" where
  "writeMessage msg = (\<lambda>(wc, w).
     writeMessage_loop (Suc (length (m_Body msg))) msg (timestamp_delta wc msg) True 0 (wc, w))"

definition RawWriter_Write :: "RawMessage \<Rightarrow> (RawWriter, unit) io" where
  "RawWriter_Write msg w =
     (let wc = (case rw_chunkStreams w (m_ChunkStreamID msg) of
                  None \<Rightarrow> new_writerChunkStream | Some wc \<Rightarrow> wc)
      in case writeMessage msg (wc, w) of
           (r, (wc, w)) \<Rightarrow>
             (r, w\<lparr>rw_chunkStreams := (rw_chunkStreams w)(m_ChunkStreamID msg \<mapsto> wc)\<rparr>))"

section \<open>The bytes that a message becomes\<close>

text \<open>The parts of at most \<open>n\<close> bytes that a body is cut into.\<close>

function pieces :: "nat \<Rightarrow> 'a list \<Rightarrow> 'a list list" where
  "pieces n xs = (if n = 0 \<or> xs = [] then [] else take n xs # pieces n (drop n xs))"
  by pat_completeness auto
termination
  by (relation "measure (\<lambda>(n, xs). length xs)") auto

declare pieces.simps [simp del]

lemma pieces_Nil [simp]: "pieces n [] = []"
  by (simp add: pieces.simps)

lemma pieces_unfold: "0 < n \<Longrightarrow> xs \<noteq> [] \<Longrightarrow> pieces n xs = take n xs # pieces n (drop n xs)"
  by (simp add: pieces.simps [of n xs])

lemma concat_pieces: "0 < n \<Longrightarrow> concat (pieces n xs) = xs"
  by (induction n xs rule: pieces.induct) (simp add: pieces.simps)

definition marshal3 :: "byte \<Rightarrow> byte list \<Rightarrow> byte list" where
  "marshal3 i p = Chunk3_Marshal \<lparr>c3_ChunkStreamID = i, c3_Body = p\<rparr>"

text \<open>
  The writer below takes what it is given, and no acknowledge is waited for: the check is off, or the
  peer has not asked for a window yet.
\<close>

definition rw_ready :: "RawWriter \<Rightarrow> bool" where
  "rw_ready w \<longleftrightarrow>
     bw_healthy (rw_bw w) \<and> (rw_checkAcknowledge w \<longrightarrow> rw_ackWindowSize w = 0) \<and>
     0 < unat (rw_chunkSize w)"

lemma writeChunk_ready:
  assumes "rw_ready w"
  shows "\<exists>b. writeChunk c w = (Inr (), w\<lparr>rw_bw := b\<rparr>) \<and> rw_ready (w\<lparr>rw_bw := b\<rparr>) \<and>
    bw_stream b = bw_stream (rw_bw w) @ chunk_Marshal c"
proof -
  from bufio.write_ok [of "rw_bw w" "chunk_Marshal c"] assms obtain b where
    "bufio_Write (chunk_Marshal c) (rw_bw w) = (Inr (), b)" "bw_healthy b"
    "bw_stream b = bw_stream (rw_bw w) @ chunk_Marshal c"
    by (auto simp: rw_ready_def)
  with assms show ?thesis by (auto simp: writeChunk_def rw_ready_def)
qed

text \<open>The arithmetic of one round of the loop, on the position as a number.\<close>

lemma round_arith:
  fixes pos cs :: u32
  assumes L: "L < 2 ^ 32" and pos: "unat pos \<le> L"
  defines "n \<equiv> (if of_nat L - pos > cs then cs else of_nat L - pos)"
  shows "unat n = min (unat cs) (L - unat pos)"
    and "unat (pos + n) = unat pos + min (unat cs) (L - unat pos)"
    and "(of_nat L - (pos + n) = 0) = (L - unat pos \<le> unat cs)"
proof -
  have u: "unat (of_nat L :: u32) = L" using L by (rule unat_of_nat_u32)
  then have d: "unat (of_nat L - pos) = L - unat pos"
    using pos by (simp add: unat_sub word_le_nat_alt)
  show n: "unat n = min (unat cs) (L - unat pos)"
    using d by (auto simp: n_def word_less_nat_alt)
  then have "unat pos + unat n \<le> L" using pos by simp
  then show p: "unat (pos + n) = unat pos + min (unat cs) (L - unat pos)"
    using n L by (simp add: unat_word_ariths)
  have "(of_nat L - (pos + n) = 0) = (L = unat (pos + n))"
    using u by (metis right_minus_eq of_nat_unat ucast_id)
  with p pos show "(of_nat L - (pos + n) = 0) = (L - unat pos \<le> unat cs)"
    by (auto simp: min_def)
qed

lemma subslice_take:
  "subslice xs p (p + min c (length xs - p)) = take c (drop p xs)"
  by (simp add: subslice_def min_def)

lemma writeMessage_loop_rest:
  assumes "length (m_Body msg) < 2 ^ 32"
  shows "rw_ready w \<Longrightarrow> unat pos < length (m_Body msg) \<Longrightarrow> length (m_Body msg) - unat pos \<le> fuel \<Longrightarrow>
    \<exists>b. writeMessage_loop fuel msg delta False pos (wc, w) = (Inr (), (wc, w\<lparr>rw_bw := b\<rparr>)) \<and>
      rw_ready (w\<lparr>rw_bw := b\<rparr>) \<and> bw_buf b = [] \<and>
      bw_stream b = bw_stream (rw_bw w) @
        concat (map (marshal3 (m_ChunkStreamID msg))
          (pieces (unat (rw_chunkSize w)) (drop (unat pos) (m_Body msg))))"
proof (induction fuel arbitrary: pos w)
  case 0
  then show ?case by simp
next
  case (Suc fuel)
  let ?L = "length (m_Body msg)" and ?cs = "rw_chunkSize w"
  let ?n = "if of_nat ?L - pos > ?cs then ?cs else of_nat ?L - pos"
  let ?part = "take (unat ?cs) (drop (unat pos) (m_Body msg))"
  have le: "unat pos \<le> ?L" and cs: "0 < unat ?cs" using Suc.prems by (simp_all add: rw_ready_def)
  note ar = round_arith [OF assms le, of ?cs]
  have part: "subslice (m_Body msg) (unat pos) (unat (pos + ?n)) = ?part"
    by (simp only: ar subslice_take)
  have split: "pieces (unat ?cs) (drop (unat pos) (m_Body msg)) =
      ?part # pieces (unat ?cs) (drop (unat pos + unat ?cs) (m_Body msg))"
    using cs Suc.prems(2) by (subst pieces_unfold) (simp_all add: add.commute)
  from writeChunk_ready [OF Suc.prems(1), of "K3 \<lparr>c3_ChunkStreamID = m_ChunkStreamID msg, c3_Body = ?part\<rparr>"]
  obtain b where b: "writeChunk (K3 \<lparr>c3_ChunkStreamID = m_ChunkStreamID msg, c3_Body = ?part\<rparr>) w =
      (Inr (), w\<lparr>rw_bw := b\<rparr>)" "rw_ready (w\<lparr>rw_bw := b\<rparr>)"
      "bw_stream b = bw_stream (rw_bw w) @ marshal3 (m_ChunkStreamID msg) ?part"
    by (auto simp: marshal3_def)
  show ?case
  proof (cases "?L - unat pos \<le> unat ?cs")
    case True
    then have "of_nat ?L - (pos + ?n) = 0" by (simp only: ar)
    moreover from bufio_Flush_healthy [of b] b(2) obtain b' where
      "bufio_Flush b = (Inr (), b')" "bw_healthy b'" "bw_buf b' = []" "bw_stream b' = bw_stream b"
      by (auto simp: rw_ready_def)
    moreover have "pieces (unat ?cs) (drop (unat pos + unat ?cs) (m_Body msg)) = []"
      using True by simp
    ultimately show ?thesis
      using b split part by (auto simp: Let_def rw_ready_def)
  next
    case False
    then have neq: "of_nat ?L - (pos + ?n) \<noteq> 0" by (simp only: ar) simp
    have up: "unat (pos + ?n) = unat pos + unat ?cs" using ar(2) False by simp
    have "unat (pos + ?n) < ?L" "?L - unat (pos + ?n) \<le> fuel"
      using False Suc.prems(3) cs by (simp_all only: up)
    from Suc.IH [OF b(2) this] obtain b' where
      "writeMessage_loop fuel msg delta False (pos + ?n) (wc, w\<lparr>rw_bw := b\<rparr>) =
         (Inr (), (wc, w\<lparr>rw_bw := b'\<rparr>))"
      "rw_ready (w\<lparr>rw_bw := b'\<rparr>)" "bw_buf b' = []"
      "bw_stream b' = bw_stream b @ concat (map (marshal3 (m_ChunkStreamID msg))
         (pieces (unat ?cs) (drop (unat pos + unat ?cs) (m_Body msg))))"
      by (auto simp: up)
    with b neq part split show ?thesis by (auto simp: Let_def)
  qed
qed

text \<open>The whole message: the first chunk, then the rest of the body in chunks of type 3.\<close>

definition message_bytes :: "u32 \<Rightarrow> chunk \<Rightarrow> RawMessage \<Rightarrow> byte list" where
  "message_bytes cs c msg =
     chunk_Marshal c @
     concat (map (marshal3 (m_ChunkStreamID msg)) (pieces (unat cs) (drop (unat cs) (m_Body msg))))"

abbreviation first_part :: "u32 \<Rightarrow> RawMessage \<Rightarrow> byte list" where
  "first_part cs msg \<equiv> take (unat cs) (m_Body msg)"

abbreviation body_len :: "RawMessage \<Rightarrow> u32" where
  "body_len msg \<equiv> of_nat (length (m_Body msg))"

lemma writeMessage_ready:
  assumes L: "length (m_Body msg) < 2 ^ 32" and w: "rw_ready w"
    and c: "first_chunk wc msg (timestamp_delta wc msg) (body_len msg) (first_part (rw_chunkSize w) msg) =
      Inr c"
  shows "\<exists>b. writeMessage msg (wc, w) =
        (Inr (), (remember msg (timestamp_delta wc msg) (body_len msg) wc, w\<lparr>rw_bw := b\<rparr>)) \<and>
      rw_ready (w\<lparr>rw_bw := b\<rparr>) \<and> bw_buf b = [] \<and>
      bw_stream b = bw_stream (rw_bw w) @ message_bytes (rw_chunkSize w) c msg"
proof -
  let ?L = "length (m_Body msg)" and ?cs = "rw_chunkSize w" and ?d = "timestamp_delta wc msg"
  let ?n = "if of_nat ?L - 0 > ?cs then ?cs else of_nat ?L - 0"
  let ?wc = "remember msg ?d (body_len msg) wc"
  have cs: "0 < unat ?cs" using w by (simp add: rw_ready_def)
  have "unat (0 :: u32) \<le> ?L" by simp
  note ar = round_arith [OF L this, of ?cs]
  have part: "subslice (m_Body msg) (unat (0 :: u32)) (unat (0 + ?n)) = first_part ?cs msg"
    using subslice_take [of "m_Body msg" 0 "unat ?cs"] by (simp only: ar) simp
  from writeChunk_ready [OF w, of c] obtain b where
    b: "writeChunk c w = (Inr (), w\<lparr>rw_bw := b\<rparr>)" "rw_ready (w\<lparr>rw_bw := b\<rparr>)"
       "bw_stream b = bw_stream (rw_bw w) @ chunk_Marshal c"
    by auto
  show ?thesis
  proof (cases "?L \<le> unat ?cs")
    case True
    then have "of_nat ?L - (0 + ?n) = 0" by (simp only: ar)
    moreover from bufio_Flush_healthy [of b] b(2) obtain b' where
      "bufio_Flush b = (Inr (), b')" "bw_healthy b'" "bw_buf b' = []" "bw_stream b' = bw_stream b"
      by (auto simp: rw_ready_def)
    ultimately show ?thesis
      using b part c True w by (auto simp: writeMessage_def Let_def rw_ready_def message_bytes_def)
  next
    case False
    define pos where "pos = 0 + ?n"
    have neq: "of_nat ?L - pos \<noteq> 0" using False ar(3) unfolding pos_def by simp
    have up: "unat pos = unat ?cs" using ar(2) False unfolding pos_def by simp
    have "unat pos < ?L" "?L - unat pos \<le> ?L" using False by (simp_all add: up)
    from writeMessage_loop_rest [OF L b(2) this, of ?d ?wc] obtain b' where
      "writeMessage_loop ?L msg ?d False pos (?wc, w\<lparr>rw_bw := b\<rparr>) = (Inr (), (?wc, w\<lparr>rw_bw := b'\<rparr>))"
      "rw_ready (w\<lparr>rw_bw := b'\<rparr>)" "bw_buf b' = []"
      "bw_stream b' = bw_stream b @ concat (map (marshal3 (m_ChunkStreamID msg))
         (pieces (unat ?cs) (drop (unat ?cs) (m_Body msg))))"
      by (auto simp: up)
    with b neq part c show ?thesis
      unfolding writeMessage_def message_bytes_def by (auto simp: Let_def pos_def)
  qed
qed

text \<open>The pointers of a chunk stream of the writer are set together.\<close>

definition wcs_ok :: "writerChunkStream \<Rightarrow> bool" where
  "wcs_ok wc \<longleftrightarrow>
     (lastMessageStreamID wc = None \<longleftrightarrow> lastType wc = None) \<and>
     (lastMessageStreamID wc = None \<longleftrightarrow> lastBodyLen wc = None) \<and>
     (lastMessageStreamID wc = None \<longleftrightarrow> lastTimestamp wc = None)"

definition rw_ok :: "RawWriter \<Rightarrow> bool" where
  "rw_ok w \<longleftrightarrow> (\<forall>i wc. rw_chunkStreams w i = Some wc \<longrightarrow> wcs_ok wc)"

lemma wcs_ok_new [simp]: "wcs_ok new_writerChunkStream"
  by (simp add: wcs_ok_def new_writerChunkStream_def)

lemma wcs_ok_remember [simp]: "wcs_ok (remember msg d n wc)"
  by (simp add: wcs_ok_def remember_def)

lemma first_chunk_ok:
  assumes "wcs_ok wc"
  shows "\<exists>c. first_chunk wc msg d n part = Inr c"
  using assms
  by (auto simp: first_chunk_def wcs_ok_def Let_def split: option.splits sum.splits bool.splits)

lemma RawWriter_Write_ready:
  assumes L: "length (m_Body msg) < 2 ^ 32" and w: "rw_ready w" and ok: "rw_ok w"
  defines "wc \<equiv> (case rw_chunkStreams w (m_ChunkStreamID msg) of None \<Rightarrow> new_writerChunkStream | Some wc \<Rightarrow> wc)"
  shows "\<exists>c b. first_chunk wc msg (timestamp_delta wc msg) (body_len msg) (first_part (rw_chunkSize w) msg) =
        Inr c \<and>
      RawWriter_Write msg w =
        (Inr (), w\<lparr>rw_bw := b, rw_chunkStreams := (rw_chunkStreams w)(m_ChunkStreamID msg \<mapsto>
           remember msg (timestamp_delta wc msg) (body_len msg) wc)\<rparr>) \<and>
      bw_healthy b \<and> bw_buf b = [] \<and>
      bw_stream b = bw_stream (rw_bw w) @ message_bytes (rw_chunkSize w) c msg"
proof -
  have "wcs_ok wc" using ok by (auto simp: wc_def rw_ok_def split: option.splits)
  from first_chunk_ok [OF this] obtain c where c: "first_chunk wc msg (timestamp_delta wc msg)
      (body_len msg) (first_part (rw_chunkSize w) msg) = Inr c"
    by blast
  from writeMessage_ready [OF L w c] c show ?thesis
    by (auto simp: RawWriter_Write_def wc_def [symmetric] rw_ready_def)
qed

end
