(* ===== verification/RawRoundtrip.thy ===== *)
theory RawRoundtrip
  imports RawWriter
begin

text \<open>
  The raw message writer against the raw message reader.  \<open>in_sync\<close> relates the memory of a chunk
  stream on both sides; a message that the writer cuts into chunks is assembled by a reader in
  sync, whatever segments the bytes arrive in, and both sides stay in sync unless the writer falls
  back to a chunk of type 0 while it remembers a timestamp delta, which the reader then forgets.
\<close>

section \<open>The relation between the two sides\<close>

definition in_sync :: "writerChunkStream \<Rightarrow> readerChunkStream \<Rightarrow> bool" where
  "in_sync wc rc \<longleftrightarrow>
     wcs_ok wc \<and> curBody rc = None \<and>
     (lastMessageStreamID wc = None \<and> lastTimestampDelta wc = None \<or>
      curMessageStreamID rc = lastMessageStreamID wc \<and> curType rc = lastType wc \<and>
      curBodyLen rc = lastBodyLen wc \<and> lastTimestamp wc = map_option of_ms (curTimestamp rc) \<and>
      (lastTimestampDelta wc = None \<or> curTimestampDelta rc = map_option to_ms (lastTimestampDelta wc)))"

definition rcs_of :: "RawReader \<Rightarrow> byte \<Rightarrow> readerChunkStream" where
  "rcs_of r i = (case rr_chunkStreams r i of None \<Rightarrow> new_readerChunkStream | Some rc \<Rightarrow> rc)"

definition wcs_of :: "RawWriter \<Rightarrow> byte \<Rightarrow> writerChunkStream" where
  "wcs_of w i = (case rw_chunkStreams w i of None \<Rightarrow> new_writerChunkStream | Some wc \<Rightarrow> wc)"

text \<open>The writer sends a full header.\<close>

definition uses_type0 :: "writerChunkStream \<Rightarrow> RawMessage \<Rightarrow> bool" where
  "uses_type0 wc m \<longleftrightarrow>
     lastMessageStreamID wc \<noteq> Some (m_MessageStreamID m) \<or> timestamp_delta wc m = None"

text \<open>
  The fields of a message fit the wire format: the id has six bits, the body length 24 bits, the
  timestamp is a whole number of milliseconds, and the timestamp or delta that is sent has 24 bits.
\<close>

definition sendable :: "writerChunkStream \<Rightarrow> RawMessage \<Rightarrow> bool" where
  "sendable wc m \<longleftrightarrow>
     m_ChunkStreamID m AND 0x3F = m_ChunkStreamID m \<and> length (m_Body m) < 2 ^ 24 \<and>
     m_Timestamp m = of_ms (to_ms (m_Timestamp m)) \<and>
     (if uses_type0 wc m then unat (to_ms (m_Timestamp m)) < 2 ^ 24
      else (case timestamp_delta wc m of None \<Rightarrow> True | Some d \<Rightarrow> unat (to_ms d) < 2 ^ 24))"

definition ack_ok :: "(u32 \<Rightarrow> ('w, unit) io) \<Rightarrow> bool" where
  "ack_ok onAck \<longleftrightarrow> (\<forall>v w. fst (onAck v w) = Inr ())"

section \<open>Timestamps\<close>

lemma wrap64_of_ms_diff: "wrap64 (of_ms k' - of_ms k) = of_ms k' - of_ms k"
proof (rule wrap64_id)
  have u: "0 \<le> uint k" "uint k < 4294967296" "0 \<le> uint k'" "uint k' < 4294967296"
    by (simp_all add: uint_u32_less)
  have "- (2 ^ 63) = (- 9223372036854775808 :: int)" by simp
  then show "- (2 ^ 63) \<le> of_ms k' - of_ms k" using u unfolding of_ms_eq by linarith
  have "2 ^ 63 = (9223372036854775808 :: int)" by simp
  then show "of_ms k' - of_ms k < 2 ^ 63" using u unfolding of_ms_eq by linarith
qed

lemma to_ms_diff:
  assumes "timestamp_delta wc m = Some d" and "lastTimestamp wc = Some (of_ms k)"
    and "m_Timestamp m = of_ms k'"
  shows "k + to_ms d = k'"
proof -
  have d: "d = (uint k' - uint k) * 1000000" "0 \<le> d"
    using assms wrap64_of_ms_diff [of k' k]
    by (auto simp: timestamp_delta_def Let_def of_ms_eq algebra_simps split: if_splits)
  then have "uint k \<le> uint k'" by simp
  then have "d = of_ms (k' - k)"
    by (simp add: d(1) of_ms_eq uint_sub_if')
  then show ?thesis by simp
qed

section \<open>Reading chunk by chunk\<close>

lemma same_ack: "\<exists>v. r\<lparr>rr_br := b\<rparr> = r\<lparr>rr_br := b, rr_lastAckCount := v\<rparr>"
  by (rule exI [of _ "rr_lastAckCount r"]) simp

lemma readChunk_ok:
  assumes "rd (rr_br r) = (Inr c, b)" and "ack_ok onAck"
  shows "\<exists>v w'. readChunk onAck rd (r, w) = (Inr c, (r\<lparr>rr_br := b, rr_lastAckCount := v\<rparr>, w'))"
proof -
  let ?count = "ucast (bc_r_Count (br_rd b)) :: u32"
  obtain w' where "onAck ?count w = (Inr (), w')"
    using assms(2) by (metis ack_ok_def prod.collapse)
  then show ?thesis
    using assms(1) same_ack by (auto simp: readChunk_def Let_def)
qed

text \<open>The header fields that the reader remembers after the first chunk of a message.\<close>

fun after_header :: "chunk \<Rightarrow> readerChunkStream \<Rightarrow> readerChunkStream" where
  "after_header (K0 c) rc =
     rc\<lparr>curMessageStreamID := Some (c0_MessageStreamID c), curType := Some (c0_Type c),
        curTimestamp := Some (c0_Timestamp c), curBodyLen := Some (c0_BodyLen c),
        curTimestampDelta := None\<rparr>"
| "after_header (K1 c) rc =
     rc\<lparr>curType := Some (c1_Type c),
        curTimestamp := map_option (\<lambda>ts. ts + c1_TimestampDelta c) (curTimestamp rc),
        curBodyLen := Some (c1_BodyLen c), curTimestampDelta := Some (c1_TimestampDelta c)\<rparr>"
| "after_header (K2 c) rc =
     rc\<lparr>curTimestamp := map_option (\<lambda>ts. ts + c2_TimestampDelta c) (curTimestamp rc),
        curTimestampDelta := Some (c2_TimestampDelta c)\<rparr>"
| "after_header (K3 c) rc =
     rc\<lparr>curTimestamp := (case (curTimestamp rc, curTimestampDelta rc) of
          (Some ts, Some d) \<Rightarrow> Some (ts + d) | _ \<Rightarrow> None)\<rparr>"

fun chunk_type :: "chunk \<Rightarrow> byte" where
  "chunk_type (K0 _) = 0" | "chunk_type (K1 _) = 1" | "chunk_type (K2 _) = 2" | "chunk_type (K3 _) = 3"

fun chunk_id :: "chunk \<Rightarrow> byte" where
  "chunk_id (K0 c) = c0_ChunkStreamID c" | "chunk_id (K1 c) = c1_ChunkStreamID c"
| "chunk_id (K2 c) = c2_ChunkStreamID c" | "chunk_id (K3 c) = c3_ChunkStreamID c"

fun chunk_body :: "chunk \<Rightarrow> byte list" where
  "chunk_body (K0 c) = c0_Body c" | "chunk_body (K1 c) = c1_Body c"
| "chunk_body (K2 c) = c2_Body c" | "chunk_body (K3 c) = c3_Body c"

fun chunk_wf :: "u32 \<Rightarrow> u32 \<Rightarrow> chunk \<Rightarrow> bool" where
  "chunk_wf cs n (K0 c) = Chunk0_wf cs c" | "chunk_wf cs n (K1 c) = Chunk1_wf cs c"
| "chunk_wf cs n (K2 c) = Chunk2_wf n c" | "chunk_wf cs n (K3 c) = Chunk3_wf n c"

text \<open>The first byte of a chunk gives its type and id.\<close>

lemma mask_drop:
  assumes "(i :: byte) AND 0x3F = i"
  shows "drop_bit 6 i = 0" "drop_bit 6 (64 OR i) = 1" "drop_bit 6 (128 OR i) = 2" "drop_bit 6 (192 OR i) = 3"
proof -
  have "drop_bit 6 (i AND mask 6) = 0"
    by (rule bit_word_eqI) (simp add: bit_simps)
  then show z: "drop_bit 6 i = 0" using assms by (simp add: mask_eq_exp_minus_1)
  show "drop_bit 6 (64 OR i) = 1" "drop_bit 6 (128 OR i) = 2" "drop_bit 6 (192 OR i) = 3"
    by (simp_all add: drop_bit_or z)
qed

lemma chunk_first_byte:
  assumes "chunk_id c AND 0x3F = chunk_id c"
  shows "\<exists>byt bs. chunk_Marshal c = byt # bs \<and> drop_bit 6 byt = chunk_type c \<and> byt AND 0x3F = chunk_id c"
  using assms
  by (cases c) (simp_all add: Chunk0_Marshal_def Chunk1_Marshal_def Chunk2_Marshal_def
      Chunk3_Marshal_def mask_drop format_id_simps)

text \<open>
  The first chunk of a message leaves the message complete, or leaves its body as the body under
  way.
\<close>

lemma readMessage_first:
  assumes ack: "ack_ok onAck" and body: "curBody rc = None"
    and prev: "curTimestamp rc = Some ts \<and> curMessageStreamID rc = Some msid0 \<and> curType rc = Some t0 \<or>
      chunk_type c = 0"
    and k3: "chunk_type c = 3 \<Longrightarrow> curTimestampDelta rc \<noteq> None"
    and hdr: "curBodyLen (after_header c rc) = Some n" "curTimestamp (after_header c rc) = Some ts'"
      "curType (after_header c rc) = Some t" "curMessageStreamID (after_header c rc) = Some msid"
    and wf: "chunk_wf (rr_chunkSize r) (chunk_len n r) c"
    and pend: "rr_pending r = chunk_Marshal c @ rest"
  shows "\<exists>b v w'. br_pending b = rest \<and>
    readMessage onAck (chunk_type c) (rc, r, w) =
      (let r' = r\<lparr>rr_br := b, rr_lastAckCount := v\<rparr>; rc' = after_header c rc in
       if n \<noteq> of_nat (length (chunk_body c))
       then (Inr None, (rc'\<lparr>curBody := Some (chunk_body c)\<rparr>, r', w'))
       else finish_message ts' t msid (chunk_body c) (rc', r', w'))"
proof (cases c)
  case (K0 d)
  with wf pend have wf0: "Chunk0_wf (rr_chunkSize r) d" "br_pending (rr_br r) = Chunk0_Marshal d @ rest"
    by (simp_all add: rr_pending_def)
  from bufio.c0.read_marshal [OF wf0] obtain b where
    b: "Chunk0_Read bufio_Read (rr_chunkSize r) (rr_br r) = (Inr d, b)" "br_pending b = rest"
    by blast
  from readChunk_ok [where rd = "Chunk0_Read bufio_Read (rr_chunkSize r)", OF b(1) ack, of w] obtain v w' where
    "readChunk onAck (Chunk0_Read bufio_Read (rr_chunkSize r)) (r, w) =
       (Inr d, (r\<lparr>rr_br := b, rr_lastAckCount := v\<rparr>, w'))"
    by blast
  with K0 b(2) body hdr show ?thesis
    by (intro exI [of _ b] exI [of _ v] exI [of _ w']) (auto simp: readMessage_def readMessage0_def Let_def)
next
  case (K1 d)
  with wf pend have wf0: "Chunk1_wf (rr_chunkSize r) d" "br_pending (rr_br r) = Chunk1_Marshal d @ rest"
    by (simp_all add: rr_pending_def)
  from bufio.c1.read_marshal [OF wf0] obtain b where
    b: "Chunk1_Read bufio_Read (rr_chunkSize r) (rr_br r) = (Inr d, b)" "br_pending b = rest"
    by blast
  from readChunk_ok [where rd = "Chunk1_Read bufio_Read (rr_chunkSize r)", OF b(1) ack, of w] obtain v w' where
    "readChunk onAck (Chunk1_Read bufio_Read (rr_chunkSize r)) (r, w) =
       (Inr d, (r\<lparr>rr_br := b, rr_lastAckCount := v\<rparr>, w'))"
    by blast
  with K1 b(2) body hdr prev show ?thesis
    by (intro exI [of _ b] exI [of _ v] exI [of _ w']) (auto simp: readMessage_def readMessage1_def Let_def io_simps)
next
  case (K2 d)
  with wf pend have wf0: "Chunk2_wf (chunk_len n r) d" "br_pending (rr_br r) = Chunk2_Marshal d @ rest"
    by (simp_all add: rr_pending_def)
  from bufio.c2.read_marshal [OF wf0] obtain b where
    b: "Chunk2_Read bufio_Read (chunk_len n r) (rr_br r) = (Inr d, b)" "br_pending b = rest"
    by blast
  from readChunk_ok [where rd = "Chunk2_Read bufio_Read (chunk_len n r)", OF b(1) ack, of w] obtain v w' where
    "readChunk onAck (Chunk2_Read bufio_Read (chunk_len n r)) (r, w) =
       (Inr d, (r\<lparr>rr_br := b, rr_lastAckCount := v\<rparr>, w'))"
    by blast
  with K2 b(2) body hdr prev show ?thesis
    by (intro exI [of _ b] exI [of _ v] exI [of _ w']) (auto simp: readMessage_def readMessage2_def Let_def io_simps)
next
  case (K3 d)
  with wf pend have wf0: "Chunk3_wf (chunk_len n r) d" "br_pending (rr_br r) = Chunk3_Marshal d @ rest"
    by (simp_all add: rr_pending_def)
  from bufio.c3.read_marshal [OF wf0] obtain b where
    b: "Chunk3_Read bufio_Read (chunk_len n r) (rr_br r) = (Inr d, b)" "br_pending b = rest"
    by blast
  from readChunk_ok [where rd = "Chunk3_Read bufio_Read (chunk_len n r)", OF b(1) ack, of w] obtain v w' where
    "readChunk onAck (Chunk3_Read bufio_Read (chunk_len n r)) (r, w) =
       (Inr d, (r\<lparr>rr_br := b, rr_lastAckCount := v\<rparr>, w'))"
    by blast
  with K3 b(2) body hdr prev k3 show ?thesis
    by (intro exI [of _ b] exI [of _ v] exI [of _ w']) (auto simp: readMessage_def readMessage3_def readMessage3_repeat_def Let_def io_simps)
qed

text \<open>A round of \<open>Read\<close> on a stream that starts with a given chunk.\<close>

lemma Read_round_chunk:
  assumes pend: "rr_pending r = chunk_Marshal c @ rest" and i: "chunk_id c AND 0x3F = chunk_id c"
  shows "\<exists>b. br_pending b = rr_pending r \<and>
    RawReader_Read onAck (r, w) =
      after_round onAck (chunk_id c)
        (readMessage onAck (chunk_type c) (rcs_of r (chunk_id c), r\<lparr>rr_br := b\<rparr>, w))"
proof -
  from chunk_first_byte [OF i] obtain byt bs where byt: "chunk_Marshal c = byt # bs"
      "drop_bit 6 byt = chunk_type c" "byt AND 0x3F = chunk_id c"
    by blast
  from bufio_peek [of "rr_br r" byt "bs @ rest"] pend byt(1) obtain b1 b2 where
    b: "bufio_ReadByte (rr_br r) = (Inr byt, b1)" "bufio_UnreadByte b1 = (Inr (), b2)"
       "br_pending b2 = rr_pending r"
    by (auto simp: rr_pending_def)
  from RawReader_Read_round [OF b(1) refl, of onAck w] byt(2,3) b(2,3) show ?thesis
    by (auto simp: rcs_of_def)
qed

text \<open>One further chunk of a message under way.\<close>

lemma readMessage3_more:
  assumes ack: "ack_ok onAck" and body: "curBody rc = Some b0"
    and rc: "curTimestamp rc = Some ts" "curType rc = Some t" "curMessageStreamID rc = Some msid"
      "curBodyLen rc = Some n"
    and i: "i AND 0x3F = i" and len: "length b0 < unat n"
      "length p = min (unat n - length b0) (unat (rr_chunkSize r))"
    and pend: "rr_pending r = marshal3 i p @ rest"
  shows "\<exists>b v w'. br_pending b = rest \<and>
    readMessage onAck 3 (rc, r, w) =
      (let r' = r\<lparr>rr_br := b, rr_lastAckCount := v\<rparr> in
       if n \<noteq> of_nat (length (b0 @ p))
       then (Inr None, (rc\<lparr>curBody := Some (b0 @ p)\<rparr>, r', w'))
       else finish_message ts t msid (b0 @ p) (rc\<lparr>curBody := None\<rparr>, r', w'))"
proof -
  let ?d = "\<lparr>c3_ChunkStreamID = i, c3_Body = p\<rparr>" and ?l = "chunk_len (n - of_nat (length b0)) r"
  have "Chunk3_wf ?l ?d"
    using i len by (simp add: Chunk3_wf_def unat_chunk_len unat_sub_len)
  from bufio.c3.read_marshal [OF this, of "rr_br r" rest] pend obtain b where
    b: "Chunk3_Read bufio_Read ?l (rr_br r) = (Inr ?d, b)" "br_pending b = rest"
    by (auto simp: rr_pending_def marshal3_def)
  from readChunk_ok [where rd = "Chunk3_Read bufio_Read ?l", OF b(1) ack, of w] obtain v w' where
    "readChunk onAck (Chunk3_Read bufio_Read ?l) (r, w) =
       (Inr ?d, (r\<lparr>rr_br := b, rr_lastAckCount := v\<rparr>, w'))"
    by blast
  with b(2) body rc show ?thesis
    by (intro exI [of _ b] exI [of _ v] exI [of _ w'])
       (simp add: readMessage_def readMessage3_def readMessage3_continue_def Let_def io_simps)
qed

text \<open>What reading one message does to the reader.\<close>

definition reads_message ::
  "(u32 \<Rightarrow> ('w, unit) io) \<Rightarrow> RawReader \<times> 'w \<Rightarrow> RawMessage \<Rightarrow> readerChunkStream \<Rightarrow> byte list \<Rightarrow> bool" where
  "reads_message onAck s m rc rest \<longleftrightarrow>
     (\<exists>r' w'. RawReader_Read onAck s = (Inr m, (r', w')) \<and> rr_pending r' = rest \<and>
        rr_chunkSize r' = rr_chunkSize (fst s) \<and> rr_ackWindowSize r' = rr_ackWindowSize (fst s) \<and>
        rr_chunkStreams r' = (rr_chunkStreams (fst s))(m_ChunkStreamID m \<mapsto> rc))"

lemma of_nat_len_neq:
  assumes "unat (n :: u32) = length b0 + length xs"
  shows "(n \<noteq> of_nat (length (b0 @ take cs xs))) = (cs < length xs)"
proof -
  have "length b0 + length xs < 2 ^ 32" using unsigned_less [of n, where 'a = nat] assms by simp
  then have "unat (of_nat (length (b0 @ take cs xs)) :: u32) = length b0 + min cs (length xs)"
    by (subst unat_of_nat_u32) simp_all
  with assms show ?thesis by (auto simp: word_unat_eq_iff)
qed

lemma reads_rest:
  assumes ack: "ack_ok onAck" and i: "i AND 0x3F = i"
    and m: "m = \<lparr>m_ChunkStreamID = i, m_Timestamp = of_ms ts, m_Type = t, m_MessageStreamID = msid,
      m_Body = bs\<rparr>"
  shows "rr_chunkStreams r i = Some rc \<Longrightarrow> curTimestamp rc = Some ts \<Longrightarrow> curType rc = Some t \<Longrightarrow>
    curMessageStreamID rc = Some msid \<Longrightarrow> curBodyLen rc = Some n \<Longrightarrow> curBody rc = Some b0 \<Longrightarrow>
    bs = b0 @ xs \<Longrightarrow> xs \<noteq> [] \<Longrightarrow> length bs = unat n \<Longrightarrow> 0 < unat (rr_chunkSize r) \<Longrightarrow>
    rr_pending r = concat (map (marshal3 i) (pieces (unat (rr_chunkSize r)) xs)) @ rest \<Longrightarrow>
    reads_message onAck (r, w) m (rc\<lparr>curBody := None\<rparr>) rest"
proof (induction "length xs" arbitrary: xs b0 rc r w rule: less_induct)
  case less
  let ?cs = "unat (rr_chunkSize r)"
  let ?p = "take ?cs xs"
  let ?c = "K3 \<lparr>c3_ChunkStreamID = i, c3_Body = ?p\<rparr>"
  let ?more = "concat (map (marshal3 i) (pieces ?cs (drop ?cs xs))) @ rest"
  have pend: "rr_pending r = chunk_Marshal ?c @ ?more"
    using less.prems by (simp add: pieces_unfold marshal3_def)
  have rc: "rcs_of r (chunk_id ?c) = rc" using less.prems(1) by (simp add: rcs_of_def)
  have len: "unat n = length b0 + length xs" using less.prems by simp
  from Read_round_chunk [OF pend, of onAck w] i rc obtain b where
    b: "br_pending b = rr_pending r"
    and round: "RawReader_Read onAck (r, w) =
      after_round onAck i (readMessage onAck 3 (rc, r\<lparr>rr_br := b\<rparr>, w))"
    by auto
  have "length b0 < unat n" "length ?p = min (unat n - length b0) (unat (rr_chunkSize (r\<lparr>rr_br := b\<rparr>)))"
    using len less.prems(8) by simp_all
  moreover have "rr_pending (r\<lparr>rr_br := b\<rparr>) = marshal3 i ?p @ ?more"
    using b pend by (simp add: marshal3_def)
  ultimately obtain b' v w' where b': "br_pending b' = ?more"
    and rm: "readMessage onAck 3 (rc, r\<lparr>rr_br := b\<rparr>, w) =
      (let r' = r\<lparr>rr_br := b', rr_lastAckCount := v\<rparr> in
       if n \<noteq> of_nat (length (b0 @ ?p))
       then (Inr None, (rc\<lparr>curBody := Some (b0 @ ?p)\<rparr>, r', w'))
       else finish_message ts t msid (b0 @ ?p) (rc\<lparr>curBody := None\<rparr>, r', w'))"
    using readMessage3_more [OF ack less.prems(6,2,3,4,5) i, of ?p "r\<lparr>rr_br := b\<rparr>" ?more w] by auto
  have neq: "(n \<noteq> of_nat (length (b0 @ ?p))) = (?cs < length xs)"
    using len by (rule of_nat_len_neq)
  let ?r' = "r\<lparr>rr_br := b', rr_lastAckCount := v\<rparr>"
  show ?case
  proof (cases "?cs < length xs")
    case False
    then have full: "b0 @ ?p = bs" "?more = rest" using less.prems(7) by simp_all
    then have "RawReader_Read onAck (r, w) =
        (Inr m, (?r'\<lparr>rr_chunkStreams := (rr_chunkStreams r)(i \<mapsto> rc\<lparr>curBody := None\<rparr>), rr_msg := m\<rparr>, w'))"
      using False neq by (simp add: round rm after_round_def finish_message_def Let_def m)
    with b' full show ?thesis by (simp add: reads_message_def m)
  next
    case True
    let ?rc = "rc\<lparr>curBody := Some (b0 @ ?p)\<rparr>"
    let ?r2 = "?r'\<lparr>rr_chunkStreams := (rr_chunkStreams r)(i \<mapsto> ?rc)\<rparr>"
    have step: "RawReader_Read onAck (r, w) = RawReader_Read onAck (?r2, w')"
      using True neq by (simp add: round rm after_round_def Let_def)
    have "reads_message onAck (?r2, w') m (?rc\<lparr>curBody := None\<rparr>) rest"
      by (rule less.hyps [of "drop ?cs xs" ?r2 ?rc "b0 @ ?p"])
         (use True less.prems b' in simp_all)
    then show ?thesis by (simp add: reads_message_def step m)
  qed
qed

section \<open>Reading back a message\<close>

text \<open>The header that a reader in sync remembers after the first chunk is the header of the message.\<close>

lemma unat_body_len: "length (m_Body m) < 2 ^ 24 \<Longrightarrow> unat (body_len m) = length (m_Body m)"
  by (rule unat_of_nat_u32) simp

lemma first_chunk_cases:
  assumes "first_chunk wc m d n part = Inr c" and "wcs_ok wc"
  obtains
    (type0) "lastMessageStreamID wc \<noteq> Some (m_MessageStreamID m) \<or> d = None"
      "c = K0 \<lparr>c0_ChunkStreamID = m_ChunkStreamID m, c0_Timestamp = to_ms (m_Timestamp m),
        c0_Type = m_Type m, c0_MessageStreamID = m_MessageStreamID m, c0_BodyLen = n, c0_Body = part\<rparr>"
  | (type1) dd where "lastMessageStreamID wc = Some (m_MessageStreamID m)" "d = Some dd"
      "c = K1 \<lparr>c1_ChunkStreamID = m_ChunkStreamID m, c1_TimestampDelta = to_ms dd,
        c1_Type = m_Type m, c1_BodyLen = n, c1_Body = part\<rparr>"
  | (type2) dd where "lastMessageStreamID wc = Some (m_MessageStreamID m)" "d = Some dd"
      "lastType wc = Some (m_Type m)" "lastBodyLen wc = Some n"
      "c = K2 \<lparr>c2_ChunkStreamID = m_ChunkStreamID m, c2_TimestampDelta = to_ms dd, c2_Body = part\<rparr>"
  | (type3) dd where "lastMessageStreamID wc = Some (m_MessageStreamID m)" "d = Some dd"
      "lastType wc = Some (m_Type m)" "lastBodyLen wc = Some n" "lastTimestampDelta wc = Some dd"
      "c = K3 \<lparr>c3_ChunkStreamID = m_ChunkStreamID m, c3_Body = part\<rparr>"
  using assms
  by (auto simp: first_chunk_def wcs_ok_def Let_def
      split: option.splits sum.splits bool.splits if_splits)

definition header_of :: "RawMessage \<Rightarrow> u32 option \<Rightarrow> readerChunkStream" where
  "header_of m d =
     \<lparr>curTimestamp = Some (to_ms (m_Timestamp m)), curType = Some (m_Type m),
      curMessageStreamID = Some (m_MessageStreamID m), curBodyLen = Some (body_len m),
      curBody = None, curTimestampDelta = d\<rparr>"

lemma header_of_simps [simp]:
  "curTimestamp (header_of m d) = Some (to_ms (m_Timestamp m))" "curType (header_of m d) = Some (m_Type m)"
  "curMessageStreamID (header_of m d) = Some (m_MessageStreamID m)"
  "curBodyLen (header_of m d) = Some (body_len m)" "curBody (header_of m d) = None"
  "curTimestampDelta (header_of m d) = d"
  by (simp_all add: header_of_def)

lemma after_header_eq:
  assumes sync: "in_sync wc rc" and send: "sendable wc m"
    and c: "first_chunk wc m (timestamp_delta wc m) (body_len m) part = Inr c"
  shows "after_header c rc =
    header_of m (if uses_type0 wc m then None else map_option to_ms (timestamp_delta wc m))"
proof -
  have ok: "wcs_ok wc" using sync by (simp add: in_sync_def)
  let ?k = "to_ms (m_Timestamp m)"
  have ts: "m_Timestamp m = of_ms ?k" using send by (simp add: sendable_def)
  have delta: "k + to_ms d = ?k"
    if "timestamp_delta wc m = Some d" "curTimestamp rc = Some k" "lastMessageStreamID wc \<noteq> None" for d k
    using to_ms_diff [OF that(1) _ ts, of k] sync that(2,3) by (simp add: in_sync_def)
  have some: "\<exists>k. curTimestamp rc = Some k" if "lastMessageStreamID wc \<noteq> None"
    using sync that by (auto simp: in_sync_def wcs_ok_def)
  from c ok show ?thesis
  proof (cases rule: first_chunk_cases)
    case type0
    then have "uses_type0 wc m" by (auto simp: uses_type0_def)
    with type0 sync show ?thesis by (simp add: header_of_def in_sync_def)
  next
    case (type1 d)
    then have "\<not> uses_type0 wc m" by (simp add: uses_type0_def)
    with type1 sync some delta [OF type1(2)] show ?thesis by (auto simp: header_of_def in_sync_def)
  next
    case (type2 d)
    then have "\<not> uses_type0 wc m" by (simp add: uses_type0_def)
    with type2 sync some delta [OF type2(2)] show ?thesis by (auto simp: header_of_def in_sync_def)
  next
    case (type3 d)
    then have "\<not> uses_type0 wc m" by (simp add: uses_type0_def)
    moreover have "curTimestampDelta rc = Some (to_ms d)" using sync type3 by (auto simp: in_sync_def)
    ultimately show ?thesis
      using type3 sync some delta [OF type3(2)] by (auto simp: header_of_def in_sync_def)
  qed
qed

lemma first_chunk_wf:
  assumes sync: "in_sync wc rc" and send: "sendable wc m"
    and c: "first_chunk wc m (timestamp_delta wc m) (body_len m) (first_part (rr_chunkSize r) m) = Inr c"
  shows "chunk_wf (rr_chunkSize r) (chunk_len (body_len m) r) c" "chunk_id c = m_ChunkStreamID m"
    "chunk_body c = first_part (rr_chunkSize r) m"
proof -
  have ok: "wcs_ok wc" using sync by (simp add: in_sync_def)
  have L: "unat (body_len m) = length (m_Body m)" using send by (simp add: sendable_def unat_body_len)
  have b: "m_ChunkStreamID m AND 0x3F = m_ChunkStreamID m" "length (m_Body m) < 16777216"
    using send by (simp_all add: sendable_def)
  from c ok show "chunk_wf (rr_chunkSize r) (chunk_len (body_len m) r) c"
  proof (cases rule: first_chunk_cases)
    case type0
    then have "uses_type0 wc m" by (auto simp: uses_type0_def)
    with send type0 L b show ?thesis by (simp add: sendable_def Chunk0_wf_def)
  next
    case (type1 d)
    then have "\<not> uses_type0 wc m" by (simp add: uses_type0_def)
    with send type1 L b show ?thesis by (simp add: sendable_def Chunk1_wf_def)
  next
    case (type2 d)
    then have "\<not> uses_type0 wc m" by (simp add: uses_type0_def)
    with send type2 L b show ?thesis by (simp add: sendable_def Chunk2_wf_def unat_chunk_len)
  next
    case (type3 d)
    with L b show ?thesis by (simp add: Chunk3_wf_def unat_chunk_len)
  qed
  from c ok show "chunk_id c = m_ChunkStreamID m" "chunk_body c = first_part (rr_chunkSize r) m"
    by (auto elim!: first_chunk_cases)
qed

lemma reads_message_bytes:
  assumes ack: "ack_ok onAck" and sync: "in_sync wc (rcs_of r (m_ChunkStreamID m))"
    and send: "sendable wc m" and cs: "0 < unat (rr_chunkSize r)"
    and c: "first_chunk wc m (timestamp_delta wc m) (body_len m) (first_part (rr_chunkSize r) m) = Inr c"
    and pend: "rr_pending r = message_bytes (rr_chunkSize r) c m @ rest"
  shows "reads_message onAck (r, w) m
    (header_of m (if uses_type0 wc m then None else map_option to_ms (timestamp_delta wc m))) rest"
proof -
  let ?rc = "rcs_of r (m_ChunkStreamID m)" and ?cs = "unat (rr_chunkSize r)"
  let ?h = "header_of m (if uses_type0 wc m then None else map_option to_ms (timestamp_delta wc m))"
  let ?more = "concat (map (marshal3 (m_ChunkStreamID m)) (pieces ?cs (drop ?cs (m_Body m)))) @ rest"
  note hdr = after_header_eq [OF sync send c] and wf = first_chunk_wf [OF sync send c]
  have i: "chunk_id c AND 0x3F = chunk_id c" using send wf(2) by (simp add: sendable_def)
  have pend': "rr_pending r = chunk_Marshal c @ ?more" using pend by (simp add: message_bytes_def)
  from Read_round_chunk [OF pend' i, of onAck w] obtain b where
    b: "br_pending b = rr_pending r"
    and round: "RawReader_Read onAck (r, w) = after_round onAck (m_ChunkStreamID m)
      (readMessage onAck (chunk_type c) (?rc, r\<lparr>rr_br := b\<rparr>, w))"
    using wf(2) by auto
  have ok: "wcs_ok wc" and body: "curBody ?rc = None" using sync by (simp_all add: in_sync_def)
  have prev: "curTimestamp ?rc = Some (the (curTimestamp ?rc)) \<and>
      curMessageStreamID ?rc = Some (the (curMessageStreamID ?rc)) \<and>
      curType ?rc = Some (the (curType ?rc)) \<or> chunk_type c = 0"
    using c ok by (rule first_chunk_cases) (use sync in \<open>auto simp: in_sync_def wcs_ok_def\<close>)
  have k3: "curTimestampDelta ?rc \<noteq> None" if "chunk_type c = 3"
    using c ok by (rule first_chunk_cases) (use sync that in \<open>auto simp: in_sync_def\<close>)
  have pr: "rr_pending (r\<lparr>rr_br := b\<rparr>) = chunk_Marshal c @ ?more" using b pend' by simp
  have wf': "chunk_wf (rr_chunkSize (r\<lparr>rr_br := b\<rparr>)) (chunk_len (body_len m) (r\<lparr>rr_br := b\<rparr>)) c"
    using wf(1) by (simp add: chunk_len_def split: if_splits)
  have "\<exists>b' v w'. br_pending b' = ?more \<and>
    readMessage onAck (chunk_type c) (?rc, r\<lparr>rr_br := b\<rparr>, w) =
      (let r' = r\<lparr>rr_br := b\<rparr>\<lparr>rr_br := b', rr_lastAckCount := v\<rparr>; rc' = after_header c ?rc in
       if body_len m \<noteq> of_nat (length (chunk_body c))
       then (Inr None, (rc'\<lparr>curBody := Some (chunk_body c)\<rparr>, r', w'))
       else finish_message (to_ms (m_Timestamp m)) (m_Type m) (m_MessageStreamID m) (chunk_body c)
         (rc', r', w'))"
    by (rule readMessage_first [OF ack body prev k3 _ _ _ _ wf' pr]) (simp_all add: hdr)
  moreover have "r\<lparr>rr_br := b\<rparr>\<lparr>rr_br := b', rr_lastAckCount := v\<rparr> = r\<lparr>rr_br := b', rr_lastAckCount := v\<rparr>"
    for b' v by simp
  ultimately obtain b' v w' where b': "br_pending b' = ?more"
    and rm: "readMessage onAck (chunk_type c) (?rc, r\<lparr>rr_br := b\<rparr>, w) =
      (let r' = r\<lparr>rr_br := b', rr_lastAckCount := v\<rparr> in
       if body_len m \<noteq> of_nat (length (first_part (rr_chunkSize r) m))
       then (Inr None, (?h\<lparr>curBody := Some (first_part (rr_chunkSize r) m)\<rparr>, r', w'))
       else finish_message (to_ms (m_Timestamp m)) (m_Type m) (m_MessageStreamID m)
         (first_part (rr_chunkSize r) m) (?h, r', w'))"
    unfolding hdr wf(3) Let_def by metis
  have ts: "m_Timestamp m = of_ms (to_ms (m_Timestamp m))" and L: "length (m_Body m) < 2 ^ 24"
    using send by (simp_all add: sendable_def)
  have neq: "(body_len m \<noteq> of_nat (length (first_part (rr_chunkSize r) m))) = (?cs < length (m_Body m))"
    using of_nat_len_neq [of "body_len m" "[]" "m_Body m" ?cs] unat_body_len [OF L] by simp
  let ?r' = "r\<lparr>rr_br := b', rr_lastAckCount := v\<rparr>"
  show ?thesis
  proof (cases "?cs < length (m_Body m)")
    case False
    then have "RawReader_Read onAck (r, w) =
        (Inr m, (?r'\<lparr>rr_chunkStreams := (rr_chunkStreams r)(m_ChunkStreamID m \<mapsto> ?h), rr_msg := m\<rparr>, w'))"
      using neq ts by (simp add: round rm after_round_def finish_message_def Let_def)
    with b' False show ?thesis by (simp add: reads_message_def)
  next
    case True
    let ?rc' = "?h\<lparr>curBody := Some (first_part (rr_chunkSize r) m)\<rparr>"
    let ?r2 = "?r'\<lparr>rr_chunkStreams := (rr_chunkStreams r)(m_ChunkStreamID m \<mapsto> ?rc')\<rparr>"
    have step: "RawReader_Read onAck (r, w) = RawReader_Read onAck (?r2, w')"
      using True neq by (simp add: round rm after_round_def Let_def)
    have "reads_message onAck (?r2, w') m (?rc'\<lparr>curBody := None\<rparr>) rest"
      by (rule reads_rest [OF ack _ _, where i = "m_ChunkStreamID m" and bs = "m_Body m"
            and ts = "to_ms (m_Timestamp m)" and t = "m_Type m" and msid = "m_MessageStreamID m"
            and n = "body_len m" and ?b0.0 = "first_part (rr_chunkSize r) m" and xs = "drop ?cs (m_Body m)"])
         (use True send ts b' cs unat_body_len [OF L] in \<open>simp_all add: header_of_def sendable_def\<close>)
    then show ?thesis by (simp add: reads_message_def step header_of_def)
  qed
qed

section \<open>Writer and reader together\<close>

definition streams_in_sync :: "RawWriter \<Rightarrow> RawReader \<Rightarrow> bool" where
  "streams_in_sync w r \<longleftrightarrow>
     rr_chunkSize r = rw_chunkSize w \<and> rw_ok w \<and> (\<forall>i. in_sync (wcs_of w i) (rcs_of r i))"

text \<open>After the message, the delta that the writer remembers is one that the reader knows.\<close>

definition stays_in_sync :: "writerChunkStream \<Rightarrow> RawMessage \<Rightarrow> bool" where
  "stays_in_sync wc m \<longleftrightarrow>
     \<not> uses_type0 wc m \<or> timestamp_delta wc m = None \<and> lastTimestampDelta wc = None"

definition after_message :: "writerChunkStream \<Rightarrow> RawMessage \<Rightarrow> writerChunkStream" where
  "after_message wc m = remember m (timestamp_delta wc m) (body_len m) wc"

lemma in_sync_after:
  assumes sync: "in_sync wc rc" and send: "sendable wc m" and stays: "stays_in_sync wc m"
  shows "in_sync (after_message wc m)
    (header_of m (if uses_type0 wc m then None else map_option to_ms (timestamp_delta wc m)))"
proof -
  have "m_Timestamp m = of_ms (to_ms (m_Timestamp m))" using send by (simp add: sendable_def)
  with stays show ?thesis
    by (cases "timestamp_delta wc m")
       (auto simp: in_sync_def after_message_def remember_def header_of_def stays_in_sync_def
         uses_type0_def wcs_ok_def)
qed

lemma write_read_message:
  assumes ack: "ack_ok onAck" and w: "rw_ready w" and ok: "rw_ok w"
    and send: "sendable (wcs_of w (m_ChunkStreamID m)) m"
  defines "wc \<equiv> wcs_of w (m_ChunkStreamID m)"
  shows "\<exists>w' bytes. RawWriter_Write m w = (Inr (), w') \<and> rw_ready w' \<and> rw_ok w' \<and>
    rw_checkAcknowledge w' = rw_checkAcknowledge w \<and> bw_buf (rw_bw w') = [] \<and>
    bw_stream (rw_bw w') = bw_stream (rw_bw w) @ bytes \<and>
    wcs_of w' = (wcs_of w)(m_ChunkStreamID m := after_message wc m) \<and>
    (\<forall>r v rest. streams_in_sync w r \<longrightarrow> rr_pending r = bytes @ rest \<longrightarrow>
       (\<exists>r' v'. RawReader_Read onAck (r, v) = (Inr m, (r', v')) \<and> rr_pending r' = rest \<and>
          rcs_of r' (m_ChunkStreamID m) =
            header_of m (if uses_type0 wc m then None else map_option to_ms (timestamp_delta wc m)) \<and>
          (stays_in_sync wc m \<longrightarrow> streams_in_sync w' r')))"
proof -
  let ?i = "m_ChunkStreamID m"
  have L: "length (m_Body m) < 2 ^ 32" using send by (simp add: sendable_def)
  from RawWriter_Write_ready [OF L w ok, folded wcs_of_def] obtain c b where
    c: "first_chunk wc m (timestamp_delta wc m) (body_len m) (first_part (rw_chunkSize w) m) = Inr c"
    and wr: "RawWriter_Write m w =
        (Inr (), w\<lparr>rw_bw := b, rw_chunkStreams := (rw_chunkStreams w)(?i \<mapsto> after_message wc m)\<rparr>)"
    and b: "bw_healthy b" "bw_buf b = []"
      "bw_stream b = bw_stream (rw_bw w) @ message_bytes (rw_chunkSize w) c m"
    by (auto simp: wc_def after_message_def)
  let ?w' = "w\<lparr>rw_bw := b, rw_chunkStreams := (rw_chunkStreams w)(?i \<mapsto> after_message wc m)\<rparr>"
  have wcs: "wcs_of ?w' = (wcs_of w)(?i := after_message wc m)"
    by (auto simp: wcs_of_def fun_eq_iff)
  have ok': "rw_ok ?w'" using ok by (simp add: rw_ok_def after_message_def)
  have read: "\<exists>r' v'. RawReader_Read onAck (r, v) = (Inr m, (r', v')) \<and> rr_pending r' = rest \<and>
          rcs_of r' ?i =
            header_of m (if uses_type0 wc m then None else map_option to_ms (timestamp_delta wc m)) \<and>
          (stays_in_sync wc m \<longrightarrow> streams_in_sync ?w' r')"
    if sync: "streams_in_sync w r" and pend: "rr_pending r = message_bytes (rw_chunkSize w) c m @ rest"
    for r v rest
  proof -
    have cs: "rr_chunkSize r = rw_chunkSize w" and s: "in_sync (wcs_of w j) (rcs_of r j)" for j
      using sync by (simp_all add: streams_in_sync_def)
    define h where
      "h = header_of m (if uses_type0 wc m then None else map_option to_ms (timestamp_delta wc m))"
    have "reads_message onAck (r, v) m h rest"
      unfolding h_def
      by (rule reads_message_bytes [OF ack s [of ?i, folded wc_def] send [folded wc_def]])
         (use cs w c pend in \<open>simp_all add: rw_ready_def\<close>)
    then obtain r' v' where r': "RawReader_Read onAck (r, v) = (Inr m, (r', v'))" "rr_pending r' = rest"
        "rr_chunkSize r' = rr_chunkSize r" "rr_chunkStreams r' = (rr_chunkStreams r)(?i \<mapsto> h)"
      by (auto simp: reads_message_def)
    have rcs: "rcs_of r' = (rcs_of r)(?i := h)"
      using r'(4) by (auto simp: rcs_of_def fun_eq_iff)
    have "streams_in_sync ?w' r'" if "stays_in_sync wc m"
      using in_sync_after [OF s [of ?i, folded wc_def] send [folded wc_def] that, folded h_def] s cs r'(3) ok'
      by (simp add: streams_in_sync_def wcs rcs)
    moreover have "rcs_of r' ?i = h" by (simp add: rcs)
    ultimately show ?thesis using r' unfolding h_def by blast
  qed
  have "rw_ready ?w'" using w b(1) by (simp add: rw_ready_def)
  with wr b wcs read ok' show ?thesis
    by (intro exI [of _ ?w'] exI [of _ "message_bytes (rw_chunkSize w) c m"]) simp
qed

section \<open>Sequences of messages\<close>

fun write_all :: "RawMessage list \<Rightarrow> (RawWriter, unit) io" where
  "write_all [] = returnIO ()"
| "write_all (m # ms) = bindIO (RawWriter_Write m) (\<lambda>_. write_all ms)"

fun read_all :: "(u32 \<Rightarrow> ('w, unit) io) \<Rightarrow> nat \<Rightarrow> (RawReader \<times> 'w, RawMessage list) io" where
  "read_all onAckNeeded 0 = returnIO []"
| "read_all onAckNeeded (Suc n) =
     bindIO (RawReader_Read onAckNeeded) (\<lambda>m. bindIO (read_all onAckNeeded n) (\<lambda>ms. returnIO (m # ms)))"

fun sendable_all :: "(byte \<Rightarrow> writerChunkStream) \<Rightarrow> RawMessage list \<Rightarrow> bool" where
  "sendable_all st [] = True"
| "sendable_all st (m # ms) =
     (let wc = st (m_ChunkStreamID m) in
      sendable wc m \<and> stays_in_sync wc m \<and>
      sendable_all (st(m_ChunkStreamID m := after_message wc m)) ms)"

lemma write_read_all:
  assumes ack: "ack_ok onAck"
  shows "rw_ready w \<Longrightarrow> rw_ok w \<Longrightarrow> sendable_all (wcs_of w) ms \<Longrightarrow>
    \<exists>w' bytes. write_all ms w = (Inr (), w') \<and> rw_ready w' \<and> rw_ok w' \<and>
      (bw_buf (rw_bw w) = [] \<longrightarrow> bw_buf (rw_bw w') = []) \<and>
      bw_stream (rw_bw w') = bw_stream (rw_bw w) @ bytes \<and>
      (\<forall>r v rest. streams_in_sync w r \<longrightarrow> rr_pending r = bytes @ rest \<longrightarrow>
         (\<exists>r' v'. read_all onAck (length ms) (r, v) = (Inr ms, (r', v')) \<and> rr_pending r' = rest \<and>
            streams_in_sync w' r'))"
proof (induction ms arbitrary: w)
  case Nil
  then show ?case by (simp add: returnIO_def)
next
  case (Cons m ms)
  let ?wc = "wcs_of w (m_ChunkStreamID m)"
  have send: "sendable ?wc m" and stays: "stays_in_sync ?wc m"
    using Cons.prems(3) by (simp_all add: Let_def)
  from write_read_message [OF ack Cons.prems(1,2) send] stays obtain w1 bytes1 where
    w1: "RawWriter_Write m w = (Inr (), w1)" "rw_ready w1" "rw_ok w1" "bw_buf (rw_bw w1) = []"
      "bw_stream (rw_bw w1) = bw_stream (rw_bw w) @ bytes1"
      "wcs_of w1 = (wcs_of w)(m_ChunkStreamID m := after_message ?wc m)"
    and r1: "\<And>r v rest. streams_in_sync w r \<Longrightarrow> rr_pending r = bytes1 @ rest \<Longrightarrow>
       \<exists>r' v'. RawReader_Read onAck (r, v) = (Inr m, (r', v')) \<and> rr_pending r' = rest \<and>
          streams_in_sync w1 r'"
    by blast
  have "sendable_all (wcs_of w1) ms" using Cons.prems(3) by (simp add: w1(6) Let_def)
  from Cons.IH [OF w1(2,3) this] w1(4) obtain w2 bytes2 where
    w2: "write_all ms w1 = (Inr (), w2)" "rw_ready w2" "rw_ok w2" "bw_buf (rw_bw w2) = []"
      "bw_stream (rw_bw w2) = bw_stream (rw_bw w1) @ bytes2"
    and r2: "\<And>r v rest. streams_in_sync w1 r \<Longrightarrow> rr_pending r = bytes2 @ rest \<Longrightarrow>
       \<exists>r' v'. read_all onAck (length ms) (r, v) = (Inr ms, (r', v')) \<and> rr_pending r' = rest \<and>
          streams_in_sync w2 r'"
    by blast
  have "\<exists>r' v'. read_all onAck (length (m # ms)) (r, v) = (Inr (m # ms), (r', v')) \<and> rr_pending r' = rest \<and>
      streams_in_sync w2 r'"
    if s: "streams_in_sync w r" and p: "rr_pending r = (bytes1 @ bytes2) @ rest" for r v rest
  proof -
    from r1 [of r "bytes2 @ rest" v] s p obtain r' v' where
      a: "RawReader_Read onAck (r, v) = (Inr m, (r', v'))" "rr_pending r' = bytes2 @ rest" "streams_in_sync w1 r'"
      by auto
    from r2 [OF a(3,2), of v'] obtain r'' v'' where
      "read_all onAck (length ms) (r', v') = (Inr ms, (r'', v''))" "rr_pending r'' = rest" "streams_in_sync w2 r''"
      by blast
    with a(1) show ?thesis by (simp add: bindIO_def returnIO_def)
  qed
  then show ?case
    using w1(1,5) w2 by (intro exI [of _ w2] exI [of _ "bytes1 @ bytes2"]) (simp add: bindIO_def)
qed

end
