(* ===== verification/RawStream.thy ===== *)
theory RawStream
  imports RawRoundtrip
begin

text \<open>
  Sequences of raw messages over a fresh writer and a fresh reader: the round trip for messages that
  fit the wire format and whose chunk streams are well paced, the loss of synchronisation after a
  full header, and when the loop of the writer ends.
\<close>

section \<open>Messages that arrive\<close>

definition wire_ok :: "RawMessage \<Rightarrow> bool" where
  "wire_ok m \<longleftrightarrow>
     m_ChunkStreamID m AND 0x3F = m_ChunkStreamID m \<and> length (m_Body m) < 2 ^ 24 \<and>
     m_Timestamp m = of_ms (to_ms (m_Timestamp m)) \<and> unat (to_ms (m_Timestamp m)) < 2 ^ 24"

text \<open>
  Within a chunk stream, the message stream id does not change and the timestamps do not go back.
\<close>

definition follows :: "RawMessage \<Rightarrow> RawMessage \<Rightarrow> bool" where
  "follows m m' \<longleftrightarrow>
     (m_ChunkStreamID m = m_ChunkStreamID m' \<longrightarrow>
      m_MessageStreamID m = m_MessageStreamID m' \<and> m_Timestamp m \<le> m_Timestamp m')"

fun paced :: "RawMessage list \<Rightarrow> bool" where
  "paced [] = True"
| "paced (m # ms) = (wire_ok m \<and> list_all (follows m) ms \<and> paced ms)"

text \<open>What the writer remembers of a chunk stream whose next message is \<open>m\<close>.\<close>

definition fits :: "writerChunkStream \<Rightarrow> RawMessage \<Rightarrow> bool" where
  "fits wc m \<longleftrightarrow>
     lastMessageStreamID wc = None \<and> lastTimestamp wc = None \<and> lastTimestampDelta wc = None \<or>
     lastMessageStreamID wc = Some (m_MessageStreamID m) \<and>
     (\<exists>k. lastTimestamp wc = Some (of_ms k) \<and> of_ms k \<le> m_Timestamp m)"

lemma timestamp_delta_ms:
  assumes "lastTimestamp wc = Some (of_ms k)" and "m_Timestamp m = of_ms k'" and "of_ms k \<le> of_ms k'"
  shows "timestamp_delta wc m = Some (of_ms (k' - k))"
proof -
  have u: "0 \<le> uint k" "uint k \<le> uint k'" "uint k' < 4294967296"
    using assms(3) by (simp_all add: uint_u32_less of_ms_eq)
  have "of_ms k' - of_ms k = of_ms (k' - k)"
    using u by (simp add: of_ms_eq uint_sub_if' algebra_simps)
  then show ?thesis
    using assms wrap64_of_ms_diff [of k' k] by (simp add: timestamp_delta_def Let_def)
qed

lemma unat_diff_le:
  fixes k k' :: u32
  assumes "of_ms k \<le> of_ms k'"
  shows "unat (k' - k) \<le> unat k'"
  using assms by (simp add: of_ms_eq unat_sub word_le_def)

lemma fits_sendable:
  assumes "fits wc m" and "wire_ok m"
  shows "sendable wc m" "stays_in_sync wc m"
proof -
  let ?k = "to_ms (m_Timestamp m)"
  have ts: "m_Timestamp m = of_ms ?k" using assms(2) by (simp add: wire_ok_def)
  consider (new) "uses_type0 wc m" "timestamp_delta wc m = None" "lastTimestampDelta wc = None"
    | (old) k where "\<not> uses_type0 wc m" "timestamp_delta wc m = Some (of_ms (?k - k))" "unat (?k - k) \<le> unat ?k"
  proof (cases "lastMessageStreamID wc")
    case None
    with assms(1) show ?thesis
      by (intro new) (auto simp: fits_def uses_type0_def timestamp_delta_def)
  next
    case (Some i)
    with assms(1) obtain k where k: "lastMessageStreamID wc = Some (m_MessageStreamID m)"
        "lastTimestamp wc = Some (of_ms k)" "of_ms k \<le> m_Timestamp m"
      by (auto simp: fits_def)
    have le: "of_ms k \<le> of_ms ?k" using k(3) ts by simp
    from old [of k] timestamp_delta_ms [OF k(2) ts le] unat_diff_le [OF le] k(1) show ?thesis
      by (simp add: uses_type0_def)
  qed
  then show "sendable wc m" "stays_in_sync wc m"
    using assms(2) by (cases; simp add: sendable_def wire_ok_def stays_in_sync_def)+
qed

lemma fits_after:
  assumes "fits wc m" and "wire_ok m" and "follows m m'" and "m_ChunkStreamID m' = m_ChunkStreamID m"
  shows "fits (after_message wc m) m'"
  using assms by (auto simp: fits_def after_message_def remember_def follows_def wire_ok_def)

lemma paced_sendable:
  "paced ms \<Longrightarrow> \<forall>m\<in>set ms. fits (st (m_ChunkStreamID m)) m \<Longrightarrow> sendable_all st ms"
proof (induction ms arbitrary: st)
  case (Cons m ms)
  let ?wc = "st (m_ChunkStreamID m)"
  have m: "fits ?wc m" "wire_ok m" using Cons.prems by simp_all
  have "\<forall>m'\<in>set ms. fits ((st(m_ChunkStreamID m := after_message ?wc m)) (m_ChunkStreamID m')) m'"
    using Cons.prems fits_after [OF m] by (auto simp: list_all_iff)
  with Cons m show ?case by (simp add: Let_def fits_sendable)
qed simp

section \<open>From a fresh writer to a fresh reader\<close>

definition fresh_writer :: "bool \<Rightarrow> RawWriter" where
  "fresh_writer checkAcknowledge =
     RawWriter_New (bc_NewWriter \<lparr>co_sent = [], co_limit = None\<rparr>) checkAcknowledge"

definition sent_by :: "RawWriter \<Rightarrow> byte list" where
  "sent_by w = co_sent (bcw_w (bw_wr (rw_bw w)))"

lemma fresh_writer_facts:
  "rw_ready (fresh_writer ca)" "rw_ok (fresh_writer ca)" "bw_stream (rw_bw (fresh_writer ca)) = []"
  "bw_buf (rw_bw (fresh_writer ca)) = []" "wcs_of (fresh_writer ca) = (\<lambda>_. new_writerChunkStream)"
  by (simp_all add: fresh_writer_def RawWriter_New_def rw_ready_def rw_ok_def bufio_NewWriter_def
      bw_healthy_def bc_healthy_def bc_NewWriter_def bw_stream_def bc_stream_def wcs_of_def fun_eq_iff
      bufio_size_def)

lemma fresh_in_sync: "streams_in_sync (fresh_writer ca) (RawReader_New r)"
  using fresh_writer_facts [of ca]
  by (simp add: streams_in_sync_def in_sync_def rcs_of_def RawReader_New_def new_readerChunkStream_def
      new_writerChunkStream_def fresh_writer_def RawWriter_New_def wcs_ok_def)

lemma fresh_pending: "rr_pending (RawReader_New (bc_NewReader segs)) = concat segs"
  by (simp add: rr_pending_def RawReader_New_def br_pending_def bufio_NewReader_def bc_pending_def
      bc_NewReader_def)

lemma sent_by_stream: "bw_buf (rw_bw w) = [] \<Longrightarrow> sent_by w = bw_stream (rw_bw w)"
  by (simp add: sent_by_def bw_stream_def bc_stream_def)

lemma fits_new: "fits new_writerChunkStream m"
  by (simp add: fits_def new_writerChunkStream_def)

text \<open>
  C23. Messages that fit the wire format and whose chunk streams are well paced (one message stream
  id per chunk stream, timestamps that do not go back) are written without an error by a fresh raw
  message writer, and a fresh raw message reader returns exactly these messages in this order, in
  whatever segments the bytes arrive and whichever chunk streams are interleaved, leaving nothing.
\<close>

theorem rawmessage_roundtrip:
  assumes "ack_ok onAck" and "paced ms"
  shows "\<exists>w'. write_all ms (fresh_writer ca) = (Inr (), w') \<and>
    (\<forall>segs v. concat segs = sent_by w' \<longrightarrow>
       (\<exists>r' v'. read_all onAck (length ms) (RawReader_New (bc_NewReader segs), v) = (Inr ms, (r', v')) \<and>
          rr_pending r' = []))"
proof -
  have "sendable_all (wcs_of (fresh_writer ca)) ms"
    using assms(2) by (simp add: paced_sendable fits_new fresh_writer_facts)
  from write_read_all [OF assms(1) fresh_writer_facts(1,2) this] obtain w' bytes where
    w': "write_all ms (fresh_writer ca) = (Inr (), w')" "bw_buf (rw_bw w') = []" "bw_stream (rw_bw w') = bytes"
    and r: "\<And>r v rest. streams_in_sync (fresh_writer ca) r \<Longrightarrow> rr_pending r = bytes @ rest \<Longrightarrow>
       \<exists>r' v'. read_all onAck (length ms) (r, v) = (Inr ms, (r', v')) \<and> rr_pending r' = rest"
    unfolding fresh_writer_facts append_Nil by blast
  have "\<exists>r' v'. read_all onAck (length ms) (RawReader_New (bc_NewReader segs), v) = (Inr ms, (r', v')) \<and>
          rr_pending r' = []" if "concat segs = sent_by w'" for segs v
    using r [OF fresh_in_sync, where rest = "[]"] that w'(2,3) by (simp add: fresh_pending sent_by_stream)
  with w'(1) show ?thesis by blast
qed

definition sample_messages :: "RawMessage list" where
  "sample_messages =
     [\<lparr>m_ChunkStreamID = 5, m_Timestamp = of_ms 0, m_Type = 8, m_MessageStreamID = 1, m_Body = [1, 2, 3]\<rparr>,
      \<lparr>m_ChunkStreamID = 6, m_Timestamp = of_ms 4, m_Type = 9, m_MessageStreamID = 1, m_Body = replicate 300 7\<rparr>,
      \<lparr>m_ChunkStreamID = 5, m_Timestamp = of_ms 20, m_Type = 8, m_MessageStreamID = 1, m_Body = [4, 5, 6]\<rparr>]"

theorem rawmessage_roundtrip_witness:
  "\<exists>w'. write_all sample_messages (fresh_writer True) = (Inr (), w') \<and>
    (\<forall>segs v. concat segs = sent_by w' \<longrightarrow>
       (\<exists>r' v'. read_all (\<lambda>_. returnIO ()) (length sample_messages)
            (RawReader_New (bc_NewReader segs), v :: unit) = (Inr sample_messages, (r', v')) \<and>
          rr_pending r' = []))"
proof (rule rawmessage_roundtrip)
  show "ack_ok (\<lambda>_. returnIO ())" by (simp add: ack_ok_def returnIO_def)
  show "paced sample_messages"
    by (simp add: sample_messages_def wire_ok_def follows_def) (simp add: of_ms_eq)
qed

section \<open>Loss of synchronisation\<close>

text \<open>A reader that has just read a full header rejects a chunk of type 3 that starts a message.\<close>

lemma type3_rejected:
  assumes "rcs_of r (c3_ChunkStreamID c) = header_of m None"
    and "rr_pending r = chunk_Marshal (K3 c) @ rest" and "c3_ChunkStreamID c AND 0x3F = c3_ChunkStreamID c"
  shows "fst (RawReader_Read onAck (r, v)) = Inl (Err ''received type 3 chunk without previous chunk'')"
proof -
  obtain b where "RawReader_Read onAck (r, v) = after_round onAck (c3_ChunkStreamID c)
      (readMessage onAck 3 (rcs_of r (c3_ChunkStreamID c), r\<lparr>rr_br := b\<rparr>, v))"
    using Read_round_chunk [OF assms(2), of onAck v] assms(3) by auto
  then show ?thesis
    by (simp add: assms(1) readMessage_def readMessage3_def after_round_def)
qed

lemma sendable_type0: "uses_type0 wc m \<Longrightarrow> wire_ok m \<Longrightarrow> sendable wc m"
  by (simp add: sendable_def wire_ok_def)

text \<open>The third message repeats the header and the delta of the second one.\<close>

definition steady :: "RawMessage \<Rightarrow> RawMessage \<Rightarrow> RawMessage \<Rightarrow> bool" where
  "steady m1 m2 m3 \<longleftrightarrow>
     m_MessageStreamID m3 = m_MessageStreamID m2 \<and> m_Type m3 = m_Type m2 \<and>
     length (m_Body m3) = length (m_Body m2) \<and> m_Timestamp m1 \<le> m_Timestamp m2 \<and>
     m_Timestamp m3 - m_Timestamp m2 = m_Timestamp m2 - m_Timestamp m1"

lemma steady_first_chunk:
  assumes "steady m1 m2 m3" and "wire_ok m1" "wire_ok m2" "wire_ok m3"
  defines "wc \<equiv> after_message (after_message new_writerChunkStream m1) m2"
  shows "first_chunk wc m3 (timestamp_delta wc m3) (body_len m3) part =
    Inr (K3 \<lparr>c3_ChunkStreamID = m_ChunkStreamID m3, c3_Body = part\<rparr>)"
proof -
  have ts: "m_Timestamp m = of_ms (to_ms (m_Timestamp m))" if "m \<in> {m1, m2, m3}" for m
    using assms(2-4) that by (auto simp: wire_ok_def)
  have w: "wrap64 (m_Timestamp a - m_Timestamp b) = m_Timestamp a - m_Timestamp b"
    if "a \<in> {m1, m2, m3}" "b \<in> {m1, m2, m3}" for a b
    using wrap64_of_ms_diff ts [OF that(1)] ts [OF that(2)] by metis
  have "timestamp_delta wc m3 = Some (m_Timestamp m2 - m_Timestamp m1)"
    "lastTimestampDelta wc = Some (m_Timestamp m2 - m_Timestamp m1)"
    using assms(1) w [of m2 m1] w [of m3 m2]
    by (simp_all add: wc_def after_message_def remember_def timestamp_delta_def Let_def steady_def)
  then show ?thesis
    using assms(1) by (simp add: first_chunk_def wc_def after_message_def remember_def steady_def Let_def)
qed

text \<open>
  C33. The writer and the reader disagree after a change of the message stream id inside a chunk
  stream.  The full header (a chunk of type 0) that the change causes makes the reader forget the
  timestamp delta, but the writer records the delta of that message; a third message with the same
  delta, type and length is therefore written, without an error, as a chunk of type 3, which the
  reader rejects.
\<close>

theorem type3_after_type0_rejected:
  assumes ack: "ack_ok onAck" and ok: "wire_ok m1" "wire_ok m2" "wire_ok m3"
    and ids: "m_ChunkStreamID m2 = m_ChunkStreamID m1" "m_ChunkStreamID m3 = m_ChunkStreamID m1"
    and msid: "m_MessageStreamID m2 \<noteq> m_MessageStreamID m1" and st: "steady m1 m2 m3"
  shows "\<exists>w'. write_all [m1, m2, m3] (fresh_writer ca) = (Inr (), w') \<and>
    (\<forall>segs v. concat segs = sent_by w' \<longrightarrow>
       fst (read_all onAck 3 (RawReader_New (bc_NewReader segs), v)) =
         Inl (Err ''received type 3 chunk without previous chunk''))"
proof -
  let ?i = "m_ChunkStreamID m1" and ?w = "fresh_writer ca" and ?wc0 = new_writerChunkStream
  let ?wc1 = "after_message ?wc0 m1"
  note w0 = fresh_writer_facts [of ca]
  have "sendable (wcs_of ?w ?i) m1" "stays_in_sync (wcs_of ?w ?i) m1"
    using fits_sendable [OF fits_new ok(1)] by (simp_all add: w0)
  from write_read_message [OF ack w0(1,2) this(1)] this(2) obtain w1 b1 where
    w1: "RawWriter_Write m1 ?w = (Inr (), w1)" "rw_ready w1" "rw_ok w1" "bw_stream (rw_bw w1) = b1"
      "wcs_of w1 ?i = ?wc1"
    and r1: "\<And>r v rest. streams_in_sync ?w r \<Longrightarrow> rr_pending r = b1 @ rest \<Longrightarrow>
       \<exists>r' v'. RawReader_Read onAck (r, v) = (Inr m1, (r', v')) \<and> rr_pending r' = rest \<and> streams_in_sync w1 r'"
    unfolding w0 append_Nil by (metis fun_upd_same)
  have t0: "uses_type0 ?wc1 m2" using msid by (simp add: uses_type0_def after_message_def remember_def)
  then have "sendable (wcs_of w1 (m_ChunkStreamID m2)) m2" by (simp add: ids w1(5) sendable_type0 ok)
  from write_read_message [OF ack w1(2,3) this, unfolded ids w1(4,5)] t0 obtain w2 b2 where
    w2: "RawWriter_Write m2 w1 = (Inr (), w2)" "rw_ready w2" "rw_ok w2" "bw_stream (rw_bw w2) = b1 @ b2"
      "wcs_of w2 ?i = after_message ?wc1 m2"
    and r2: "\<And>r v rest. streams_in_sync w1 r \<Longrightarrow> rr_pending r = b2 @ rest \<Longrightarrow>
       \<exists>r' v'. RawReader_Read onAck (r, v) = (Inr m2, (r', v')) \<and> rr_pending r' = rest \<and>
         rcs_of r' ?i = header_of m2 None"
    by (metis fun_upd_same)
  have L: "length (m_Body m3) < 2 ^ 32" using ok(3) by (simp add: wire_ok_def)
  let ?c = "K3 \<lparr>c3_ChunkStreamID = ?i, c3_Body = first_part (rw_chunkSize w2) m3\<rparr>"
  from RawWriter_Write_ready [OF L w2(2,3), folded wcs_of_def, unfolded ids w2(5)]
    steady_first_chunk [OF st ok] obtain w3 rest where
    w3: "RawWriter_Write m3 w2 = (Inr (), w3)" "bw_buf (rw_bw w3) = []"
      "bw_stream (rw_bw w3) = b1 @ b2 @ chunk_Marshal ?c @ rest"
    by (fastforce simp: w2(4) message_bytes_def ids)
  have "fst (read_all onAck 3 (RawReader_New (bc_NewReader segs), v)) =
         Inl (Err ''received type 3 chunk without previous chunk'')"
    if s: "concat segs = sent_by w3" for segs v
  proof -
    have "rr_pending (RawReader_New (bc_NewReader segs)) = b1 @ b2 @ chunk_Marshal ?c @ rest"
      using s w3 by (simp add: fresh_pending sent_by_stream)
    from r1 [OF fresh_in_sync this, of v] obtain r' v' where
      a: "RawReader_Read onAck (RawReader_New (bc_NewReader segs), v) = (Inr m1, (r', v'))"
        "rr_pending r' = b2 @ chunk_Marshal ?c @ rest" "streams_in_sync w1 r'" by blast
    from r2 [OF a(3,2), of v'] obtain r'' v'' where
      b: "RawReader_Read onAck (r', v') = (Inr m2, (r'', v''))" "rr_pending r'' = chunk_Marshal ?c @ rest"
        "rcs_of r'' ?i = header_of m2 None" by blast
    have "fst (RawReader_Read onAck (r'', v'')) = Inl (Err ''received type 3 chunk without previous chunk'')"
      by (rule type3_rejected [OF _ b(2)]) (use b(3) ok(1) in \<open>simp_all add: wire_ok_def\<close>)
    then show ?thesis
      using a(1) b(1) by (cases "RawReader_Read onAck (r'', v'')") (simp add: numeral_3_eq_3 bindIO_def)
  qed
  with w1(1) w2(1) w3(1) show ?thesis by (auto simp: bindIO_def returnIO_def)
qed

definition sample_at :: "u32 \<Rightarrow> u32 \<Rightarrow> RawMessage" where
  "sample_at ms msid =
     \<lparr>m_ChunkStreamID = 6, m_Timestamp = of_ms ms, m_Type = 9, m_MessageStreamID = msid, m_Body = [1, 2]\<rparr>"

theorem type3_after_type0_rejected_witness:
  "\<exists>w'. write_all [sample_at 0 1, sample_at 40 2, sample_at 80 2] (fresh_writer False) = (Inr (), w') \<and>
    (\<forall>segs v. concat segs = sent_by w' \<longrightarrow>
       fst (read_all (\<lambda>_. returnIO ()) 3 (RawReader_New (bc_NewReader segs), v :: unit)) =
         Inl (Err ''received type 3 chunk without previous chunk''))"
  by (rule type3_after_type0_rejected)
     (simp_all add: ack_ok_def returnIO_def wire_ok_def sample_at_def steady_def, simp_all add: of_ms_eq)

section \<open>When the loop of the writer ends\<close>

lemma writeChunk_chunkSize: "writeChunk c w = (res, w') \<Longrightarrow> rw_chunkSize w' = rw_chunkSize w"
  by (auto simp: writeChunk_def split: if_splits prod.splits)

lemma writeMessage_loop_fuel:
  assumes L: "length (m_Body msg) < 2 ^ 32"
  shows "0 < unat (rw_chunkSize w) \<Longrightarrow> unat pos \<le> length (m_Body msg) \<Longrightarrow>
    length (m_Body msg) - unat pos < fuel \<Longrightarrow> length (m_Body msg) - unat pos < fuel' \<Longrightarrow>
    writeMessage_loop fuel msg delta first pos (wc, w) = writeMessage_loop fuel' msg delta first pos (wc, w)"
proof (induction fuel arbitrary: fuel' first pos wc w)
  case 0
  then show ?case by simp
next
  case (Suc fuel)
  let ?L = "length (m_Body msg)" and ?cs = "rw_chunkSize w"
  let ?n = "if of_nat ?L - pos > ?cs then ?cs else of_nat ?L - pos"
  obtain fuel1 where fuel': "fuel' = Suc fuel1" using Suc.prems(4) by (cases fuel') simp_all
  note ar = round_arith [OF L Suc.prems(2), of ?cs]
  have "writeMessage_loop fuel msg delta False (pos + ?n) (wc', w') =
      writeMessage_loop fuel1 msg delta False (pos + ?n) (wc', w')"
    if "rw_chunkSize w' = ?cs" "of_nat ?L - (pos + ?n) \<noteq> 0" for wc' w'
  proof (rule Suc.IH)
    have far: "unat ?cs < ?L - unat pos" using that(2) ar(3) by simp
    then have "unat (pos + ?n) = unat pos + unat ?cs" using ar(2) by simp
    with far Suc.prems fuel' show "unat (pos + ?n) \<le> ?L" "?L - unat (pos + ?n) < fuel"
        "?L - unat (pos + ?n) < fuel1"
      by simp_all
  qed (use that Suc.prems(1) in simp)
  then show ?case
    unfolding fuel' by (auto simp: Let_def dest: writeChunk_chunkSize split: sum.splits prod.splits)
qed

text \<open>
  C34. With a positive chunk size, the loop over the chunks of a message ends: any amount of fuel
  beyond one round per byte and one more gives the same result, whatever the connection does.
\<close>

theorem writeMessage_fuel:
  assumes "0 < unat (rw_chunkSize w)" and "length (m_Body msg) < 2 ^ 32" and "length (m_Body msg) < fuel"
  shows "writeMessage_loop fuel msg (timestamp_delta wc msg) True 0 (wc, w) = writeMessage msg (wc, w)"
  using writeMessage_loop_fuel [OF assms(2,1), of 0 fuel "Suc (length (m_Body msg))"] assms(3)
  by (simp add: writeMessage_def)

theorem writeMessage_fuel_witness:
  "writeMessage_loop 1000 (hd sample_messages) None True 0 (new_writerChunkStream, fresh_writer False) =
     writeMessage (hd sample_messages) (new_writerChunkStream, fresh_writer False)"
  using writeMessage_fuel [of "fresh_writer False" "hd sample_messages" 1000 new_writerChunkStream]
  by (simp add: fresh_writer_def RawWriter_New_def sample_messages_def timestamp_delta_def
      new_writerChunkStream_def)

lemma writeMessage_loop_zero:
  assumes body: "m_Body msg \<noteq> []" and L: "length (m_Body msg) < 2 ^ 32"
  shows "bw_healthy (rw_bw w) \<Longrightarrow> (rw_checkAcknowledge w \<longrightarrow> rw_ackWindowSize w = 0) \<Longrightarrow> rw_chunkSize w = 0 \<Longrightarrow>
    wcs_ok wc \<Longrightarrow> fst (writeMessage_loop fuel msg delta first 0 (wc, w)) = Inl NoProgress"
proof (induction fuel arbitrary: first wc w)
  case 0
  then show ?case by simp
next
  case (Suc fuel)
  have n: "(of_nat (length (m_Body msg)) :: u32) \<noteq> 0"
    using body unat_of_nat_u32 [OF L] by (metis length_0_conv unat_0)
  obtain c where c: "(if first then first_chunk wc msg delta (body_len msg) (subslice (m_Body msg) 0 0)
      else Inr (K3 \<lparr>c3_ChunkStreamID = m_ChunkStreamID msg, c3_Body = subslice (m_Body msg) 0 0\<rparr>)) = Inr c"
    using first_chunk_ok [OF Suc.prems(4), of msg delta "body_len msg" "subslice (m_Body msg) 0 0"]
    by (cases first) auto
  from bufio.write_ok [OF Suc.prems(1), of "chunk_Marshal c"] obtain b where
    b: "writeChunk c w = (Inr (), w\<lparr>rw_bw := b\<rparr>)" "bw_healthy b"
    using Suc.prems(2) by (auto simp: writeChunk_def)
  have "fst (writeMessage_loop fuel msg delta False 0
      (if first then remember msg delta (body_len msg) wc else wc, w\<lparr>rw_bw := b\<rparr>)) = Inl NoProgress"
    by (rule Suc.IH) (use Suc.prems b in auto)
  then show ?case using c b(1) n Suc.prems(3) by (cases first) (simp_all add: Let_def word_gt_0)
qed

text \<open>
  C40. With a chunk size of 0, which \<open>Writer.SetChunkSize\<close> accepts, a message with a body is never finished: the loop
  keeps writing empty chunks, whatever fuel it gets.
\<close>

theorem writeMessage_diverges:
  assumes "m_Body msg \<noteq> []" and "length (m_Body msg) < 2 ^ 32"
  shows "fst (writeMessage_loop fuel msg (timestamp_delta new_writerChunkStream msg) True 0
    (new_writerChunkStream, RawWriter_SetChunkSize 0 (fresh_writer ca))) = Inl NoProgress"
  by (rule writeMessage_loop_zero [OF assms])
     (use fresh_writer_facts [of ca] in \<open>simp_all add: RawWriter_SetChunkSize_def rw_ready_def\<close>)

theorem writeMessage_diverges_witness:
  "\<forall>fuel. fst (writeMessage_loop fuel (hd sample_messages) None True 0
     (new_writerChunkStream, RawWriter_SetChunkSize 0 (fresh_writer True))) = Inl NoProgress"
  using writeMessage_diverges [of "hd sample_messages" _ True]
  by (simp add: sample_messages_def timestamp_delta_def new_writerChunkStream_def)

section \<open>Hostile input\<close>

lemma read_all_safe:
  assumes np: "no_panic onAck"
  shows "rr_ok r \<Longrightarrow> read_all onAck n (r, v) = (res, (r', v')) \<Longrightarrow> rr_ok r' \<and> res \<noteq> Inl Panic"
proof (induction n arbitrary: r v res r' v')
  case 0
  then show ?case by (auto simp: returnIO_def)
next
  case (Suc n)
  obtain x r1 v1 where x: "RawReader_Read onAck (r, v) = (x, (r1, v1))" by (metis prod.collapse)
  note safe = RawReader_Read_safe [OF np Suc.prems(1) x]
  show ?case
  proof (cases x)
    case (Inl e)
    then show ?thesis using Suc.prems(2) x safe by (auto simp: bindIO_def)
  next
    case (Inr m)
    obtain y r2 v2 where y: "read_all onAck n (r1, v1) = (y, (r2, v2))" by (metis prod.collapse)
    then show ?thesis
      using Suc.prems(2) x Inr Suc.IH [OF _ y] safe
      by (cases y) (auto simp: bindIO_def returnIO_def)
  qed
qed

lemma rcs_ok_body:
  "rcs_ok rc \<Longrightarrow> curBody rc = Some body \<Longrightarrow>
   \<exists>k. curBodyLen rc = Some k \<and> length body < unat k \<and> unat k < 2 ^ 24"
  by (auto simp: rcs_ok_def new_readerChunkStream_def split: option.splits)

text \<open>
  C25. Whatever bytes the peer sends, in whatever segments: the reader never dereferences a nil
  pointer (no panic), and after any number of reads every chunk stream is either untouched or has a
  complete header and buffers fewer bytes than the 24-bit body length it declared.
\<close>

theorem raw_reader_never_panics:
  assumes "no_panic onAck"
    and "read_all onAck n (RawReader_New (bc_NewReader segs), v) = (res, (r', v'))"
  shows "res \<noteq> Inl Panic \<and>
    (\<forall>i rc body. rr_chunkStreams r' i = Some rc \<longrightarrow> curBody rc = Some body \<longrightarrow>
      (\<exists>k. curBodyLen rc = Some k \<and> length body < unat k \<and> unat k < 2 ^ 24))"
  using read_all_safe [OF assms(1) rr_ok_New assms(2)] rcs_ok_body by (auto simp: rr_ok_def)

theorem raw_reader_never_panics_witness:
  "fst (read_all (\<lambda>_. returnIO ()) 2 (RawReader_New (bc_NewReader [[0xC3, 0], [7]]), ())) \<noteq> Inl Panic"
proof -
  obtain res r' v' where r: "read_all (\<lambda>_. returnIO ()) 2 (RawReader_New (bc_NewReader [[0xC3, 0], [7]]), ()) =
      (res, (r', v'))" by (metis prod.collapse)
  have "no_panic (\<lambda>_. returnIO ())" by (simp add: no_panic_def returnIO_def)
  from raw_reader_never_panics [OF this r] show ?thesis by (simp add: r)
qed

end
