(* ===== verification/Flvio.thy ===== *)
theory Flvio
  imports Mtx_Prelude
begin

text \<open>
  What the sources use of \<open>github.com/notedit/rtmp/format/flv/flvio\<close>, which is not part of the
  repository: the AMF0 encoder and decoder and two constants of the FLV format are the fields of a
  record that the definitions take as a parameter.  The dynamic values (\<open>interface{}\<close>) that pass
  through it are a datatype, and so is \<open>float64\<close> as far as the conversions from and to \<open>int\<close> go.
\<close>

section \<open>float64\<close>

text \<open>
  A finite value is \<open>m * 2 ^ e\<close>.  The conversion from an integer rounds to 53 bits, half to even;
  the conversion to \<open>int\<close> truncates.  Go leaves the result for values out of range to the
  implementation; the model takes the one of amd64, the smallest \<open>int64\<close>.
\<close>

datatype float64 = F64 int int | F64_Inf bool | F64_NaN

fun f64_exp :: "nat \<Rightarrow> nat" where
  "f64_exp a = (if a < 2 ^ 53 then 0 else Suc (f64_exp (a div 2)))"

declare f64_exp.simps [simp del]

definition f64_of_int :: "int \<Rightarrow> float64" where
  "f64_of_int n =
     (let a = nat \<bar>n\<bar>; k = f64_exp a; q = a div 2 ^ k; r = a mod 2 ^ k;
          q' = (if 2 * r > 2 ^ k \<or> 2 * r = 2 ^ k \<and> odd q then q + 1 else q)
      in F64 (sgn n * int q') (int k))"

definition int_min :: int where
  "int_min = - (2 ^ 63)"

fun int_of_f64 :: "float64 \<Rightarrow> int" where
  "int_of_f64 (F64 m e) =
     (let v = (if e \<ge> 0 then m * 2 ^ nat e else m sdiv 2 ^ nat (- e))
      in if - (2 ^ 63) \<le> v \<and> v < 2 ^ 63 then v else int_min)"
| "int_of_f64 (F64_Inf s) = int_min"
| "int_of_f64 F64_NaN = int_min"

lemma int_of_f64_of_int:
  assumes "\<bar>n\<bar> < 2 ^ 53"
  shows "int_of_f64 (f64_of_int n) = n"
proof -
  have "nat \<bar>n\<bar> < 2 ^ 53" using assms by (simp add: nat_less_iff)
  then have "f64_exp (nat \<bar>n\<bar>) = 0" by (simp add: f64_exp.simps)
  then have "f64_of_int n = F64 n 0" by (simp add: f64_of_int_def Let_def sgn_mult_abs)
  then show ?thesis using assms by (simp add: Let_def abs_less_iff)
qed

section \<open>Dynamic values\<close>

text \<open>\<open>AOther\<close> is a value of any further dynamic type.\<close>

datatype amf =
  AString string | ANumber float64 | ABool bool | ANil | AMap "(string \<times> amf) list" | AOther nat

section \<open>The package\<close>

record flvio =
  ParseAMFVals :: "byte list \<Rightarrow> amf list result"
  FillAMF0ValsMalloc :: "amf list \<Rightarrow> byte list"
  FRAME_KEY :: u8
  FRAME_INTER :: u8

text \<open>
  The two frame types differ and fit the three bits that the FLV format has for them below the bit
  that marks an extended header; the decoder returns errors, it does not panic.
\<close>

definition flvio_ok :: "flvio \<Rightarrow> bool" where
  "flvio_ok fl \<longleftrightarrow> FRAME_KEY fl < 8 \<and> FRAME_INTER fl < 8 \<and> FRAME_KEY fl \<noteq> FRAME_INTER fl"

definition amf_no_panic :: "flvio \<Rightarrow> bool" where
  "amf_no_panic fl \<longleftrightarrow> (\<forall>b. ParseAMFVals fl b \<noteq> Inl Panic)"

end
