(* ===== verification/Message.thy ===== *)
theory Message
  imports RawReader Flvio
begin

text \<open>
  The RTMP messages of \<open>internal/rtmp/message\<close>: one record per message struct, its \<open>Unmarshal\<close> from
  and \<open>Marshal\<close> to a raw message, and \<open>allocateMessage\<close>, which picks the struct from the type and
  the first bytes of a raw message.  \<open>Unmarshal\<close> acts on a freshly allocated struct, so it is a
  function of the raw message alone.  An index or a slice expression out of range is the error \<open>Panic\<close>.
\<close>

section \<open>Constants\<close>

abbreviation (input) ControlChunkStreamID :: byte where "ControlChunkStreamID \<equiv> 2"

abbreviation (input) TypeSetChunkSize :: u8 where "TypeSetChunkSize \<equiv> 1"
abbreviation (input) TypeAbortMessage :: u8 where "TypeAbortMessage \<equiv> 2"
abbreviation (input) TypeAcknowledge :: u8 where "TypeAcknowledge \<equiv> 3"
abbreviation (input) TypeSetWindowAckSize :: u8 where "TypeSetWindowAckSize \<equiv> 5"
abbreviation (input) TypeSetPeerBandwidth :: u8 where "TypeSetPeerBandwidth \<equiv> 6"
abbreviation (input) TypeUserControl :: u8 where "TypeUserControl \<equiv> 4"
abbreviation (input) TypeCommandAMF3 :: u8 where "TypeCommandAMF3 \<equiv> 17"
abbreviation (input) TypeCommandAMF0 :: u8 where "TypeCommandAMF0 \<equiv> 20"
abbreviation (input) TypeDataAMF3 :: u8 where "TypeDataAMF3 \<equiv> 15"
abbreviation (input) TypeDataAMF0 :: u8 where "TypeDataAMF0 \<equiv> 18"
abbreviation (input) TypeAudio :: u8 where "TypeAudio \<equiv> 8"
abbreviation (input) TypeVideo :: u8 where "TypeVideo \<equiv> 9"

abbreviation (input) UserControlTypeStreamBegin :: u16 where "UserControlTypeStreamBegin \<equiv> 0"
abbreviation (input) UserControlTypeStreamEOF :: u16 where "UserControlTypeStreamEOF \<equiv> 1"
abbreviation (input) UserControlTypeStreamDry :: u16 where "UserControlTypeStreamDry \<equiv> 2"
abbreviation (input) UserControlTypeSetBufferLength :: u16 where "UserControlTypeSetBufferLength \<equiv> 3"
abbreviation (input) UserControlTypeStreamIsRecorded :: u16 where "UserControlTypeStreamIsRecorded \<equiv> 4"
abbreviation (input) UserControlTypePingRequest :: u16 where "UserControlTypePingRequest \<equiv> 6"
abbreviation (input) UserControlTypePingResponse :: u16 where "UserControlTypePingResponse \<equiv> 7"

abbreviation (input) ExtendedTypeSequenceStart :: u8 where "ExtendedTypeSequenceStart \<equiv> 0"
abbreviation (input) ExtendedTypeCodedFrames :: u8 where "ExtendedTypeCodedFrames \<equiv> 1"
abbreviation (input) ExtendedTypeSequenceEnd :: u8 where "ExtendedTypeSequenceEnd \<equiv> 2"
abbreviation (input) ExtendedTypeFramesX :: u8 where "ExtendedTypeFramesX \<equiv> 3"
abbreviation (input) ExtendedTypeMetadata :: u8 where "ExtendedTypeMetadata \<equiv> 4"
abbreviation (input) ExtendedTypeMPEG2TSSequenceStart :: u8 where "ExtendedTypeMPEG2TSSequenceStart \<equiv> 5"

type_synonym FourCC = "byte list"

definition FourCCAV1 :: FourCC where "FourCCAV1 = [0x61, 0x76, 0x30, 0x31]"
definition FourCCVP9 :: FourCC where "FourCCVP9 = [0x76, 0x70, 0x30, 0x39]"
definition FourCCHEVC :: FourCC where "FourCCHEVC = [0x68, 0x76, 0x63, 0x31]"

text \<open>The raw message that carries a control message.\<close>

definition control_message :: "u8 \<Rightarrow> byte list \<Rightarrow> RawMessage" where
  "control_message t buf =
     \<lparr>m_ChunkStreamID = ControlChunkStreamID, m_Timestamp = 0, m_Type = t, m_MessageStreamID = 0,
      m_Body = buf\<rparr>"

text \<open>The bytes of \<open>b\<close> from position \<open>i\<close> on, as an unsigned integer of two, three or four bytes.\<close>

definition u16_at :: "byte list \<Rightarrow> nat \<Rightarrow> (u16 \<Rightarrow> 'b result) \<Rightarrow> 'b result" where
  "u16_at b i k = idx b i (\<lambda>x. idx b (i + 1) (\<lambda>y. k (of_be16 x y)))"

definition u24_at :: "byte list \<Rightarrow> nat \<Rightarrow> (u32 \<Rightarrow> 'b result) \<Rightarrow> 'b result" where
  "u24_at b i k = idx b i (\<lambda>x. idx b (i + 1) (\<lambda>y. idx b (i + 2) (\<lambda>z. k (of_be24 x y z))))"

definition u32_at :: "byte list \<Rightarrow> nat \<Rightarrow> (u32 \<Rightarrow> 'b result) \<Rightarrow> 'b result" where
  "u32_at b i k =
     idx b i (\<lambda>x. idx b (i + 1) (\<lambda>y. idx b (i + 2) (\<lambda>z. idx b (i + 3) (\<lambda>u. k (of_be32 x y z u)))))"

lemma u32_at_be32 [codec_simps]:
  "u32_at (be32 v @ r) 0 k = k v" "u32_at (x # y # be32 v @ r) 2 k = k v"
  by (simp_all add: u32_at_def be32_def codec_simps)

lemma uint_at_in_range:
  "i + 1 < length b \<Longrightarrow> u16_at b i k = k (of_be16 (b ! i) (b ! (i + 1)))"
  "i + 2 < length b \<Longrightarrow> u24_at b i k' = k' (of_be24 (b ! i) (b ! (i + 1)) (b ! (i + 2)))"
  "i + 3 < length b \<Longrightarrow> u32_at b i k' = k' (of_be32 (b ! i) (b ! (i + 1)) (b ! (i + 2)) (b ! (i + 3)))"
  by (simp_all add: u16_at_def u24_at_def u32_at_def)

section \<open>Protocol control messages\<close>

record Acknowledge =
  ack_Value :: u32

definition Acknowledge_Unmarshal :: "RawMessage \<Rightarrow> Acknowledge result" where
  "Acknowledge_Unmarshal raw =
     (if m_ChunkStreamID raw \<noteq> ControlChunkStreamID then Inl (Err ''unexpected chunk stream ID'')
      else if length (m_Body raw) \<noteq> 4 then Inl (Err ''unexpected body size'')
      else u32_at (m_Body raw) 0 (\<lambda>v. Inr \<lparr>ack_Value = v\<rparr>))"

definition Acknowledge_Marshal :: "Acknowledge \<Rightarrow> RawMessage result" where
  "Acknowledge_Marshal m = Inr (control_message TypeAcknowledge (be32 (ack_Value m)))"

record SetChunkSize =
  scs_Value :: u32

definition SetChunkSize_Unmarshal :: "RawMessage \<Rightarrow> SetChunkSize result" where
  "SetChunkSize_Unmarshal raw =
     (if m_ChunkStreamID raw \<noteq> ControlChunkStreamID then Inl (Err ''unexpected chunk stream ID'')
      else if length (m_Body raw) \<noteq> 4 then Inl (Err ''invalid body size'')
      else u32_at (m_Body raw) 0 (\<lambda>v. Inr \<lparr>scs_Value = v\<rparr>))"

definition SetChunkSize_Marshal :: "SetChunkSize \<Rightarrow> RawMessage result" where
  "SetChunkSize_Marshal m = Inr (control_message TypeSetChunkSize (be32 (scs_Value m)))"

record SetWindowAckSize =
  swa_Value :: u32

definition SetWindowAckSize_Unmarshal :: "RawMessage \<Rightarrow> SetWindowAckSize result" where
  "SetWindowAckSize_Unmarshal raw =
     (if m_ChunkStreamID raw \<noteq> ControlChunkStreamID then Inl (Err ''unexpected chunk stream ID'')
      else if length (m_Body raw) \<noteq> 4 then Inl (Err ''invalid body size'')
      else u32_at (m_Body raw) 0 (\<lambda>v. Inr \<lparr>swa_Value = v\<rparr>))"

definition SetWindowAckSize_Marshal :: "SetWindowAckSize \<Rightarrow> RawMessage result" where
  "SetWindowAckSize_Marshal m = Inr (control_message TypeSetWindowAckSize (be32 (swa_Value m)))"

record SetPeerBandwidth =
  spb_Value :: u32
  spb_Type :: byte

definition SetPeerBandwidth_Unmarshal :: "RawMessage \<Rightarrow> SetPeerBandwidth result" where
  "SetPeerBandwidth_Unmarshal raw =
     (if m_ChunkStreamID raw \<noteq> ControlChunkStreamID then Inl (Err ''unexpected chunk stream ID'')
      else if length (m_Body raw) \<noteq> 5 then Inl (Err ''invalid body size'')
      else u32_at (m_Body raw) 0 (\<lambda>v. idx (m_Body raw) 4 (\<lambda>t. Inr \<lparr>spb_Value = v, spb_Type = t\<rparr>)))"

definition SetPeerBandwidth_Marshal :: "SetPeerBandwidth \<Rightarrow> RawMessage result" where
  "SetPeerBandwidth_Marshal m =
     Inr (control_message TypeSetPeerBandwidth (be32 (spb_Value m) @ [spb_Type m]))"

section \<open>User control messages\<close>

record UserControlStreamBegin =
  usb_StreamID :: u32

definition UserControlStreamBegin_Unmarshal :: "RawMessage \<Rightarrow> UserControlStreamBegin result" where
  "UserControlStreamBegin_Unmarshal raw =
     (if m_ChunkStreamID raw \<noteq> ControlChunkStreamID then Inl (Err ''unexpected chunk stream ID'')
      else if length (m_Body raw) \<noteq> 6 then Inl (Err ''invalid body size'')
      else u32_at (m_Body raw) 2 (\<lambda>v. Inr \<lparr>usb_StreamID = v\<rparr>))"

definition UserControlStreamBegin_Marshal :: "UserControlStreamBegin \<Rightarrow> RawMessage result" where
  "UserControlStreamBegin_Marshal m =
     Inr (control_message TypeUserControl (be16 UserControlTypeStreamBegin @ be32 (usb_StreamID m)))"

record UserControlStreamEOF =
  use_StreamID :: u32

definition UserControlStreamEOF_Unmarshal :: "RawMessage \<Rightarrow> UserControlStreamEOF result" where
  "UserControlStreamEOF_Unmarshal raw =
     (if m_ChunkStreamID raw \<noteq> ControlChunkStreamID then Inl (Err ''unexpected chunk stream ID'')
      else if length (m_Body raw) \<noteq> 6 then Inl (Err ''invalid body size'')
      else u32_at (m_Body raw) 2 (\<lambda>v. Inr \<lparr>use_StreamID = v\<rparr>))"

definition UserControlStreamEOF_Marshal :: "UserControlStreamEOF \<Rightarrow> RawMessage result" where
  "UserControlStreamEOF_Marshal m =
     Inr (control_message TypeUserControl (be16 UserControlTypeStreamEOF @ be32 (use_StreamID m)))"

record UserControlStreamDry =
  usd_StreamID :: u32

definition UserControlStreamDry_Unmarshal :: "RawMessage \<Rightarrow> UserControlStreamDry result" where
  "UserControlStreamDry_Unmarshal raw =
     (if m_ChunkStreamID raw \<noteq> ControlChunkStreamID then Inl (Err ''unexpected chunk stream ID'')
      else if length (m_Body raw) \<noteq> 6 then Inl (Err ''invalid body size'')
      else u32_at (m_Body raw) 2 (\<lambda>v. Inr \<lparr>usd_StreamID = v\<rparr>))"

definition UserControlStreamDry_Marshal :: "UserControlStreamDry \<Rightarrow> RawMessage result" where
  "UserControlStreamDry_Marshal m =
     Inr (control_message TypeUserControl (be16 UserControlTypeStreamDry @ be32 (usd_StreamID m)))"

record UserControlSetBufferLength =
  usl_StreamID :: u32
  usl_BufferLength :: u32

definition UserControlSetBufferLength_Unmarshal :: "RawMessage \<Rightarrow> UserControlSetBufferLength result" where
  "UserControlSetBufferLength_Unmarshal raw =
     (if m_ChunkStreamID raw \<noteq> ControlChunkStreamID then Inl (Err ''unexpected chunk stream ID'')
      else if length (m_Body raw) \<noteq> 10 then Inl (Err ''invalid body size'')
      else u32_at (m_Body raw) 2 (\<lambda>v. u32_at (m_Body raw) 6 (\<lambda>l.
        Inr \<lparr>usl_StreamID = v, usl_BufferLength = l\<rparr>)))"

definition UserControlSetBufferLength_Marshal :: "UserControlSetBufferLength \<Rightarrow> RawMessage result" where
  "UserControlSetBufferLength_Marshal m =
     Inr (control_message TypeUserControl
       (be16 UserControlTypeSetBufferLength @ be32 (usl_StreamID m) @ be32 (usl_BufferLength m)))"

record UserControlStreamIsRecorded =
  usr_StreamID :: u32

definition UserControlStreamIsRecorded_Unmarshal :: "RawMessage \<Rightarrow> UserControlStreamIsRecorded result" where
  "UserControlStreamIsRecorded_Unmarshal raw =
     (if m_ChunkStreamID raw \<noteq> ControlChunkStreamID then Inl (Err ''unexpected chunk stream ID'')
      else if length (m_Body raw) \<noteq> 6 then Inl (Err ''invalid body size'')
      else u32_at (m_Body raw) 2 (\<lambda>v. Inr \<lparr>usr_StreamID = v\<rparr>))"

definition UserControlStreamIsRecorded_Marshal :: "UserControlStreamIsRecorded \<Rightarrow> RawMessage result" where
  "UserControlStreamIsRecorded_Marshal m =
     Inr (control_message TypeUserControl (be16 UserControlTypeStreamIsRecorded @ be32 (usr_StreamID m)))"

record UserControlPingRequest =
  upq_ServerTime :: u32

definition UserControlPingRequest_Unmarshal :: "RawMessage \<Rightarrow> UserControlPingRequest result" where
  "UserControlPingRequest_Unmarshal raw =
     (if m_ChunkStreamID raw \<noteq> ControlChunkStreamID then Inl (Err ''unexpected chunk stream ID'')
      else if length (m_Body raw) \<noteq> 6 then Inl (Err ''invalid body size'')
      else u32_at (m_Body raw) 2 (\<lambda>v. Inr \<lparr>upq_ServerTime = v\<rparr>))"

definition UserControlPingRequest_Marshal :: "UserControlPingRequest \<Rightarrow> RawMessage result" where
  "UserControlPingRequest_Marshal m =
     Inr (control_message TypeUserControl (be16 UserControlTypePingRequest @ be32 (upq_ServerTime m)))"

record UserControlPingResponse =
  upr_ServerTime :: u32

definition UserControlPingResponse_Unmarshal :: "RawMessage \<Rightarrow> UserControlPingResponse result" where
  "UserControlPingResponse_Unmarshal raw =
     (if m_ChunkStreamID raw \<noteq> ControlChunkStreamID then Inl (Err ''unexpected chunk stream ID'')
      else if length (m_Body raw) \<noteq> 6 then Inl (Err ''invalid body size'')
      else u32_at (m_Body raw) 2 (\<lambda>v. Inr \<lparr>upr_ServerTime = v\<rparr>))"

definition UserControlPingResponse_Marshal :: "UserControlPingResponse \<Rightarrow> RawMessage result" where
  "UserControlPingResponse_Marshal m =
     Inr (control_message TypeUserControl (be16 UserControlTypePingResponse @ be32 (upr_ServerTime m)))"

section \<open>AMF0 messages\<close>

record CommandAMF0 =
  cmd_ChunkStreamID :: byte
  cmd_MessageStreamID :: u32
  cmd_Name :: string
  cmd_CommandID :: int
  cmd_Arguments :: "amf list"

definition CommandAMF0_Unmarshal :: "flvio \<Rightarrow> RawMessage \<Rightarrow> CommandAMF0 result" where
  "CommandAMF0_Unmarshal fl raw =
     (case ParseAMFVals fl (m_Body raw) of
        Inl e \<Rightarrow> Inl e
      | Inr payload \<Rightarrow>
          (if length payload < 3 then Inl (Err ''invalid command payload'')
           else idx payload 0 (\<lambda>v0. case v0 of
                   AString name \<Rightarrow>
                     idx payload 1 (\<lambda>v1. case v1 of
                        ANumber tmp \<Rightarrow>
                          slice_from payload 2 (\<lambda>args.
                            Inr \<lparr>cmd_ChunkStreamID = m_ChunkStreamID raw,
                                 cmd_MessageStreamID = m_MessageStreamID raw, cmd_Name = name,
                                 cmd_CommandID = int_of_f64 tmp, cmd_Arguments = args\<rparr>)
                      | _ \<Rightarrow> Inl (Err ''invalid command payload''))
                 | _ \<Rightarrow> Inl (Err ''invalid command payload''))))"

definition CommandAMF0_Marshal :: "flvio \<Rightarrow> CommandAMF0 \<Rightarrow> RawMessage result" where
  "CommandAMF0_Marshal fl m =
     Inr \<lparr>m_ChunkStreamID = cmd_ChunkStreamID m, m_Timestamp = 0, m_Type = TypeCommandAMF0,
          m_MessageStreamID = cmd_MessageStreamID m,
          m_Body = FillAMF0ValsMalloc fl
            ([AString (cmd_Name m), ANumber (f64_of_int (cmd_CommandID m))] @ cmd_Arguments m)\<rparr>"

record DataAMF0 =
  data_ChunkStreamID :: byte
  data_MessageStreamID :: u32
  data_Payload :: "amf list"

definition DataAMF0_Unmarshal :: "flvio \<Rightarrow> RawMessage \<Rightarrow> DataAMF0 result" where
  "DataAMF0_Unmarshal fl raw =
     (case ParseAMFVals fl (m_Body raw) of
        Inl e \<Rightarrow> Inl e
      | Inr payload \<Rightarrow>
          Inr \<lparr>data_ChunkStreamID = m_ChunkStreamID raw, data_MessageStreamID = m_MessageStreamID raw,
               data_Payload = payload\<rparr>)"

definition DataAMF0_Marshal :: "flvio \<Rightarrow> DataAMF0 \<Rightarrow> RawMessage result" where
  "DataAMF0_Marshal fl m =
     Inr \<lparr>m_ChunkStreamID = data_ChunkStreamID m, m_Timestamp = 0, m_Type = TypeDataAMF0,
          m_MessageStreamID = data_MessageStreamID m, m_Body = FillAMF0ValsMalloc fl (data_Payload m)\<rparr>"

section \<open>Audio and video\<close>

abbreviation (input) CodecMPEG2Audio :: u8 where "CodecMPEG2Audio \<equiv> 2"
abbreviation (input) CodecMPEG4Audio :: u8 where "CodecMPEG4Audio \<equiv> 10"
abbreviation (input) AudioAACTypeConfig :: u8 where "AudioAACTypeConfig \<equiv> 0"
abbreviation (input) AudioAACTypeAU :: u8 where "AudioAACTypeAU \<equiv> 1"

record Audio =
  au_ChunkStreamID :: byte
  au_DTS :: duration
  au_MessageStreamID :: u32
  au_Codec :: u8
  au_Rate :: u8
  au_Depth :: u8
  au_Channels :: u8
  au_AACType :: u8
  au_Payload :: "byte list"

definition Audio_Unmarshal :: "RawMessage \<Rightarrow> Audio result" where
  "Audio_Unmarshal raw =
     (let body = m_Body raw in
      if length body < 2 then Inl (Err ''invalid body size'')
      else idx body 0 (\<lambda>b0.
            let codec = drop_bit 4 b0;
                m = \<lparr>au_ChunkStreamID = m_ChunkStreamID raw, au_DTS = m_Timestamp raw,
                     au_MessageStreamID = m_MessageStreamID raw, au_Codec = codec,
                     au_Rate = drop_bit 2 b0 AND 0x03, au_Depth = drop_bit 1 b0 AND 0x01,
                     au_Channels = b0 AND 0x01, au_AACType = 0, au_Payload = []\<rparr>
            in if codec \<noteq> CodecMPEG2Audio \<and> codec \<noteq> CodecMPEG4Audio
               then Inl (Err (''unsupported audio codec: '' @ show_nat (unat codec)))
               else if codec = CodecMPEG2Audio
               then slice_from body 1 (\<lambda>payload. Inr (m\<lparr>au_Payload := payload\<rparr>))
               else idx body 1 (\<lambda>t.
                      if t \<noteq> AudioAACTypeConfig \<and> t \<noteq> AudioAACTypeAU
                      then Inl (Err (''unsupported audio message type: '' @ show_nat (unat t)))
                      else slice_from body 2 (\<lambda>payload.
                             Inr (m\<lparr>au_AACType := t, au_Payload := payload\<rparr>)))))"

definition Audio_Marshal :: "Audio \<Rightarrow> RawMessage result" where
  "Audio_Marshal m =
     (let b0 = push_bit 4 (au_Codec m) OR push_bit 2 (au_Rate m) OR push_bit 1 (au_Depth m) OR
               au_Channels m;
          body = (if au_Codec m = CodecMPEG2Audio then [b0] @ au_Payload m
                  else [b0, au_AACType m] @ au_Payload m)
      in Inr \<lparr>m_ChunkStreamID = au_ChunkStreamID m, m_Timestamp = au_DTS m, m_Type = TypeAudio,
              m_MessageStreamID = au_MessageStreamID m, m_Body = body\<rparr>)"

abbreviation (input) CodecH264 :: u8 where "CodecH264 \<equiv> 7"
abbreviation (input) VideoTypeConfig :: u8 where "VideoTypeConfig \<equiv> 0"
abbreviation (input) VideoTypeAU :: u8 where "VideoTypeAU \<equiv> 1"
abbreviation (input) VideoTypeEOS :: u8 where "VideoTypeEOS \<equiv> 2"

record Video =
  vi_ChunkStreamID :: byte
  vi_DTS :: duration
  vi_MessageStreamID :: u32
  vi_Codec :: u8
  vi_IsKeyFrame :: bool
  vi_Type :: u8
  vi_PTSDelta :: duration
  vi_Payload :: "byte list"

definition Video_Unmarshal :: "flvio \<Rightarrow> RawMessage \<Rightarrow> Video result" where
  "Video_Unmarshal fl raw =
     (let body = m_Body raw in
      if length body < 5 then Inl (Err ''invalid body size'')
      else idx body 0 (\<lambda>b0. let codec = b0 AND 0x0F in
            if codec \<noteq> CodecH264
            then Inl (Err (''unsupported video codec: '' @ show_nat (unat codec)))
            else idx body 1 (\<lambda>t.
            if t \<noteq> VideoTypeConfig \<and> t \<noteq> VideoTypeAU \<and> t \<noteq> VideoTypeEOS
            then Inl (Err (''unsupported video message type: '' @ show_nat (unat t)))
            else u24_at body 2 (\<lambda>tmp. slice_from body 5 (\<lambda>payload.
                 Inr \<lparr>vi_ChunkStreamID = m_ChunkStreamID raw, vi_DTS = m_Timestamp raw,
                      vi_MessageStreamID = m_MessageStreamID raw, vi_Codec = codec,
                      vi_IsKeyFrame = (drop_bit 4 b0 = FRAME_KEY fl), vi_Type = t,
                      vi_PTSDelta = of_ms tmp, vi_Payload = payload\<rparr>)))))"

definition Video_Marshal :: "flvio \<Rightarrow> Video \<Rightarrow> RawMessage result" where
  "Video_Marshal fl m =
     (let b0 = push_bit 4 (if vi_IsKeyFrame m then FRAME_KEY fl else FRAME_INTER fl) OR vi_Codec m
      in Inr \<lparr>m_ChunkStreamID = vi_ChunkStreamID m, m_Timestamp = vi_DTS m, m_Type = TypeVideo,
              m_MessageStreamID = vi_MessageStreamID m,
              m_Body = [b0, vi_Type m] @ be24 (to_ms (vi_PTSDelta m)) @ vi_Payload m\<rparr>)"

section \<open>Extended messages\<close>

text \<open>The bytes 1 to 4 of a body, which panics if it is shorter.\<close>

definition fourcc_of :: "RawMessage \<Rightarrow> (FourCC \<Rightarrow> 'b result) \<Rightarrow> 'b result" where
  "fourcc_of raw k = slice_range (m_Body raw) 1 5 k"

record ExtendedSequenceStart =
  ess_FourCC :: FourCC
  ess_Config :: "byte list"

definition ExtendedSequenceStart_Unmarshal :: "RawMessage \<Rightarrow> ExtendedSequenceStart result" where
  "ExtendedSequenceStart_Unmarshal raw =
     fourcc_of raw (\<lambda>cc. slice_from (m_Body raw) 5 (\<lambda>config.
       Inr \<lparr>ess_FourCC = cc, ess_Config = config\<rparr>))"

definition ExtendedSequenceStart_Marshal :: "ExtendedSequenceStart \<Rightarrow> RawMessage result" where
  "ExtendedSequenceStart_Marshal m = Inl (Err ''TODO'')"

record ExtendedCodedFrames =
  ecf_ChunkStreamID :: byte
  ecf_DTS :: duration
  ecf_MessageStreamID :: u32
  ecf_FourCC :: FourCC
  ecf_PTSDelta :: duration
  ecf_Payload :: "byte list"

definition ExtendedCodedFrames_Unmarshal :: "RawMessage \<Rightarrow> ExtendedCodedFrames result" where
  "ExtendedCodedFrames_Unmarshal raw =
     (let body = m_Body raw in
      if length body < 8 then Inl (Err ''not enough bytes'')
      else fourcc_of raw (\<lambda>cc.
            let m = \<lparr>ecf_ChunkStreamID = m_ChunkStreamID raw, ecf_DTS = m_Timestamp raw,
                     ecf_MessageStreamID = m_MessageStreamID raw, ecf_FourCC = cc,
                     ecf_PTSDelta = 0, ecf_Payload = []\<rparr>
            in if cc = FourCCHEVC
               then u24_at body 5 (\<lambda>tmp. slice_from body 8 (\<lambda>payload.
                      Inr (m\<lparr>ecf_PTSDelta := of_ms tmp, ecf_Payload := payload\<rparr>)))
               else slice_from body 5 (\<lambda>payload. Inr (m\<lparr>ecf_Payload := payload\<rparr>))))"

definition ExtendedCodedFrames_Marshal :: "ExtendedCodedFrames \<Rightarrow> RawMessage result" where
  "ExtendedCodedFrames_Marshal m =
     (let hd = [0b10000000 OR ExtendedTypeCodedFrames] @ ecf_FourCC m;
          body = (if ecf_FourCC m = FourCCHEVC
                  then hd @ be24 (to_ms (ecf_PTSDelta m)) @ ecf_Payload m
                  else hd @ ecf_Payload m)
      in Inr \<lparr>m_ChunkStreamID = ecf_ChunkStreamID m, m_Timestamp = ecf_DTS m, m_Type = TypeVideo,
              m_MessageStreamID = ecf_MessageStreamID m, m_Body = body\<rparr>)"

record ExtendedSequenceEnd =
  ese_FourCC :: FourCC

definition ExtendedSequenceEnd_Unmarshal :: "RawMessage \<Rightarrow> ExtendedSequenceEnd result" where
  "ExtendedSequenceEnd_Unmarshal raw =
     (if length (m_Body raw) \<noteq> 5 then Inl (Err ''invalid body size'')
      else fourcc_of raw (\<lambda>cc. Inr \<lparr>ese_FourCC = cc\<rparr>))"

definition ExtendedSequenceEnd_Marshal :: "ExtendedSequenceEnd \<Rightarrow> RawMessage result" where
  "ExtendedSequenceEnd_Marshal m = Inl (Err ''TODO'')"

record ExtendedFramesX =
  efx_ChunkStreamID :: byte
  efx_DTS :: duration
  efx_MessageStreamID :: u32
  efx_FourCC :: FourCC
  efx_Payload :: "byte list"

definition ExtendedFramesX_Unmarshal :: "RawMessage \<Rightarrow> ExtendedFramesX result" where
  "ExtendedFramesX_Unmarshal raw =
     fourcc_of raw (\<lambda>cc. slice_from (m_Body raw) 5 (\<lambda>payload.
       Inr \<lparr>efx_ChunkStreamID = m_ChunkStreamID raw, efx_DTS = m_Timestamp raw,
            efx_MessageStreamID = m_MessageStreamID raw, efx_FourCC = cc, efx_Payload = payload\<rparr>))"

definition ExtendedFramesX_Marshal :: "ExtendedFramesX \<Rightarrow> RawMessage result" where
  "ExtendedFramesX_Marshal m =
     Inr \<lparr>m_ChunkStreamID = efx_ChunkStreamID m, m_Timestamp = efx_DTS m, m_Type = TypeVideo,
          m_MessageStreamID = efx_MessageStreamID m,
          m_Body = [0b10000000 OR ExtendedTypeFramesX] @ efx_FourCC m @ efx_Payload m\<rparr>"

record ExtendedMetadata =
  emd_FourCC :: FourCC

definition ExtendedMetadata_Unmarshal :: "RawMessage \<Rightarrow> ExtendedMetadata result" where
  "ExtendedMetadata_Unmarshal raw =
     fourcc_of raw (\<lambda>_. Inl (Err ''ExtendedMetadata is not implemented yet''))"

definition ExtendedMetadata_Marshal :: "ExtendedMetadata \<Rightarrow> RawMessage result" where
  "ExtendedMetadata_Marshal m = Inl (Err ''TODO'')"

record ExtendedMPEG2TSSequenceStart =
  ems_FourCC :: FourCC

definition ExtendedMPEG2TSSequenceStart_Unmarshal ::
  "RawMessage \<Rightarrow> ExtendedMPEG2TSSequenceStart result" where
  "ExtendedMPEG2TSSequenceStart_Unmarshal raw =
     fourcc_of raw (\<lambda>_. Inl (Err ''ExtendedMPEG2TSSequenceStart is not implemented yet''))"

definition ExtendedMPEG2TSSequenceStart_Marshal ::
  "ExtendedMPEG2TSSequenceStart \<Rightarrow> RawMessage result" where
  "ExtendedMPEG2TSSequenceStart_Marshal m = Inl (Err ''TODO'')"

section \<open>The message interface\<close>

datatype message =
  M_SetChunkSize SetChunkSize
| M_Acknowledge Acknowledge
| M_SetWindowAckSize SetWindowAckSize
| M_SetPeerBandwidth SetPeerBandwidth
| M_UserControlStreamBegin UserControlStreamBegin
| M_UserControlStreamEOF UserControlStreamEOF
| M_UserControlStreamDry UserControlStreamDry
| M_UserControlSetBufferLength UserControlSetBufferLength
| M_UserControlStreamIsRecorded UserControlStreamIsRecorded
| M_UserControlPingRequest UserControlPingRequest
| M_UserControlPingResponse UserControlPingResponse
| M_CommandAMF0 CommandAMF0
| M_DataAMF0 DataAMF0
| M_Audio Audio
| M_Video Video
| M_ExtendedSequenceStart ExtendedSequenceStart
| M_ExtendedCodedFrames ExtendedCodedFrames
| M_ExtendedSequenceEnd ExtendedSequenceEnd
| M_ExtendedFramesX ExtendedFramesX
| M_ExtendedMetadata ExtendedMetadata
| M_ExtendedMPEG2TSSequenceStart ExtendedMPEG2TSSequenceStart

fun message_Marshal :: "flvio \<Rightarrow> message \<Rightarrow> RawMessage result" where
  "message_Marshal fl (M_SetChunkSize m) = SetChunkSize_Marshal m"
| "message_Marshal fl (M_Acknowledge m) = Acknowledge_Marshal m"
| "message_Marshal fl (M_SetWindowAckSize m) = SetWindowAckSize_Marshal m"
| "message_Marshal fl (M_SetPeerBandwidth m) = SetPeerBandwidth_Marshal m"
| "message_Marshal fl (M_UserControlStreamBegin m) = UserControlStreamBegin_Marshal m"
| "message_Marshal fl (M_UserControlStreamEOF m) = UserControlStreamEOF_Marshal m"
| "message_Marshal fl (M_UserControlStreamDry m) = UserControlStreamDry_Marshal m"
| "message_Marshal fl (M_UserControlSetBufferLength m) = UserControlSetBufferLength_Marshal m"
| "message_Marshal fl (M_UserControlStreamIsRecorded m) = UserControlStreamIsRecorded_Marshal m"
| "message_Marshal fl (M_UserControlPingRequest m) = UserControlPingRequest_Marshal m"
| "message_Marshal fl (M_UserControlPingResponse m) = UserControlPingResponse_Marshal m"
| "message_Marshal fl (M_CommandAMF0 m) = CommandAMF0_Marshal fl m"
| "message_Marshal fl (M_DataAMF0 m) = DataAMF0_Marshal fl m"
| "message_Marshal fl (M_Audio m) = Audio_Marshal m"
| "message_Marshal fl (M_Video m) = Video_Marshal fl m"
| "message_Marshal fl (M_ExtendedSequenceStart m) = ExtendedSequenceStart_Marshal m"
| "message_Marshal fl (M_ExtendedCodedFrames m) = ExtendedCodedFrames_Marshal m"
| "message_Marshal fl (M_ExtendedSequenceEnd m) = ExtendedSequenceEnd_Marshal m"
| "message_Marshal fl (M_ExtendedFramesX m) = ExtendedFramesX_Marshal m"
| "message_Marshal fl (M_ExtendedMetadata m) = ExtendedMetadata_Marshal m"
| "message_Marshal fl (M_ExtendedMPEG2TSSequenceStart m) = ExtendedMPEG2TSSequenceStart_Marshal m"

text \<open>The struct that \<open>allocateMessage\<close> allocates.\<close>

datatype message_kind =
  A_SetChunkSize | A_Acknowledge | A_SetWindowAckSize | A_SetPeerBandwidth | A_UserControlStreamBegin | A_UserControlStreamEOF | A_UserControlStreamDry | A_UserControlSetBufferLength | A_UserControlStreamIsRecorded | A_UserControlPingRequest | A_UserControlPingResponse | A_CommandAMF0 | A_DataAMF0 | A_Audio | A_Video | A_ExtendedSequenceStart | A_ExtendedCodedFrames | A_ExtendedSequenceEnd | A_ExtendedFramesX | A_ExtendedMetadata | A_ExtendedMPEG2TSSequenceStart

definition message_Unmarshal :: "flvio \<Rightarrow> message_kind \<Rightarrow> RawMessage \<Rightarrow> message result" where
  "message_Unmarshal fl k raw =
     (case k of
        A_SetChunkSize \<Rightarrow> map_sum id M_SetChunkSize (SetChunkSize_Unmarshal raw)
      | A_Acknowledge \<Rightarrow> map_sum id M_Acknowledge (Acknowledge_Unmarshal raw)
      | A_SetWindowAckSize \<Rightarrow> map_sum id M_SetWindowAckSize (SetWindowAckSize_Unmarshal raw)
      | A_SetPeerBandwidth \<Rightarrow> map_sum id M_SetPeerBandwidth (SetPeerBandwidth_Unmarshal raw)
      | A_UserControlStreamBegin \<Rightarrow> map_sum id M_UserControlStreamBegin (UserControlStreamBegin_Unmarshal raw)
      | A_UserControlStreamEOF \<Rightarrow> map_sum id M_UserControlStreamEOF (UserControlStreamEOF_Unmarshal raw)
      | A_UserControlStreamDry \<Rightarrow> map_sum id M_UserControlStreamDry (UserControlStreamDry_Unmarshal raw)
      | A_UserControlSetBufferLength \<Rightarrow> map_sum id M_UserControlSetBufferLength (UserControlSetBufferLength_Unmarshal raw)
      | A_UserControlStreamIsRecorded \<Rightarrow> map_sum id M_UserControlStreamIsRecorded (UserControlStreamIsRecorded_Unmarshal raw)
      | A_UserControlPingRequest \<Rightarrow> map_sum id M_UserControlPingRequest (UserControlPingRequest_Unmarshal raw)
      | A_UserControlPingResponse \<Rightarrow> map_sum id M_UserControlPingResponse (UserControlPingResponse_Unmarshal raw)
      | A_CommandAMF0 \<Rightarrow> map_sum id M_CommandAMF0 (CommandAMF0_Unmarshal fl raw)
      | A_DataAMF0 \<Rightarrow> map_sum id M_DataAMF0 (DataAMF0_Unmarshal fl raw)
      | A_Audio \<Rightarrow> map_sum id M_Audio (Audio_Unmarshal raw)
      | A_Video \<Rightarrow> map_sum id M_Video (Video_Unmarshal fl raw)
      | A_ExtendedSequenceStart \<Rightarrow> map_sum id M_ExtendedSequenceStart (ExtendedSequenceStart_Unmarshal raw)
      | A_ExtendedCodedFrames \<Rightarrow> map_sum id M_ExtendedCodedFrames (ExtendedCodedFrames_Unmarshal raw)
      | A_ExtendedSequenceEnd \<Rightarrow> map_sum id M_ExtendedSequenceEnd (ExtendedSequenceEnd_Unmarshal raw)
      | A_ExtendedFramesX \<Rightarrow> map_sum id M_ExtendedFramesX (ExtendedFramesX_Unmarshal raw)
      | A_ExtendedMetadata \<Rightarrow> map_sum id M_ExtendedMetadata (ExtendedMetadata_Unmarshal raw)
      | A_ExtendedMPEG2TSSequenceStart \<Rightarrow> map_sum id M_ExtendedMPEG2TSSequenceStart (ExtendedMPEG2TSSequenceStart_Unmarshal raw))"

definition allocate_user_control :: "RawMessage \<Rightarrow> message_kind result" where
  "allocate_user_control raw =
     (if length (m_Body raw) < 2 then Inl (Err ''not enough bytes'')
      else u16_at (m_Body raw) 0 (\<lambda>t.
            if t = UserControlTypeStreamBegin then Inr A_UserControlStreamBegin
            else if t = UserControlTypeStreamEOF then Inr A_UserControlStreamEOF
            else if t = UserControlTypeStreamDry then Inr A_UserControlStreamDry
            else if t = UserControlTypeSetBufferLength then Inr A_UserControlSetBufferLength
            else if t = UserControlTypeStreamIsRecorded then Inr A_UserControlStreamIsRecorded
            else if t = UserControlTypePingRequest then Inr A_UserControlPingRequest
            else if t = UserControlTypePingResponse then Inr A_UserControlPingResponse
            else Inl (Err (''invalid user control type: '' @ show_nat (unat t)))))"

definition allocate_video :: "RawMessage \<Rightarrow> message_kind result" where
  "allocate_video raw =
     (let body = m_Body raw in
      if length body < 5 then Inl (Err ''not enough bytes'')
      else idx body 0 (\<lambda>b0.
      if b0 AND 0b10000000 \<noteq> 0
      then fourcc_of raw (\<lambda>fourCC. let t = b0 AND 0x0F in
            if fourCC \<noteq> FourCCAV1 \<and> fourCC \<noteq> FourCCVP9 \<and> fourCC \<noteq> FourCCHEVC
            then Inl (Err (''invalid fourCC: '' @ show_bytes fourCC))
            else if t = ExtendedTypeSequenceStart then Inr A_ExtendedSequenceStart
            else if t = ExtendedTypeCodedFrames then Inr A_ExtendedCodedFrames
            else if t = ExtendedTypeSequenceEnd then Inr A_ExtendedSequenceEnd
            else if t = ExtendedTypeFramesX then Inr A_ExtendedFramesX
            else if t = ExtendedTypeMetadata then Inr A_ExtendedMetadata
            else if t = ExtendedTypeMPEG2TSSequenceStart then Inr A_ExtendedMPEG2TSSequenceStart
            else Inl (Err (''invalid extended type: '' @ show_nat (unat t))))
      else Inr A_Video))"

definition allocateMessage :: "RawMessage \<Rightarrow> message_kind result" where
  "allocateMessage raw =
     (let t = m_Type raw in
      if t = TypeSetChunkSize then Inr A_SetChunkSize
      else if t = TypeAcknowledge then Inr A_Acknowledge
      else if t = TypeSetWindowAckSize then Inr A_SetWindowAckSize
      else if t = TypeSetPeerBandwidth then Inr A_SetPeerBandwidth
      else if t = TypeUserControl then allocate_user_control raw
      else if t = TypeCommandAMF0 then Inr A_CommandAMF0
      else if t = TypeDataAMF0 then Inr A_DataAMF0
      else if t = TypeAudio then Inr A_Audio
      else if t = TypeVideo then allocate_video raw
      else Inl (Err (''invalid message type: '' @ show_nat (unat t))))"

text \<open>From a raw message to a message, as \<open>Reader.Read\<close> composes the two steps.\<close>

definition decode_message :: "flvio \<Rightarrow> RawMessage \<Rightarrow> message result" where
  "decode_message fl raw =
     (case allocateMessage raw of Inl e \<Rightarrow> Inl e | Inr k \<Rightarrow> message_Unmarshal fl k raw)"

end
