(* ===== verification/MessageCodec.thy ===== *)
theory MessageCodec
  imports Message
begin

text \<open>
  Round trips of the RTMP messages.  The locale \<open>message_codec\<close> is the contract of the interface
  \<open>Message\<close>: a well-formed message can be marshalled, and unmarshalling the raw message gives it
  back.  Every message struct that implements \<open>Marshal\<close> is an interpretation; \<open>message_wf\<close> puts them
  together for the dispatch through \<open>allocateMessage\<close>.
\<close>

locale message_codec =
  fixes Unmarshal :: "RawMessage \<Rightarrow> 'm result"
    and Marshal :: "'m \<Rightarrow> RawMessage result"
    and wf :: "'m \<Rightarrow> bool"
    and mtype :: u8
  assumes marshal_ok: "wf m \<Longrightarrow> \<exists>raw. Marshal m = Inr raw \<and> m_Type raw = mtype \<and> Unmarshal raw = Inr m"
begin

lemma marshal_inj: "wf m \<Longrightarrow> wf m' \<Longrightarrow> Marshal m = Marshal m' \<Longrightarrow> m = m'"
  using marshal_ok [of m] marshal_ok [of m'] by force

lemma unmarshal_marshal: "wf m \<Longrightarrow> Marshal m = Inr raw \<Longrightarrow> Unmarshal raw = Inr m"
  using marshal_ok [of m] by force

lemma marshal_type: "wf m \<Longrightarrow> Marshal m = Inr raw \<Longrightarrow> m_Type raw = mtype"
  using marshal_ok [of m] by force

end

section \<open>Control messages\<close>

lemma be16_simps [simp]:
  "be16 0 = [0, 0]" "be16 1 = [0, 1]" "be16 2 = [0, 2]" "be16 3 = [0, 3]" "be16 4 = [0, 4]"
  "be16 6 = [0, 6]" "be16 7 = [0, 7]"
  by (simp_all add: be16_def)

lemma of_be16_simps [simp]:
  "of_be16 0 0 = 0" "of_be16 0 1 = 1" "of_be16 0 2 = 2" "of_be16 0 3 = 3" "of_be16 0 4 = 4"
  "of_be16 0 6 = 6" "of_be16 0 7 = 7"
  by (simp_all add: of_be16_def)

lemma u32_at_simps [codec_simps]:
  "u32_at (be32 v) 0 k = k v" "u32_at (x # y # be32 v) 2 k = k v"
  "u32_at (x # y # be32 u @ be32 v) 6 k = k v"
  by (simp_all add: u32_at_def be32_def codec_simps)

lemma control_message_simps [simp]:
  "m_ChunkStreamID (control_message t b) = 2" "m_Type (control_message t b) = t"
  "m_Body (control_message t b) = b" "m_Timestamp (control_message t b) = 0"
  "m_MessageStreamID (control_message t b) = 0"
  by (simp_all add: control_message_def)

interpretation scs: message_codec SetChunkSize_Unmarshal SetChunkSize_Marshal "\<lambda>_. True" TypeSetChunkSize
  by unfold_locales (simp add: SetChunkSize_Unmarshal_def SetChunkSize_Marshal_def codec_simps)

interpretation ack: message_codec Acknowledge_Unmarshal Acknowledge_Marshal "\<lambda>_. True" TypeAcknowledge
  by unfold_locales (simp add: Acknowledge_Unmarshal_def Acknowledge_Marshal_def codec_simps)

interpretation swa: message_codec SetWindowAckSize_Unmarshal SetWindowAckSize_Marshal "\<lambda>_. True"
    TypeSetWindowAckSize
  by unfold_locales (simp add: SetWindowAckSize_Unmarshal_def SetWindowAckSize_Marshal_def codec_simps)

interpretation spb: message_codec SetPeerBandwidth_Unmarshal SetPeerBandwidth_Marshal "\<lambda>_. True"
    TypeSetPeerBandwidth
  by unfold_locales
     (simp add: SetPeerBandwidth_Unmarshal_def SetPeerBandwidth_Marshal_def codec_simps nth_append)

interpretation usb: message_codec UserControlStreamBegin_Unmarshal UserControlStreamBegin_Marshal
    "\<lambda>_. True" TypeUserControl
  by unfold_locales
     (simp add: UserControlStreamBegin_Unmarshal_def UserControlStreamBegin_Marshal_def codec_simps)

interpretation use: message_codec UserControlStreamEOF_Unmarshal UserControlStreamEOF_Marshal
    "\<lambda>_. True" TypeUserControl
  by unfold_locales
     (simp add: UserControlStreamEOF_Unmarshal_def UserControlStreamEOF_Marshal_def codec_simps)

interpretation usd: message_codec UserControlStreamDry_Unmarshal UserControlStreamDry_Marshal
    "\<lambda>_. True" TypeUserControl
  by unfold_locales
     (simp add: UserControlStreamDry_Unmarshal_def UserControlStreamDry_Marshal_def codec_simps)

interpretation usl: message_codec UserControlSetBufferLength_Unmarshal UserControlSetBufferLength_Marshal
    "\<lambda>_. True" TypeUserControl
  by unfold_locales
     (simp add: UserControlSetBufferLength_Unmarshal_def UserControlSetBufferLength_Marshal_def codec_simps)

interpretation usr: message_codec UserControlStreamIsRecorded_Unmarshal UserControlStreamIsRecorded_Marshal
    "\<lambda>_. True" TypeUserControl
  by unfold_locales
     (simp add: UserControlStreamIsRecorded_Unmarshal_def UserControlStreamIsRecorded_Marshal_def codec_simps)

interpretation upq: message_codec UserControlPingRequest_Unmarshal UserControlPingRequest_Marshal
    "\<lambda>_. True" TypeUserControl
  by unfold_locales
     (simp add: UserControlPingRequest_Unmarshal_def UserControlPingRequest_Marshal_def codec_simps)

interpretation upr: message_codec UserControlPingResponse_Unmarshal UserControlPingResponse_Marshal
    "\<lambda>_. True" TypeUserControl
  by unfold_locales
     (simp add: UserControlPingResponse_Unmarshal_def UserControlPingResponse_Marshal_def codec_simps)

section \<open>AMF0 messages\<close>

text \<open>The values survive the encoder and decoder, and the command id is exact as a \<open>float64\<close>.\<close>

definition amf_survives :: "flvio \<Rightarrow> amf list \<Rightarrow> bool" where
  "amf_survives fl vs \<longleftrightarrow> ParseAMFVals fl (FillAMF0ValsMalloc fl vs) = Inr vs"

definition CommandAMF0_wf :: "flvio \<Rightarrow> CommandAMF0 \<Rightarrow> bool" where
  "CommandAMF0_wf fl m \<longleftrightarrow>
     cmd_Arguments m \<noteq> [] \<and> \<bar>cmd_CommandID m\<bar> < 2 ^ 53 \<and>
     amf_survives fl ([AString (cmd_Name m), ANumber (f64_of_int (cmd_CommandID m))] @ cmd_Arguments m)"

definition DataAMF0_wf :: "flvio \<Rightarrow> DataAMF0 \<Rightarrow> bool" where
  "DataAMF0_wf fl m \<longleftrightarrow> amf_survives fl (data_Payload m)"

interpretation cmd: message_codec "CommandAMF0_Unmarshal fl" "CommandAMF0_Marshal fl" "CommandAMF0_wf fl"
    TypeCommandAMF0 for fl
  by unfold_locales
     (auto simp: CommandAMF0_Unmarshal_def CommandAMF0_Marshal_def CommandAMF0_wf_def amf_survives_def
       int_of_f64_of_int Suc_le_eq)

interpretation data: message_codec "DataAMF0_Unmarshal fl" "DataAMF0_Marshal fl" "DataAMF0_wf fl"
    TypeDataAMF0 for fl
  by unfold_locales (auto simp: DataAMF0_Unmarshal_def DataAMF0_Marshal_def DataAMF0_wf_def amf_survives_def)

section \<open>Audio and video\<close>

lemma u8_lt2: "(k :: u8) < 2 \<Longrightarrow> k = 0 \<or> k = 1"
  and u8_lt4: "(k :: u8) < 4 \<Longrightarrow> k = 0 \<or> k = 1 \<or> k = 2 \<or> k = 3"
  and u8_lt8: "(k :: u8) < 8 \<Longrightarrow> k = 0 \<or> k = 1 \<or> k = 2 \<or> k = 3 \<or> k = 4 \<or> k = 5 \<or> k = 6 \<or> k = 7"
  unfolding word_less_nat_alt word_unat_eq_iff by simp_all linarith+

text \<open>An MPEG-2 audio message needs a payload: the decoder wants two bytes for every codec.\<close>

definition Audio_wf :: "Audio \<Rightarrow> bool" where
  "Audio_wf m \<longleftrightarrow>
     au_Rate m < 4 \<and> au_Depth m < 2 \<and> au_Channels m < 2 \<and>
     (au_Codec m = CodecMPEG2Audio \<and> au_AACType m = 0 \<and> au_Payload m \<noteq> [] \<or>
      au_Codec m = CodecMPEG4Audio \<and> (au_AACType m = AudioAACTypeConfig \<or> au_AACType m = AudioAACTypeAU))"

lemma audio_header:
  assumes "c = 2 \<or> c = 10" and "r < 4" and "d < 2" and "n < 2"
  defines "b \<equiv> push_bit 4 c OR push_bit 2 r OR push_bit 1 d OR (n :: u8)"
  shows "drop_bit 4 b = c" "drop_bit 2 b AND 3 = r" "drop_bit 1 b AND 1 = d" "b AND 1 = n"
  using assms(1) u8_lt4 [OF assms(2)] u8_lt2 [OF assms(3)] u8_lt2 [OF assms(4)]
  unfolding b_def by (elim disjE; simp)+

interpretation au: message_codec Audio_Unmarshal Audio_Marshal Audio_wf TypeAudio
proof
  fix m
  assume wf: "Audio_wf m"
  define b0 where "b0 = push_bit 4 (au_Codec m) OR push_bit 2 (au_Rate m) OR push_bit 1 (au_Depth m) OR
    au_Channels m"
  have c: "au_Codec m = 2 \<or> au_Codec m = 10" using wf by (auto simp: Audio_wf_def)
  have "au_Rate m < 4" "au_Depth m < 2" "au_Channels m < 2" using wf by (simp_all add: Audio_wf_def)
  note h = audio_header [OF c this, folded b0_def]
  show "\<exists>raw. Audio_Marshal m = Inr raw \<and> m_Type raw = TypeAudio \<and> Audio_Unmarshal raw = Inr m"
    unfolding Audio_Marshal_def Audio_Unmarshal_def Let_def b0_def [symmetric]
    using wf c h by (auto simp: Audio_wf_def Suc_le_eq)
qed

definition Video_wf :: "flvio \<Rightarrow> Video \<Rightarrow> bool" where
  "Video_wf fl m \<longleftrightarrow>
     flvio_ok fl \<and> vi_Codec m = CodecH264 \<and>
     (vi_Type m = VideoTypeConfig \<or> vi_Type m = VideoTypeAU \<or> vi_Type m = VideoTypeEOS) \<and>
     vi_PTSDelta m = of_ms (to_ms (vi_PTSDelta m)) \<and> unat (to_ms (vi_PTSDelta m)) < 2 ^ 24"

lemma video_header:
  assumes "(k :: u8) < 8"
  shows "drop_bit 4 (push_bit 4 k OR 7) = k" "(push_bit 4 k OR 7) AND 0x0F = 7"
    "(push_bit 4 k OR 7) AND 0x80 = 0"
  using u8_lt8 [OF assms] by (elim disjE; simp)+

lemma of_be24_nth:
  "unat v < 2 ^ 24 \<Longrightarrow> of_be24 (be24 v ! 0) (be24 v ! Suc 0) (be24 v ! 2) = v"
  using of_be24_be24 [of v] take_bit_24_id [of v] by (simp add: be24_def)

interpretation vi: message_codec "Video_Unmarshal fl" "Video_Marshal fl" "Video_wf fl" TypeVideo for fl
proof
  fix m
  assume wf: "Video_wf fl m"
  define k where "k = (if vi_IsKeyFrame m then FRAME_KEY fl else FRAME_INTER fl)"
  define b0 where "b0 = push_bit 4 k OR vi_Codec m"
  have "k < 8" using wf by (simp add: k_def Video_wf_def flvio_ok_def)
  from video_header [OF this] have h: "drop_bit 4 b0 = k" "b0 AND 0x0F = 7"
    using wf by (simp_all add: b0_def Video_wf_def)
  have key: "(k = FRAME_KEY fl) = vi_IsKeyFrame m"
    using wf by (auto simp: k_def Video_wf_def flvio_ok_def)
  have p: "of_be24 (be24 (to_ms (vi_PTSDelta m)) ! 0) (be24 (to_ms (vi_PTSDelta m)) ! Suc 0)
      (be24 (to_ms (vi_PTSDelta m)) ! 2) = to_ms (vi_PTSDelta m)"
    using wf by (intro of_be24_nth) (simp add: Video_wf_def)
  show "\<exists>raw. Video_Marshal fl m = Inr raw \<and> m_Type raw = TypeVideo \<and> Video_Unmarshal fl raw = Inr m"
    unfolding Video_Marshal_def Video_Unmarshal_def Let_def k_def [symmetric] b0_def [symmetric]
    using wf h key p by (auto simp: Video_wf_def nth_append uint_at_in_range)
qed

section \<open>Extended messages\<close>

definition known_fourcc :: "FourCC \<Rightarrow> bool" where
  "known_fourcc cc \<longleftrightarrow> cc = FourCCAV1 \<or> cc = FourCCVP9 \<or> cc = FourCCHEVC"

lemma known_fourcc_length: "known_fourcc cc \<Longrightarrow> length cc = 4"
  by (auto simp: known_fourcc_def FourCCAV1_def FourCCVP9_def FourCCHEVC_def)

lemma subslice_fourcc: "length cc = 4 \<Longrightarrow> subslice (x # cc @ r) (Suc 0) 5 = cc"
  by (simp add: subslice_def)

text \<open>
  A message of coded frames carries a presentation offset only for HEVC; for the other codecs the
  decoder still wants eight bytes, so a payload of at least three bytes.
\<close>

definition ExtendedCodedFrames_wf :: "ExtendedCodedFrames \<Rightarrow> bool" where
  "ExtendedCodedFrames_wf m \<longleftrightarrow>
     known_fourcc (ecf_FourCC m) \<and>
     (if ecf_FourCC m = FourCCHEVC
      then ecf_PTSDelta m = of_ms (to_ms (ecf_PTSDelta m)) \<and> unat (to_ms (ecf_PTSDelta m)) < 2 ^ 24
      else ecf_PTSDelta m = 0 \<and> 3 \<le> length (ecf_Payload m))"

definition ExtendedFramesX_wf :: "ExtendedFramesX \<Rightarrow> bool" where
  "ExtendedFramesX_wf m \<longleftrightarrow> known_fourcc (efx_FourCC m)"

interpretation ecf: message_codec ExtendedCodedFrames_Unmarshal ExtendedCodedFrames_Marshal
    ExtendedCodedFrames_wf TypeVideo
proof
  fix m
  assume wf: "ExtendedCodedFrames_wf m"
  have l: "length (ecf_FourCC m) = 4"
    using wf known_fourcc_length by (simp add: ExtendedCodedFrames_wf_def)
  note s = subslice_fourcc [OF l]
  have "of_be24 (be24 (to_ms (ecf_PTSDelta m)) ! 0) (be24 (to_ms (ecf_PTSDelta m)) ! Suc 0)
      (be24 (to_ms (ecf_PTSDelta m)) ! 2) = to_ms (ecf_PTSDelta m)" if "ecf_FourCC m = FourCCHEVC"
    using wf that by (intro of_be24_nth) (simp add: ExtendedCodedFrames_wf_def)
  with wf l s
  show "\<exists>raw. ExtendedCodedFrames_Marshal m = Inr raw \<and> m_Type raw = TypeVideo \<and>
      ExtendedCodedFrames_Unmarshal raw = Inr m"
    by (cases "ecf_FourCC m = FourCCHEVC")
       (simp_all add: ExtendedCodedFrames_Marshal_def ExtendedCodedFrames_Unmarshal_def Let_def
         ExtendedCodedFrames_wf_def nth_append fourcc_of_def uint_at_in_range)
qed

interpretation efx: message_codec ExtendedFramesX_Unmarshal ExtendedFramesX_Marshal ExtendedFramesX_wf TypeVideo
  by unfold_locales
     (auto simp: ExtendedFramesX_Marshal_def ExtendedFramesX_Unmarshal_def ExtendedFramesX_wf_def fourcc_of_def
       known_fourcc_length subslice_fourcc)

section \<open>Dispatch\<close>

fun message_wf :: "flvio \<Rightarrow> message \<Rightarrow> bool" where
  "message_wf fl (M_CommandAMF0 m) = CommandAMF0_wf fl m"
| "message_wf fl (M_DataAMF0 m) = DataAMF0_wf fl m"
| "message_wf fl (M_Audio m) = Audio_wf m"
| "message_wf fl (M_Video m) = Video_wf fl m"
| "message_wf fl (M_ExtendedCodedFrames m) = ExtendedCodedFrames_wf m"
| "message_wf fl (M_ExtendedFramesX m) = ExtendedFramesX_wf m"
| "message_wf fl (M_ExtendedSequenceStart m) = False"
| "message_wf fl (M_ExtendedSequenceEnd m) = False"
| "message_wf fl (M_ExtendedMetadata m) = False"
| "message_wf fl (M_ExtendedMPEG2TSSequenceStart m) = False"
| "message_wf fl m = True"

lemma allocate_video_Video:
  assumes "Video_wf fl m" and "Video_Marshal fl m = Inr raw"
  shows "allocate_video raw = Inr A_Video"
proof -
  define k where "k = (if vi_IsKeyFrame m then FRAME_KEY fl else FRAME_INTER fl)"
  define b0 where "b0 = push_bit 4 k OR vi_Codec m"
  have "k < 8" using assms(1) by (simp add: k_def Video_wf_def flvio_ok_def)
  from video_header(3) [OF this] have b0: "b0 AND 0x80 = 0" using assms(1) by (simp add: b0_def Video_wf_def)
  have "m_Body raw = [b0, vi_Type m] @ be24 (to_ms (vi_PTSDelta m)) @ vi_Payload m"
    using assms(2) by (auto simp: Video_Marshal_def Let_def b0_def k_def)
  with b0 show ?thesis by (simp add: allocate_video_def Let_def)
qed

lemma allocate_video_extended:
  assumes "known_fourcc cc" and "m_Body raw = (0x80 OR t) # cc @ r" and "t = 1 \<or> t = 3"
  shows "allocate_video raw = Inr (if t = 1 then A_ExtendedCodedFrames else A_ExtendedFramesX)"
  using assms known_fourcc_length [OF assms(1)]
  by (auto simp: allocate_video_def fourcc_of_def Let_def subslice_fourcc known_fourcc_def)

lemma allocate_control:
  "allocateMessage (control_message TypeSetChunkSize b) = Inr A_SetChunkSize"
  "allocateMessage (control_message TypeAcknowledge b) = Inr A_Acknowledge"
  "allocateMessage (control_message TypeSetWindowAckSize b) = Inr A_SetWindowAckSize"
  "allocateMessage (control_message TypeSetPeerBandwidth b) = Inr A_SetPeerBandwidth"
  "allocateMessage (control_message TypeUserControl (0 # 0 # b)) = Inr A_UserControlStreamBegin"
  "allocateMessage (control_message TypeUserControl (0 # 1 # b)) = Inr A_UserControlStreamEOF"
  "allocateMessage (control_message TypeUserControl (0 # 2 # b)) = Inr A_UserControlStreamDry"
  "allocateMessage (control_message TypeUserControl (0 # 3 # b)) = Inr A_UserControlSetBufferLength"
  "allocateMessage (control_message TypeUserControl (0 # 4 # b)) = Inr A_UserControlStreamIsRecorded"
  "allocateMessage (control_message TypeUserControl (0 # 6 # b)) = Inr A_UserControlPingRequest"
  "allocateMessage (control_message TypeUserControl (0 # 7 # b)) = Inr A_UserControlPingResponse"
  by (simp_all add: allocateMessage_def allocate_user_control_def uint_at_in_range)

lemma allocate_marshalled:
  assumes "message_wf fl m" and "message_Marshal fl m = Inr raw"
  shows "\<exists>k. allocateMessage raw = Inr k \<and> message_Unmarshal fl k raw = Inr m"
proof (cases m)
  case (M_Video v)
  with assms have "allocate_video raw = Inr A_Video" "m_Type raw = TypeVideo"
    using allocate_video_Video vi.marshal_type [of fl] by auto
  with M_Video assms vi.unmarshal_marshal [of fl v raw] show ?thesis
    by (simp add: allocateMessage_def message_Unmarshal_def)
next
  case (M_ExtendedCodedFrames v)
  then have "allocate_video raw = Inr A_ExtendedCodedFrames"
    using assms allocate_video_extended [of "ecf_FourCC v" raw 1]
    by (auto simp: ExtendedCodedFrames_wf_def ExtendedCodedFrames_Marshal_def Let_def split: if_splits)
  with M_ExtendedCodedFrames assms ecf.unmarshal_marshal [of v raw] ecf.marshal_type [of v raw] show ?thesis
    by (simp add: allocateMessage_def message_Unmarshal_def)
next
  case (M_ExtendedFramesX v)
  then have "allocate_video raw = Inr A_ExtendedFramesX"
    using assms allocate_video_extended [of "efx_FourCC v" raw 3]
    by (auto simp: ExtendedFramesX_wf_def ExtendedFramesX_Marshal_def)
  with M_ExtendedFramesX assms efx.unmarshal_marshal [of v raw] efx.marshal_type [of v raw] show ?thesis
    by (simp add: allocateMessage_def message_Unmarshal_def)
next
  case (M_Audio v)
  with assms au.unmarshal_marshal [of v raw] au.marshal_type [of v raw] show ?thesis
    by (simp add: allocateMessage_def message_Unmarshal_def)
next
  case (M_CommandAMF0 v)
  with assms cmd.unmarshal_marshal [of fl v raw] cmd.marshal_type [of fl v raw] show ?thesis
    by (simp add: allocateMessage_def message_Unmarshal_def)
next
  case (M_DataAMF0 v)
  with assms data.unmarshal_marshal [of fl v raw] data.marshal_type [of fl v raw] show ?thesis
    by (simp add: allocateMessage_def message_Unmarshal_def)
next
  case (M_SetChunkSize v)
  with assms scs.unmarshal_marshal [of v raw] have "SetChunkSize_Unmarshal raw = Inr v" by simp
  moreover have "allocateMessage raw = Inr A_SetChunkSize"
    using assms M_SetChunkSize by (auto simp: SetChunkSize_Marshal_def allocate_control)
  ultimately show ?thesis using M_SetChunkSize by (simp add: message_Unmarshal_def)
next
  case (M_Acknowledge v)
  with assms ack.unmarshal_marshal [of v raw] have "Acknowledge_Unmarshal raw = Inr v" by simp
  moreover have "allocateMessage raw = Inr A_Acknowledge"
    using assms M_Acknowledge by (auto simp: Acknowledge_Marshal_def allocate_control)
  ultimately show ?thesis using M_Acknowledge by (simp add: message_Unmarshal_def)
next
  case (M_SetWindowAckSize v)
  with assms swa.unmarshal_marshal [of v raw] have "SetWindowAckSize_Unmarshal raw = Inr v" by simp
  moreover have "allocateMessage raw = Inr A_SetWindowAckSize"
    using assms M_SetWindowAckSize by (auto simp: SetWindowAckSize_Marshal_def allocate_control)
  ultimately show ?thesis using M_SetWindowAckSize by (simp add: message_Unmarshal_def)
next
  case (M_SetPeerBandwidth v)
  with assms spb.unmarshal_marshal [of v raw] have "SetPeerBandwidth_Unmarshal raw = Inr v" by simp
  moreover have "allocateMessage raw = Inr A_SetPeerBandwidth"
    using assms M_SetPeerBandwidth by (auto simp: SetPeerBandwidth_Marshal_def allocate_control)
  ultimately show ?thesis using M_SetPeerBandwidth by (simp add: message_Unmarshal_def)
next
  case (M_UserControlStreamBegin v)
  with assms usb.unmarshal_marshal [of v raw] have "UserControlStreamBegin_Unmarshal raw = Inr v" by simp
  moreover have "allocateMessage raw = Inr A_UserControlStreamBegin"
    using assms M_UserControlStreamBegin by (auto simp: UserControlStreamBegin_Marshal_def allocate_control)
  ultimately show ?thesis using M_UserControlStreamBegin by (simp add: message_Unmarshal_def)
next
  case (M_UserControlStreamEOF v)
  with assms use.unmarshal_marshal [of v raw] have "UserControlStreamEOF_Unmarshal raw = Inr v" by simp
  moreover have "allocateMessage raw = Inr A_UserControlStreamEOF"
    using assms M_UserControlStreamEOF by (auto simp: UserControlStreamEOF_Marshal_def allocate_control)
  ultimately show ?thesis using M_UserControlStreamEOF by (simp add: message_Unmarshal_def)
next
  case (M_UserControlStreamDry v)
  with assms usd.unmarshal_marshal [of v raw] have "UserControlStreamDry_Unmarshal raw = Inr v" by simp
  moreover have "allocateMessage raw = Inr A_UserControlStreamDry"
    using assms M_UserControlStreamDry by (auto simp: UserControlStreamDry_Marshal_def allocate_control)
  ultimately show ?thesis using M_UserControlStreamDry by (simp add: message_Unmarshal_def)
next
  case (M_UserControlSetBufferLength v)
  with assms usl.unmarshal_marshal [of v raw] have "UserControlSetBufferLength_Unmarshal raw = Inr v" by simp
  moreover have "allocateMessage raw = Inr A_UserControlSetBufferLength"
    using assms M_UserControlSetBufferLength by (auto simp: UserControlSetBufferLength_Marshal_def allocate_control)
  ultimately show ?thesis using M_UserControlSetBufferLength by (simp add: message_Unmarshal_def)
next
  case (M_UserControlStreamIsRecorded v)
  with assms usr.unmarshal_marshal [of v raw] have "UserControlStreamIsRecorded_Unmarshal raw = Inr v" by simp
  moreover have "allocateMessage raw = Inr A_UserControlStreamIsRecorded"
    using assms M_UserControlStreamIsRecorded by (auto simp: UserControlStreamIsRecorded_Marshal_def allocate_control)
  ultimately show ?thesis using M_UserControlStreamIsRecorded by (simp add: message_Unmarshal_def)
next
  case (M_UserControlPingRequest v)
  with assms upq.unmarshal_marshal [of v raw] have "UserControlPingRequest_Unmarshal raw = Inr v" by simp
  moreover have "allocateMessage raw = Inr A_UserControlPingRequest"
    using assms M_UserControlPingRequest by (auto simp: UserControlPingRequest_Marshal_def allocate_control)
  ultimately show ?thesis using M_UserControlPingRequest by (simp add: message_Unmarshal_def)
next
  case (M_UserControlPingResponse v)
  with assms upr.unmarshal_marshal [of v raw] have "UserControlPingResponse_Unmarshal raw = Inr v" by simp
  moreover have "allocateMessage raw = Inr A_UserControlPingResponse"
    using assms M_UserControlPingResponse by (auto simp: UserControlPingResponse_Marshal_def allocate_control)
  ultimately show ?thesis using M_UserControlPingResponse by (simp add: message_Unmarshal_def)
qed (use assms in simp_all)

lemma message_wf_Marshal:
  assumes "message_wf fl m"
  shows "\<exists>raw. message_Marshal fl m = Inr raw"
proof (cases m)
  case (M_Audio v)
  then show ?thesis using assms au.marshal_ok [of v] by auto
next
  case (M_Video v)
  then show ?thesis using assms vi.marshal_ok [of fl v] by auto
next
  case (M_ExtendedCodedFrames v)
  then show ?thesis using assms ecf.marshal_ok [of v] by auto
qed (use assms in \<open>simp_all add: SetChunkSize_Marshal_def Acknowledge_Marshal_def SetWindowAckSize_Marshal_def
       SetPeerBandwidth_Marshal_def UserControlStreamBegin_Marshal_def UserControlStreamEOF_Marshal_def
       UserControlStreamDry_Marshal_def UserControlSetBufferLength_Marshal_def
       UserControlStreamIsRecorded_Marshal_def UserControlPingRequest_Marshal_def
       UserControlPingResponse_Marshal_def CommandAMF0_Marshal_def DataAMF0_Marshal_def
       ExtendedFramesX_Marshal_def\<close>)

end
