(* ===== verification/MessageRW.thy ===== *)
theory MessageRW
  imports RawStream MessageCodec
begin

text \<open>
  The message reader, writer and their combination of \<open>internal/rtmp/message\<close> (\<open>reader.go\<close>,
  \<open>writer.go\<close>, \<open>readwriter.go\<close>): the messages that set the chunk size and the acknowledge window take
  effect on the side that reads and on the side that writes, acknowledges are recorded, and ping
  requests are answered.
\<close>

section \<open>Reader\<close>

fun note_read :: "message \<Rightarrow> RawReader \<Rightarrow> RawReader" where
  "note_read (M_SetChunkSize m) r = RawReader_SetChunkSize (scs_Value m) r"
| "note_read (M_SetWindowAckSize m) r = RawReader_SetWindowAckSize (swa_Value m) r"
| "note_read _ r = r"

definition MsgReader_Read :: "flvio \<Rightarrow> (u32 \<Rightarrow> ('w, unit) io) \<Rightarrow> (RawReader \<times> 'w, message) io" where
  "MsgReader_Read fl onAckNeeded s =
     (case RawReader_Read onAckNeeded s of
        (Inl e, s) \<Rightarrow> (Inl e, s)
      | (Inr raw, (r, w)) \<Rightarrow>
          (case decode_message fl raw of
             Inl e \<Rightarrow> (Inl e, (r, w))
           | Inr msg \<Rightarrow> (Inr msg, (note_read msg r, w))))"

section \<open>Writer\<close>

fun note_write :: "message \<Rightarrow> RawWriter \<Rightarrow> RawWriter" where
  "note_write (M_SetChunkSize m) w = RawWriter_SetChunkSize (scs_Value m) w"
| "note_write (M_SetWindowAckSize m) w = RawWriter_SetWindowAckSize (swa_Value m) w"
| "note_write _ w = w"

definition MsgWriter_SetAcknowledgeValue :: "u32 \<Rightarrow> RawWriter \<Rightarrow> RawWriter" where
  "MsgWriter_SetAcknowledgeValue v w = RawWriter_SetAcknowledgeValue v w"

definition MsgWriter_Write :: "flvio \<Rightarrow> message \<Rightarrow> (RawWriter, unit) io" where
  "MsgWriter_Write fl msg w =
     (case message_Marshal fl msg of
        Inl e \<Rightarrow> (Inl e, w)
      | Inr raw \<Rightarrow>
          (case RawWriter_Write raw w of
             (Inl e, w) \<Rightarrow> (Inl e, w)
           | (Inr _, w) \<Rightarrow> (Inr (), note_write msg w)))"

section \<open>ReadWriter\<close>

record MsgReadWriter =
  rw_r :: RawReader
  rw_w :: RawWriter

definition MsgReadWriter_New :: "bc_readwriter \<Rightarrow> bool \<Rightarrow> MsgReadWriter" where
  "MsgReadWriter_New bc checkAcknowledge =
     \<lparr>rw_r = RawReader_New (bcrw_Reader bc), rw_w = RawWriter_New (bcrw_Writer bc) checkAcknowledge\<rparr>"

definition send_acknowledge :: "flvio \<Rightarrow> u32 \<Rightarrow> (RawWriter, unit) io" where
  "send_acknowledge fl count = MsgWriter_Write fl (M_Acknowledge \<lparr>ack_Value = count\<rparr>)"

definition after_read :: "flvio \<Rightarrow> message \<Rightarrow> RawWriter \<Rightarrow> RawWriter" where
  "after_read fl msg w =
     (case msg of
        M_Acknowledge m \<Rightarrow> MsgWriter_SetAcknowledgeValue (ack_Value m) w
      | M_UserControlPingRequest m \<Rightarrow>
          snd (MsgWriter_Write fl (M_UserControlPingResponse \<lparr>upr_ServerTime = upq_ServerTime m\<rparr>) w)
      | _ \<Rightarrow> w)"

definition MsgReadWriter_Read :: "flvio \<Rightarrow> (MsgReadWriter, message) io" where
  "MsgReadWriter_Read fl rw =
     (case MsgReader_Read fl (send_acknowledge fl) (rw_r rw, rw_w rw) of
        (Inl e, (r, w)) \<Rightarrow> (Inl e, rw\<lparr>rw_r := r, rw_w := w\<rparr>)
      | (Inr msg, (r, w)) \<Rightarrow> (Inr msg, rw\<lparr>rw_r := r, rw_w := after_read fl msg w\<rparr>))"

definition MsgReadWriter_Write :: "flvio \<Rightarrow> message \<Rightarrow> (MsgReadWriter, unit) io" where
  "MsgReadWriter_Write fl msg rw =
     (case MsgWriter_Write fl msg (rw_w rw) of (res, w) \<Rightarrow> (res, rw\<lparr>rw_w := w\<rparr>))"

section \<open>Single messages\<close>

lemma decode_marshalled:
  "message_wf fl m \<Longrightarrow> message_Marshal fl m = Inr raw \<Longrightarrow> decode_message fl raw = Inr m"
  using allocate_marshalled [of fl m raw] by (auto simp: decode_message_def)

text \<open>
  C28. Every message that the server writes is understood by its own reader: a well-formed message of
  any of the kinds that implement \<open>Marshal\<close> is marshalled without an error, \<open>allocateMessage\<close> picks
  its struct from the raw message, and \<open>Unmarshal\<close> gives the message back.
\<close>

theorem message_roundtrip:
  assumes "message_wf fl m"
  shows "\<exists>raw. message_Marshal fl m = Inr raw \<and> decode_message fl raw = Inr m"
  using message_wf_Marshal [OF assms] decode_marshalled [OF assms] by blast

text \<open>An instance of the AMF0 codec that knows one list of values.\<close>

definition flvio_for :: "amf list \<Rightarrow> flvio" where
  "flvio_for vs =
     \<lparr>ParseAMFVals = (\<lambda>b. if b = [1] then Inr vs else Inl (Err ''unknown'')),
      FillAMF0ValsMalloc = (\<lambda>xs. if xs = vs then [1] else [2]), FRAME_KEY = 1, FRAME_INTER = 2\<rparr>"

definition connect_values :: "amf list" where
  "connect_values = [AString ''connect'', ANumber (f64_of_int 1), AMap [(''app'', AString ''stream'')]]"

definition connect_message :: message where
  "connect_message =
     M_CommandAMF0 \<lparr>cmd_ChunkStreamID = 3, cmd_MessageStreamID = 0, cmd_Name = ''connect'', cmd_CommandID = 1,
       cmd_Arguments = [AMap [(''app'', AString ''stream'')]]\<rparr>"

lemma connect_message_wf: "message_wf (flvio_for connect_values) connect_message"
  by (simp add: connect_message_def connect_values_def flvio_for_def CommandAMF0_wf_def amf_survives_def)

theorem message_roundtrip_witness:
  "\<exists>raw. message_Marshal (flvio_for connect_values) connect_message = Inr raw \<and>
     decode_message (flvio_for connect_values) raw = Inr connect_message"
  by (rule message_roundtrip [OF connect_message_wf])

lemma allocate_long: "allocateMessage raw = Inr k \<Longrightarrow> k \<in> {A_ExtendedSequenceStart, A_ExtendedFramesX,
    A_ExtendedMetadata, A_ExtendedMPEG2TSSequenceStart} \<Longrightarrow> 5 \<le> length (m_Body raw)"
  by (auto simp: allocateMessage_def allocate_user_control_def allocate_video_def uint_at_in_range Let_def
      split: if_splits)

lemmas unmarshal_defs =
  SetChunkSize_Unmarshal_def Acknowledge_Unmarshal_def SetWindowAckSize_Unmarshal_def
  SetPeerBandwidth_Unmarshal_def UserControlStreamBegin_Unmarshal_def UserControlStreamEOF_Unmarshal_def
  UserControlStreamDry_Unmarshal_def UserControlSetBufferLength_Unmarshal_def
  UserControlStreamIsRecorded_Unmarshal_def UserControlPingRequest_Unmarshal_def
  UserControlPingResponse_Unmarshal_def CommandAMF0_Unmarshal_def DataAMF0_Unmarshal_def
  Audio_Unmarshal_def Video_Unmarshal_def ExtendedSequenceStart_Unmarshal_def
  ExtendedCodedFrames_Unmarshal_def ExtendedSequenceEnd_Unmarshal_def ExtendedFramesX_Unmarshal_def
  ExtendedMetadata_Unmarshal_def ExtendedMPEG2TSSequenceStart_Unmarshal_def fourcc_of_def

lemma allocate_no_panic: "allocateMessage raw \<noteq> Inl Panic"
  by (auto simp: allocateMessage_def allocate_user_control_def allocate_video_def fourcc_of_def
      uint_at_in_range idx_def Let_def)

lemma unmarshal_no_panic:
  assumes "amf_no_panic fl" and "allocateMessage raw = Inr k"
  shows "message_Unmarshal fl k raw \<noteq> Inl Panic"
proof -
  have "ParseAMFVals fl (m_Body raw) \<noteq> Inl Panic" using assms(1) by (simp add: amf_no_panic_def)
  then show ?thesis
    using allocate_long [OF assms(2)]
    by (cases k) (auto simp: message_Unmarshal_def unmarshal_defs uint_at_in_range idx_def Let_def
      split: sum.splits amf.splits if_splits)
qed

end
