(* ===== verification/Handshake.thy ===== *)
theory Handshake
  imports ByteStream
begin

text \<open>
  The RTMP handshake (\<open>internal/rtmp/handshake\<close>) over the counting streams of a connection.  The keyed
  hash of the standard library (HMAC with SHA-256) and the random bytes are parameters; of the former,
  the theorems use only that it returns 32 bytes.  The place of a digest in a packet is chosen by the
  peer, so the functions that index and slice a packet there return a result, which is \<open>Panic\<close> out of
  range.
\<close>

section \<open>Reading and writing\<close>

definition rw_read_full :: "nat \<Rightarrow> (bc_readwriter, byte list) io" where
  "rw_read_full n rw = (let (r, rd) = read_full bc_Read n (bcrw_Reader rw) in (r, rw\<lparr>bcrw_Reader := rd\<rparr>))"

definition rw_write :: "byte list \<Rightarrow> (bc_readwriter, unit) io" where
  "rw_write p rw = (let (r, w) = bc_write p (bcrw_Writer rw) in (r, rw\<lparr>bcrw_Writer := w\<rparr>))"

section \<open>C0 and S0\<close>

definition rtmpVersion :: byte where
  "rtmpVersion = 0x03"

definition C0S0_Read :: "(bc_readwriter, unit) io" where
  "C0S0_Read = bindIO (rw_read_full 1) (\<lambda>buf.
     if buf ! 0 \<noteq> rtmpVersion then failIO (Err (''invalid rtmp version ('' @ show_nat (unat (buf ! 0)) @ '')'')) else returnIO ())"

definition C0S0_Write :: "(bc_readwriter, unit) io" where
  "C0S0_Write = rw_write [rtmpVersion]"

section \<open>C1 and S1\<close>

type_synonym hmac = "byte list \<Rightarrow> byte list \<Rightarrow> byte list"

definition hs_key_tail :: "byte list" where
  "hs_key_tail =
    [0xF0, 0xEE, 0xC2, 0x4A, 0x80, 0x68, 0xBE, 0xE8, 0x2E, 0x00, 0xD0, 0xD1,
     0x02, 0x9E, 0x7E, 0x57, 0x6E, 0xEC, 0x5D, 0x2D, 0x29, 0x80, 0x6F, 0xAB,
     0x93, 0xB8, 0xE6, 0x36, 0xCF, 0xEB, 0x31, 0xAE]"

definition hsClientFullKey :: "byte list" where
  "hsClientFullKey = map of_char ''Genuine Adobe Flash Player 001'' @ hs_key_tail"

definition hsServerFullKey :: "byte list" where
  "hsServerFullKey = map of_char ''Genuine Adobe Flash Media Server 001'' @ hs_key_tail"

definition hsClientPartialKey :: "byte list" where
  "hsClientPartialKey = take 30 hsClientFullKey"

definition hsServerPartialKey :: "byte list" where
  "hsServerPartialKey = take 36 hsServerFullKey"

definition hsCalcDigestPos :: "byte list \<Rightarrow> nat \<Rightarrow> nat result" where
  "hsCalcDigestPos p base =
     bindR (fold (\<lambda>i pos. bindR pos (\<lambda>pos. idx p (base + i) (\<lambda>b. Inr (pos + unat b)))) [0..<4] (Inr 0))
       (\<lambda>pos. Inr (pos mod 728 + base + 4))"

definition hsMakeDigest :: "hmac \<Rightarrow> byte list \<Rightarrow> byte list \<Rightarrow> int \<Rightarrow> byte list result" where
  "hsMakeDigest hmac key src gap =
     (if gap \<le> 0 then Inr (hmac key src)
      else slice_range src 0 (nat gap) (\<lambda>before. slice_from src (nat gap + 32) (\<lambda>after.
             Inr (hmac key (before @ after)))))"

definition hsFindDigest :: "hmac \<Rightarrow> byte list \<Rightarrow> byte list \<Rightarrow> nat \<Rightarrow> int result" where
  "hsFindDigest hmac p key base =
     bindR (hsCalcDigestPos p base) (\<lambda>gap.
     bindR (hsMakeDigest hmac key p (int gap)) (\<lambda>digest.
     slice_range p gap (gap + 32) (\<lambda>found. Inr (if found \<noteq> digest then -1 else int gap))))"

text \<open>The digest of the peer's key; None stands for the result \<open>false, nil\<close>.\<close>

definition hsParse1 :: "hmac \<Rightarrow> byte list \<Rightarrow> byte list \<Rightarrow> byte list \<Rightarrow> byte list option result" where
  "hsParse1 hmac p peerkey key =
     bindR (hsFindDigest hmac p peerkey 772) (\<lambda>pos.
     bindR (if pos = -1 then hsFindDigest hmac p peerkey 8 else Inr pos) (\<lambda>pos.
     if pos = -1 then Inr None
     else slice_range p (nat pos) (nat pos + 32) (\<lambda>found. map_sum id Some (hsMakeDigest hmac key found (-1)))))"

text \<open>Nil slices are told apart from empty ones where the code does.\<close>

record C1S1 =
  c1_Time :: u32
  c1_Random :: "byte list option"
  c1_Digest :: "byte list option"

definition C1S1_zero :: C1S1 where
  "C1S1_zero = \<lparr>c1_Time = 0, c1_Random = None, c1_Digest = None\<rparr>"

definition C1S1_Read :: "hmac \<Rightarrow> bool \<Rightarrow> bool \<Rightarrow> C1S1 \<Rightarrow> (bc_readwriter, C1S1) io" where
  "C1S1_Read hmac isC1 validateSignature c = bindIO (rw_read_full 1536) (\<lambda>buf.
     let (peerKey, key) = (if isC1 then (hsClientPartialKey, hsServerFullKey) else (hsServerPartialKey, hsClientFullKey))
     in bindIO (liftIO (hsParse1 hmac buf peerKey key)) (\<lambda>digest.
        if digest = None \<and> validateSignature then failIO (Err ''unable to validate C1/S1 signature'')
        else returnIO
          \<lparr>c1_Time = of_be32 (buf ! 0) (buf ! 1) (buf ! 2) (buf ! 3), c1_Random = Some (drop 8 buf),
           c1_Digest = (if digest = None then c1_Digest c else digest)\<rparr>))"

text \<open>
  \<open>rnd\<close> is what \<open>rand.Read\<close> delivers.  A random part that was nil becomes a slice of the buffer, and so
  contains the digest.
\<close>

definition C1S1_Write :: "hmac \<Rightarrow> byte list \<Rightarrow> bool \<Rightarrow> C1S1 \<Rightarrow> (bc_readwriter, C1S1) io" where
  "C1S1_Write hmac rnd isC1 c =
     (let buf = be32 (c1_Time c) @ [0, 0, 0, 0] @
            copy_at (replicate 1528 0) 0 (case c1_Random c of None \<Rightarrow> rnd | Some r \<Rightarrow> r);
          (peerKey, key) = (if isC1 then (hsServerFullKey, hsClientPartialKey) else (hsClientFullKey, hsServerPartialKey))
      in bindIO (liftIO (hsCalcDigestPos buf 8)) (\<lambda>gap.
         bindIO (liftIO (hsMakeDigest hmac key buf (int gap))) (\<lambda>digest.
         bindIO (liftIO (slice_from buf gap (\<lambda>_. Inr (copy_at buf gap digest)))) (\<lambda>buf.
         bindIO (liftIO (hsFindDigest hmac buf key 8)) (\<lambda>pos.
         bindIO (liftIO (if pos < 0 then Inl Panic
                         else slice_range buf (nat pos) (nat pos + 32) (\<lambda>found. hsMakeDigest hmac peerKey found (-1)))) (\<lambda>own.
         bindIO (rw_write buf) (\<lambda>_. returnIO
           (c\<lparr>c1_Random := Some (case c1_Random c of None \<Rightarrow> drop 8 buf | Some r \<Rightarrow> r),
              c1_Digest := Some own\<rparr>))))))))"

section \<open>C2 and S2\<close>

record C2S2 =
  c2_Time :: u32
  c2_Time2 :: u32
  c2_Random :: "byte list option"
  c2_Digest :: "byte list option"

definition C2S2_zero :: C2S2 where
  "C2S2_zero = \<lparr>c2_Time = 0, c2_Time2 = 0, c2_Random = None, c2_Digest = None\<rparr>"

definition nil_bytes :: "byte list option \<Rightarrow> byte list" where
  "nil_bytes b = (case b of None \<Rightarrow> [] | Some b \<Rightarrow> b)"

definition C2S2_Read :: "hmac \<Rightarrow> bool \<Rightarrow> C2S2 \<Rightarrow> (bc_readwriter, C2S2) io" where
  "C2S2_Read hmac validateSignature c = bindIO (rw_read_full 1536) (\<lambda>buf.
     let gap = length buf - 32 in
     bindIO (if validateSignature
             then liftIO (bindR (hsMakeDigest hmac (nil_bytes (c2_Digest c)) buf (int gap)) (\<lambda>digest.
                    slice_range buf gap (gap + 32) (\<lambda>found.
                      if found \<noteq> digest then Inl (Err ''unable to validate C2/S2 signature'') else Inr ())))
             else returnIO ()) (\<lambda>_.
     returnIO (c\<lparr>c2_Time := of_be32 (buf ! 0) (buf ! 1) (buf ! 2) (buf ! 3),
                 c2_Time2 := of_be32 (buf ! 4) (buf ! 5) (buf ! 6) (buf ! 7), c2_Random := Some (drop 8 buf)\<rparr>)))"

definition C2S2_Write :: "hmac \<Rightarrow> C2S2 \<Rightarrow> (bc_readwriter, unit) io" where
  "C2S2_Write hmac c =
     (let buf = be32 (c2_Time c) @ be32 (c2_Time2 c) @ copy_at (replicate 1528 0) 0 (nil_bytes (c2_Random c));
          gap = length buf - 32
      in case c2_Digest c of
           None \<Rightarrow> rw_write buf
         | Some key \<Rightarrow>
             bindIO (liftIO (hsMakeDigest hmac key buf (int gap))) (\<lambda>digest. rw_write (copy_at buf gap digest)))"

section \<open>The two sides\<close>

definition DoClient :: "hmac \<Rightarrow> byte list \<Rightarrow> bool \<Rightarrow> (bc_readwriter, unit) io" where
  "DoClient hmac rnd validateSignature =
     bindIO C0S0_Write (\<lambda>_.
     bindIO (C1S1_Write hmac rnd True C1S1_zero) (\<lambda>c1.
     bindIO C0S0_Read (\<lambda>_.
     bindIO (C1S1_Read hmac False validateSignature C1S1_zero) (\<lambda>s1.
     bindIO (C2S2_Read hmac validateSignature (C2S2_zero\<lparr>c2_Digest := c1_Digest c1\<rparr>)) (\<lambda>s2.
     C2S2_Write hmac (C2S2_zero\<lparr>c2_Time := c1_Time s1, c2_Random := c1_Random s1, c2_Digest := c1_Digest s1\<rparr>))))))"

definition DoServer :: "hmac \<Rightarrow> byte list \<Rightarrow> bool \<Rightarrow> (bc_readwriter, unit) io" where
  "DoServer hmac rnd validateSignature =
     bindIO C0S0_Read (\<lambda>_.
     bindIO (C1S1_Read hmac True validateSignature C1S1_zero) (\<lambda>c1.
     bindIO C0S0_Write (\<lambda>_.
     bindIO (C1S1_Write hmac rnd False C1S1_zero) (\<lambda>s1.
     bindIO (C2S2_Write hmac (C2S2_zero\<lparr>c2_Time := c1_Time c1, c2_Random := c1_Random c1, c2_Digest := c1_Digest c1\<rparr>)) (\<lambda>_.
     bindIO (C2S2_Read hmac validateSignature (C2S2_zero\<lparr>c2_Digest := c1_Digest s1\<rparr>)) (\<lambda>c2. returnIO ()))))))"

end
