(* ===== verification/Conn.thy ===== *)
theory Conn
  imports MessageRW Handshake
begin

text \<open>
  A RTMP connection (\<open>internal/rtmp/conn.go\<close>): the initialization of either side, a handshake followed by
  an exchange of commands.  \<open>net/url\<close> and the lookups of \<open>flvio.AMFMap\<close> are fields of a record that the
  definitions take as a parameter; a URL is of any type.  The exchange of commands takes the reading
  and writing of a message as arguments, so that it can be run over the real message streams and over
  an ideal connection.
\<close>

section \<open>Libraries\<close>

text \<open>
  \<open>url_RequestURI\<close> is that of a URL whose \<open>ForceQuery\<close> is off; \<open>url_at_root\<close> clears the query and sets the
  path to a slash; \<open>url_with\<close> sets host and scheme.
\<close>

record 'u rtmplib =
  url_RequestURI :: "'u \<Rightarrow> string"
  url_toString :: "'u \<Rightarrow> string"
  url_Parse :: "string \<Rightarrow> 'u result"
  url_ParseRequestURI :: "string \<Rightarrow> 'u result"
  url_Host :: "'u \<Rightarrow> string"
  url_Scheme :: "'u \<Rightarrow> string"
  url_at_root :: "'u \<Rightarrow> 'u"
  url_with :: "string \<Rightarrow> string \<Rightarrow> 'u \<Rightarrow> 'u"
  GetString :: "(string \<times> amf) list \<Rightarrow> string \<Rightarrow> string option"
  GetFloat64 :: "(string \<times> amf) list \<Rightarrow> string \<Rightarrow> float64 option"

text \<open>\<open>strings.Split\<close> with a separator of one character, \<open>strings.Join\<close>, and \<open>strings.Trim\<close> of one character.\<close>

fun Split_at :: "char \<Rightarrow> string \<Rightarrow> string list" where
  "Split_at sep [] = [[]]"
| "Split_at sep (c # cs) =
     (if c = sep then [] # Split_at sep cs
      else case Split_at sep cs of [] \<Rightarrow> [[c]] | s # ss \<Rightarrow> (c # s) # ss)"

fun Join_with :: "string \<Rightarrow> string list \<Rightarrow> string" where
  "Join_with sep [] = []"
| "Join_with sep [s] = s"
| "Join_with sep (s # ss) = s @ sep @ Join_with sep ss"

definition Trim_char :: "char \<Rightarrow> string \<Rightarrow> string" where
  "Trim_char c s = rev (dropWhile (\<lambda>x. x = c) (rev (dropWhile (\<lambda>x. x = c) s)))"

definition f64_is_1 :: "float64 \<Rightarrow> bool" where
  "f64_is_1 f \<longleftrightarrow> (case f of F64 m e \<Rightarrow> if e \<ge> 0 then m * 2 ^ nat e = 1 else m = 2 ^ nat (- e) | _ \<Rightarrow> False)"

section \<open>Results\<close>

definition resultIsOK1 :: "'u rtmplib \<Rightarrow> CommandAMF0 \<Rightarrow> bool" where
  "resultIsOK1 lib res =
     (if length (cmd_Arguments res) < 2 then False
      else case cmd_Arguments res ! 1 of
             AMap ma \<Rightarrow> (case GetString lib ma ''level'' of None \<Rightarrow> False | Some v \<Rightarrow> v = ''status'')
           | _ \<Rightarrow> False)"

definition resultIsOK2 :: "CommandAMF0 \<Rightarrow> bool" where
  "resultIsOK2 res =
     (if length (cmd_Arguments res) < 2 then False
      else case cmd_Arguments res ! 1 of ANumber v \<Rightarrow> f64_is_1 v | _ \<Rightarrow> False)"

section \<open>URLs\<close>

definition splitPath :: "'u rtmplib \<Rightarrow> 'u \<Rightarrow> string \<times> string" where
  "splitPath lib u =
     (let pathsegs = Split_at (CHR ''/'') (url_RequestURI lib u) in
      if length pathsegs = 2 then (pathsegs ! 1, '''')
      else if length pathsegs = 3 then (pathsegs ! 1, pathsegs ! 2)
      else if length pathsegs > 3 then (Join_with ''/'' (subslice pathsegs 1 3), Join_with ''/'' (drop 3 pathsegs))
      else ('''', ''''))"

text \<open>The error of the second \<open>Parse\<close> is ignored; its nil result would be dereferenced.\<close>

definition getTcURL :: "'u rtmplib \<Rightarrow> 'u \<Rightarrow> string result" where
  "getTcURL lib u =
     (let app = fst (splitPath lib u) in
      case url_Parse lib (url_toString lib u) of
        Inl _ \<Rightarrow> Inl Panic
      | Inr nu \<Rightarrow> Inr (url_toString lib (url_at_root lib nu) @ app))"

definition createURL :: "'u rtmplib \<Rightarrow> string \<Rightarrow> string \<Rightarrow> string \<Rightarrow> 'u result" where
  "createURL lib tcURL app play =
     bindR (url_ParseRequestURI lib (''/'' @ app @ ''/'' @ play)) (\<lambda>u.
     bindR (url_Parse lib tcURL) (\<lambda>tu.
     if url_Host lib tu = '''' then Inl (Err ''invalid host'')
     else if url_Scheme lib tu = '''' then Inl (Err ''invalid scheme'')
     else Inr (url_with lib (url_Host lib tu) (url_Scheme lib tu) u)))"

section \<open>Commands\<close>

definition command :: "byte \<Rightarrow> u32 \<Rightarrow> string \<Rightarrow> int \<Rightarrow> amf list \<Rightarrow> message" where
  "command csid msid name cid args =
     M_CommandAMF0 \<lparr>cmd_ChunkStreamID = csid, cmd_MessageStreamID = msid, cmd_Name = name, cmd_CommandID = cid,
       cmd_Arguments = args\<rparr>"

definition status :: "string \<Rightarrow> string \<Rightarrow> amf" where
  "status code description =
     AMap [(''level'', AString ''status''), (''code'', AString code), (''description'', AString description)]"

text \<open>The loops end when a command arrives or the connection ends; \<open>fuel\<close> bounds the messages they read.\<close>

fun readCommand :: "nat \<Rightarrow> ('s, message) io \<Rightarrow> ('s, CommandAMF0) io" where
  "readCommand 0 rd = failIO NoProgress"
| "readCommand (Suc fuel) rd = bindIO rd (\<lambda>msg.
     case msg of M_CommandAMF0 cmd \<Rightarrow> returnIO cmd | _ \<Rightarrow> readCommand fuel rd)"

fun readCommandResult ::
  "nat \<Rightarrow> ('s, message) io \<Rightarrow> int \<Rightarrow> string \<Rightarrow> (CommandAMF0 \<Rightarrow> bool) \<Rightarrow> ('s, unit) io" where
  "readCommandResult 0 rd commandID commandName isValid = failIO NoProgress"
| "readCommandResult (Suc fuel) rd commandID commandName isValid = bindIO rd (\<lambda>msg.
     case msg of
       M_CommandAMF0 cmd \<Rightarrow>
         if cmd_CommandID cmd = commandID \<and> cmd_Name cmd = commandName
         then if \<not> isValid cmd then failIO (Err ''server refused connect request'') else returnIO ()
         else readCommandResult fuel rd commandID commandName isValid
     | _ \<Rightarrow> readCommandResult fuel rd commandID commandName isValid)"

fun write_messages :: "(message \<Rightarrow> ('s, unit) io) \<Rightarrow> message list \<Rightarrow> ('s, unit) io" where
  "write_messages wr [] = returnIO ()"
| "write_messages wr (m # ms) = bindIO (wr m) (\<lambda>_. write_messages wr ms)"

section \<open>The client\<close>

definition greeting :: "message list" where
  "greeting =
     [M_SetWindowAckSize \<lparr>swa_Value = 2500000\<rparr>, M_SetPeerBandwidth \<lparr>spb_Value = 2500000, spb_Type = 2\<rparr>,
      M_SetChunkSize \<lparr>scs_Value = 65536\<rparr>]"

text \<open>A Go \<open>int\<close> among the values is \<open>AOther\<close>.\<close>

definition connect_args :: "string \<Rightarrow> string \<Rightarrow> amf list" where
  "connect_args connectpath tcURL =
     [AMap [(''app'', AString connectpath), (''flashVer'', AString ''LNX 9,0,124,2''), (''tcUrl'', AString tcURL),
            (''fpad'', ABool False), (''capabilities'', AOther 15), (''audioCodecs'', AOther 4071),
            (''videoCodecs'', AOther 252), (''videoFunction'', AOther 1)]]"

definition client_play ::
  "'u rtmplib \<Rightarrow> nat \<Rightarrow> ('s, message) io \<Rightarrow> (message \<Rightarrow> ('s, unit) io) \<Rightarrow> string \<Rightarrow> ('s, unit) io" where
  "client_play lib fuel rd wr actionpath =
     bindIO (wr (command 3 0 ''createStream'' 2 [ANil])) (\<lambda>_.
     bindIO (readCommandResult fuel rd 2 ''_result'' resultIsOK2) (\<lambda>_.
     bindIO (wr (M_UserControlSetBufferLength \<lparr>usl_StreamID = 0, usl_BufferLength = 0x64\<rparr>)) (\<lambda>_.
     bindIO (wr (command 4 0x1000000 ''play'' 3 [ANil, AString actionpath])) (\<lambda>_.
     readCommandResult fuel rd 3 ''onStatus'' (resultIsOK1 lib)))))"

definition client_publish ::
  "'u rtmplib \<Rightarrow> nat \<Rightarrow> ('s, message) io \<Rightarrow> (message \<Rightarrow> ('s, unit) io) \<Rightarrow> string \<Rightarrow> string \<Rightarrow> ('s, unit) io" where
  "client_publish lib fuel rd wr connectpath actionpath =
     bindIO (wr (command 3 0 ''releaseStream'' 2 [ANil, AString actionpath])) (\<lambda>_.
     bindIO (wr (command 3 0 ''FCPublish'' 3 [ANil, AString actionpath])) (\<lambda>_.
     bindIO (wr (command 3 0 ''createStream'' 4 [ANil])) (\<lambda>_.
     bindIO (readCommandResult fuel rd 4 ''_result'' resultIsOK2) (\<lambda>_.
     bindIO (wr (command 4 0x1000000 ''publish'' 5 [ANil, AString actionpath, AString connectpath])) (\<lambda>_.
     readCommandResult fuel rd 5 ''onStatus'' (resultIsOK1 lib))))))"

definition client_commands ::
  "'u rtmplib \<Rightarrow> nat \<Rightarrow> ('s, message) io \<Rightarrow> (message \<Rightarrow> ('s, unit) io) \<Rightarrow> 'u \<Rightarrow> bool \<Rightarrow> ('s, unit) io" where
  "client_commands lib fuel rd wr u isPublishing =
     (let (connectpath, actionpath) = splitPath lib u in
      bindIO (write_messages wr greeting) (\<lambda>_.
      bindIO (liftIO (getTcURL lib u)) (\<lambda>tcURL.
      bindIO (wr (command 3 0 ''connect'' 1 (connect_args connectpath tcURL))) (\<lambda>_.
      bindIO (readCommandResult fuel rd 1 ''_result'' (resultIsOK1 lib)) (\<lambda>_.
      if \<not> isPublishing then client_play lib fuel rd wr actionpath
      else client_publish lib fuel rd wr connectpath actionpath)))))"

section \<open>The server\<close>

definition connect_result :: "CommandAMF0 \<Rightarrow> float64 \<Rightarrow> message" where
  "connect_result cmd oe =
     command (cmd_ChunkStreamID cmd) 0 ''_result'' (cmd_CommandID cmd)
       [AMap [(''fmsVer'', AString ''LNX 9,0,124,2''), (''capabilities'', ANumber (f64_of_int 31))],
        AMap [(''level'', AString ''status''), (''code'', AString ''NetConnection.Connect.Success''),
              (''description'', AString ''Connection succeeded.''), (''objectEncoding'', ANumber oe)]]"

definition play_answers :: "int \<Rightarrow> message list" where
  "play_answers cid =
     [M_UserControlStreamIsRecorded \<lparr>usr_StreamID = 1\<rparr>, M_UserControlStreamBegin \<lparr>usb_StreamID = 1\<rparr>,
      command 5 0x1000000 ''onStatus'' cid [ANil, status ''NetStream.Play.Reset'' ''play reset''],
      command 5 0x1000000 ''onStatus'' cid [ANil, status ''NetStream.Play.Start'' ''play start''],
      command 5 0x1000000 ''onStatus'' cid [ANil, status ''NetStream.Data.Start'' ''data start''],
      command 5 0x1000000 ''onStatus'' cid [ANil, status ''NetStream.Play.PublishNotify'' ''publish notify'']]"

definition publish_answer :: "int \<Rightarrow> message" where
  "publish_answer cid =
     command 5 0x1000000 ''onStatus'' cid [ANil, status ''NetStream.Publish.Start'' ''publish start'']"

definition action_path :: "CommandAMF0 \<Rightarrow> string \<Rightarrow> string result" where
  "action_path cmd err =
     (if length (cmd_Arguments cmd) < 2 then Inl (Err err)
      else case cmd_Arguments cmd ! 1 of AString s \<Rightarrow> Inr s | _ \<Rightarrow> Inl (Err err))"

fun server_loop ::
  "'u rtmplib \<Rightarrow> nat \<Rightarrow> nat \<Rightarrow> ('s, message) io \<Rightarrow> (message \<Rightarrow> ('s, unit) io) \<Rightarrow> string \<Rightarrow> string \<Rightarrow> ('s, 'u \<times> bool) io" where
  "server_loop lib fuel 0 rd wr tcURL connectpath = failIO NoProgress"
| "server_loop lib fuel (Suc rounds) rd wr tcURL connectpath =
     bindIO (readCommand fuel rd) (\<lambda>cmd.
     if cmd_Name cmd = ''createStream''
     then bindIO (wr (command (cmd_ChunkStreamID cmd) 0 ''_result'' (cmd_CommandID cmd) [ANil, ANumber (f64_of_int 1)]))
            (\<lambda>_. server_loop lib fuel rounds rd wr tcURL connectpath)
     else if cmd_Name cmd = ''play''
     then bindIO (liftIO (bindR (action_path cmd ''invalid play command arguments'') (createURL lib tcURL connectpath))) (\<lambda>u.
          bindIO (write_messages wr (play_answers (cmd_CommandID cmd))) (\<lambda>_. returnIO (u, False)))
     else if cmd_Name cmd = ''publish''
     then bindIO (liftIO (bindR (action_path cmd ''invalid publish command arguments'') (createURL lib tcURL connectpath))) (\<lambda>u.
          bindIO (wr (publish_answer (cmd_CommandID cmd))) (\<lambda>_. returnIO (u, True)))
     else server_loop lib fuel rounds rd wr tcURL connectpath)"

text \<open>What the server takes from the \<open>connect\<close> command: the path, the URL and the object encoding.\<close>

definition parse_connect :: "'u rtmplib \<Rightarrow> CommandAMF0 \<Rightarrow> (string \<times> string \<times> float64) result" where
  "parse_connect lib cmd =
     (if cmd_Name cmd \<noteq> ''connect'' then Inl (Err ''unexpected command'')
      else if length (cmd_Arguments cmd) < 1 then Inl (Err ''invalid connect command'')
      else case cmd_Arguments cmd ! 0 of
             AMap ma \<Rightarrow>
               (case GetString lib ma ''app'' of
                  None \<Rightarrow> Inl (Err ''invalid connect command'')
                | Some connectpath \<Rightarrow>
                    (case (case GetString lib ma ''tcUrl'' of None \<Rightarrow> GetString lib ma ''tcurl'' | Some t \<Rightarrow> Some t) of
                       None \<Rightarrow> Inl (Err ''invalid connect command'')
                     | Some tcURL \<Rightarrow>
                         Inr (connectpath, Trim_char (CHR 0x27) tcURL,
                              case GetFloat64 lib ma ''objectEncoding'' of None \<Rightarrow> f64_of_int 0 | Some oe \<Rightarrow> oe)))
           | _ \<Rightarrow> Inl (Err ''invalid connect command''))"

definition server_commands ::
  "'u rtmplib \<Rightarrow> nat \<Rightarrow> nat \<Rightarrow> ('s, message) io \<Rightarrow> (message \<Rightarrow> ('s, unit) io) \<Rightarrow> ('s, 'u \<times> bool) io" where
  "server_commands lib fuel rounds rd wr =
     bindIO (readCommand fuel rd) (\<lambda>cmd.
     bindIO (liftIO (parse_connect lib cmd)) (\<lambda>(connectpath, tcURL, oe).
     bindIO (write_messages wr greeting) (\<lambda>_.
     bindIO (wr (connect_result cmd oe)) (\<lambda>_.
     server_loop lib fuel rounds rd wr tcURL connectpath))))"

section \<open>The connection\<close>

text \<open>The byte counters that the connection shares with its message streams are inside the latter.\<close>

record Conn =
  cn_bc :: bc_readwriter
  cn_mrw :: "MsgReadWriter option"

definition NewConn :: "byte list list \<Rightarrow> conn_out \<Rightarrow> Conn" where
  "NewConn r w = \<lparr>cn_bc = bc_NewReadWriter r w, cn_mrw = None\<rparr>"

definition Conn_BytesReceived :: "Conn \<Rightarrow> u64" where
  "Conn_BytesReceived c =
     (case cn_mrw c of None \<Rightarrow> bc_r_Count (bcrw_Reader (cn_bc c)) | Some mrw \<Rightarrow> bc_r_Count (br_rd (rr_br (rw_r mrw))))"

definition Conn_BytesSent :: "Conn \<Rightarrow> u64" where
  "Conn_BytesSent c =
     (case cn_mrw c of None \<Rightarrow> bc_w_Count (bcrw_Writer (cn_bc c)) | Some mrw \<Rightarrow> bc_w_Count (bw_wr (rw_bw (rw_w mrw))))"

definition on_mrw :: "(MsgReadWriter, 'a) io \<Rightarrow> (Conn, 'a) io" where
  "on_mrw m c =
     (case cn_mrw c of
        None \<Rightarrow> (Inl Panic, c)
      | Some mrw \<Rightarrow> (let (r, mrw) = m mrw in (r, c\<lparr>cn_mrw := Some mrw\<rparr>)))"

definition ReadMessage :: "flvio \<Rightarrow> (Conn, message) io" where
  "ReadMessage fl = on_mrw (MsgReadWriter_Read fl)"

definition WriteMessage :: "flvio \<Rightarrow> message \<Rightarrow> (Conn, unit) io" where
  "WriteMessage fl msg = on_mrw (MsgReadWriter_Write fl msg)"

text \<open>The handshake and the creation of the message streams.\<close>

definition begin_conn :: "(bc_readwriter, unit) io \<Rightarrow> (Conn, unit) io" where
  "begin_conn handshake c =
     (case handshake (cn_bc c) of
        (Inl e, bc) \<Rightarrow> (Inl e, c\<lparr>cn_bc := bc\<rparr>)
      | (Inr _, bc) \<Rightarrow> (Inr (), c\<lparr>cn_bc := bc, cn_mrw := Some (MsgReadWriter_New bc False)\<rparr>))"

text \<open>Every message takes at least one byte, which bounds the messages that the loops can read.\<close>

definition conn_fuel :: "Conn \<Rightarrow> nat" where
  "conn_fuel c = Suc (case cn_mrw c of None \<Rightarrow> 0 | Some mrw \<Rightarrow> length (rr_pending (rw_r mrw)))"

definition InitializeClient ::
  "'u rtmplib \<Rightarrow> flvio \<Rightarrow> hmac \<Rightarrow> byte list \<Rightarrow> 'u \<Rightarrow> bool \<Rightarrow> (Conn, unit) io" where
  "InitializeClient lib fl hmac rnd u isPublishing =
     bindIO (begin_conn (DoClient hmac rnd False)) (\<lambda>_ c.
       client_commands lib (conn_fuel c) (ReadMessage fl) (WriteMessage fl) u isPublishing c)"

definition InitializeServer :: "'u rtmplib \<Rightarrow> flvio \<Rightarrow> hmac \<Rightarrow> byte list \<Rightarrow> (Conn, 'u \<times> bool) io" where
  "InitializeServer lib fl hmac rnd =
     bindIO (begin_conn (DoServer hmac rnd False)) (\<lambda>_ c.
       server_commands lib (conn_fuel c) (conn_fuel c) (ReadMessage fl) (WriteMessage fl) c)"

end
