(* ===== verification/Duplex.thy ===== *)
theory Duplex
  imports Mtx_Prelude
begin

text \<open>
  Conversations over a connection with two directions.  The contract of the connection: what is
  pending can be received in order, receiving from an empty connection waits (in the model, ends with
  the end of file), what is sent is appended.  An operation \<open>does\<close> something if it consumes a given
  input, writes a given output and succeeds, whatever follows in the input; it \<open>waits\<close> if, after a given
  input and output, it asks for more.
\<close>

locale duplex =
  fixes recv :: "nat \<Rightarrow> ('s, 'i list) io" and send :: "'i list \<Rightarrow> ('s, unit) io"
    and pending :: "'s \<Rightarrow> 'i list" and sent :: "'s \<Rightarrow> 'i list" and healthy :: "'s \<Rightarrow> bool"
  assumes recv_ok: "healthy s \<Longrightarrow> n \<le> length (pending s) \<Longrightarrow>
      \<exists>s'. recv n s = (Inr (take n (pending s)), s') \<and> healthy s' \<and> pending s' = drop n (pending s) \<and> sent s' = sent s"
    and recv_wait: "healthy s \<Longrightarrow> 0 < n \<Longrightarrow> pending s = [] \<Longrightarrow> \<exists>s'. recv n s = (Inl EOF, s') \<and> sent s' = sent s"
    and send_ok: "healthy s \<Longrightarrow>
      \<exists>s'. send p s = (Inr (), s') \<and> healthy s' \<and> pending s' = pending s \<and> sent s' = sent s @ p"
begin

definition does :: "('s, 'a) io \<Rightarrow> 'i list \<Rightarrow> 'i list \<Rightarrow> 'a \<Rightarrow> bool" where
  "does m input output r \<longleftrightarrow> (\<forall>s rest. healthy s \<and> pending s = input @ rest \<longrightarrow>
     (\<exists>s'. m s = (Inr r, s') \<and> healthy s' \<and> pending s' = rest \<and> sent s' = sent s @ output))"

definition waits :: "('s, 'a) io \<Rightarrow> 'i list \<Rightarrow> 'i list \<Rightarrow> bool" where
  "waits m input output \<longleftrightarrow> (\<forall>s. healthy s \<and> pending s = input \<longrightarrow>
     (\<exists>s'. m s = (Inl EOF, s') \<and> sent s' = sent s @ output))"

lemma doesD:
  assumes "does m input output r" "healthy s" "pending s = input @ rest"
  shows "\<exists>s'. m s = (Inr r, s') \<and> healthy s' \<and> pending s' = rest \<and> sent s' = sent s @ output"
  using assms by (simp add: does_def)

lemma does_return: "does (returnIO a) [] [] a"
  by (simp add: does_def returnIO_def)

lemma does_recv: "length p = n \<Longrightarrow> does (recv n) p [] p"
  using recv_ok [of _ n] by (fastforce simp: does_def)

lemma does_send: "does (send p) [] p ()"
  using send_ok by (fastforce simp: does_def)

lemma does_bind:
  assumes "does m i1 o1 a" "does (f a) i2 o2 b"
  shows "does (bindIO m f) (i1 @ i2) (o1 @ o2) b"
  unfolding does_def
proof (intro allI impI, elim conjE)
  fix s rest
  assume "healthy s" "pending s = (i1 @ i2) @ rest"
  then obtain s1 where s1: "m s = (Inr a, s1)" "healthy s1" "pending s1 = i2 @ rest" "sent s1 = sent s @ o1"
    using doesD [OF assms(1)] by auto
  from doesD [OF assms(2) s1(2,3)] s1 show "\<exists>s'. bindIO m f s = (Inr b, s') \<and> healthy s' \<and> pending s' = rest \<and> sent s' = sent s @ o1 @ o2"
    by (auto simp: bindIO_Inr)
qed

lemma does_then: "does m i [] a \<Longrightarrow> does (f a) [] out b \<Longrightarrow> does (bindIO m f) i out b"
  using does_bind [of m i "[]" a f "[]" out b] by simp

lemma does_recv_bind: "length p = n \<Longrightarrow> does (f p) [] out b \<Longrightarrow> does (bindIO (recv n) f) p out b"
  using does_bind [OF does_recv, of p n f "[]" out b] by simp

lemma does_send_bind: "does (f ()) i out b \<Longrightarrow> does (bindIO (send p) f) i (p @ out) b"
  using does_bind [OF does_send, of f i out b p] by simp

lemma waits_recv: "0 < n \<Longrightarrow> waits (recv n) [] []"
  using recv_wait by (simp add: waits_def)

lemma waits_first: "waits m i out \<Longrightarrow> waits (bindIO m f) i out"
  by (fastforce simp: waits_def bindIO_def)

lemma waits_bind:
  assumes "does m i1 o1 a" "waits (f a) i2 o2"
  shows "waits (bindIO m f) (i1 @ i2) (o1 @ o2)"
  unfolding waits_def
proof (intro allI impI, elim conjE)
  fix s
  assume "healthy s" "pending s = i1 @ i2"
  then obtain s1 where s1: "m s = (Inr a, s1)" "healthy s1" "pending s1 = i2" "sent s1 = sent s @ o1"
    using doesD [OF assms(1)] by auto
  with assms(2) have "\<exists>s'. f a s1 = (Inl EOF, s') \<and> sent s' = sent s1 @ o2" unfolding waits_def by blast
  with s1 show "\<exists>s'. bindIO m f s = (Inl EOF, s') \<and> sent s' = sent s @ o1 @ o2" by (auto simp: bindIO_Inr)
qed

lemma waits_send_bind: "waits (f ()) i out \<Longrightarrow> waits (bindIO (send p) f) i (p @ out)"
  using waits_bind [OF does_send, of f i out p] by simp

end

end
