(* ===== verification/HandshakeSpec.thy ===== *)
theory HandshakeSpec
  imports Handshake Duplex
begin

text \<open>The two sides of the handshake understand each other, and no peer makes either of them panic.\<close>

section \<open>Packets\<close>

definition hmac_ok :: "hmac \<Rightarrow> bool" where
  "hmac_ok hmac \<longleftrightarrow> (\<forall>key data. length (hmac key data) = 32)"

text \<open>
  The functions on a packet of full length, where every index is in range: the place of the digest, the
  digest, the search for it and the two attempts to find it.
\<close>

definition digest_pos :: "byte list \<Rightarrow> nat \<Rightarrow> nat" where
  "digest_pos p base =
     (unat (p ! base) + unat (p ! (base + 1)) + unat (p ! (base + 2)) + unat (p ! (base + 3))) mod 728 + base + 4"

definition digest_of :: "hmac \<Rightarrow> byte list \<Rightarrow> byte list \<Rightarrow> int \<Rightarrow> byte list" where
  "digest_of hmac key src gap =
     hmac key (if gap \<le> 0 then src else take (nat gap) src @ drop (nat gap + 32) src)"

definition located :: "hmac \<Rightarrow> byte list \<Rightarrow> byte list \<Rightarrow> nat \<Rightarrow> int" where
  "located hmac p key base =
     (let gap = digest_pos p base
      in if subslice p gap (gap + 32) \<noteq> digest_of hmac key p (int gap) then -1 else int gap)"

definition parse1 :: "hmac \<Rightarrow> byte list \<Rightarrow> byte list \<Rightarrow> byte list \<Rightarrow> byte list option" where
  "parse1 hmac p peerkey key =
     (let pos = located hmac p peerkey 772;
          pos = (if pos = -1 then located hmac p peerkey 8 else pos)
      in if pos = -1 then None else Some (digest_of hmac key (subslice p (nat pos) (nat pos + 32)) (-1)))"

lemma CalcDigestPos_eq: "base + 4 \<le> length p \<Longrightarrow> hsCalcDigestPos p base = Inr (digest_pos p base)"
  by (simp add: hsCalcDigestPos_def digest_pos_def upt_rec numeral_2_eq_2 numeral_3_eq_3 add.assoc)

lemma MakeDigest_eq:
  "gap \<le> 0 \<or> nat gap + 32 \<le> length src \<Longrightarrow> hsMakeDigest hmac key src gap = Inr (digest_of hmac key src gap)"
  by (auto simp: hsMakeDigest_def digest_of_def subslice_def)

lemma length_digest: "hmac_ok hmac \<Longrightarrow> length (digest_of hmac key src gap) = 32"
  by (simp add: hmac_ok_def digest_of_def)

lemma pos_bounds: "base + 4 \<le> digest_pos p base" "digest_pos p base \<le> base + 731"
  using mod_less_divisor [of 728 "unat (p ! base) + unat (p ! (base + 1)) + unat (p ! (base + 2)) + unat (p ! (base + 3))"]
  by (simp_all add: digest_pos_def del: mod_less_divisor)

lemma pos_cong:
  assumes "\<And>i. i < 4 \<Longrightarrow> p ! (base + i) = q ! (base + i)"
  shows "digest_pos p base = digest_pos q base"
  using assms [of 0] assms [of 1] assms [of 2] assms [of 3] by (simp add: digest_pos_def)

lemma FindDigest_eq:
  assumes "length p = 1536" and "base \<le> 772"
  shows "hsFindDigest hmac p key base = Inr (located hmac p key base)"
    "located hmac p key base = -1 \<or> 0 \<le> located hmac p key base \<and> located hmac p key base \<le> 1503"
  using pos_bounds [where base = base and p = p] assms
  by (auto simp: hsFindDigest_def located_def CalcDigestPos_eq MakeDigest_eq Let_def)

lemma Parse1_eq:
  assumes "length p = 1536"
  shows "hsParse1 hmac p peerkey key = Inr (parse1 hmac p peerkey key)"
  using FindDigest_eq(2) [OF assms, of 8 hmac peerkey] FindDigest_eq(2) [OF assms, of 772 hmac peerkey] assms
  by (auto simp: hsParse1_def parse1_def FindDigest_eq(1) MakeDigest_eq nat_le_iff Let_def)

text \<open>A buffer with the digest of its other bytes at the place that four of them determine.\<close>

definition sign1 :: "hmac \<Rightarrow> byte list \<Rightarrow> byte list \<Rightarrow> byte list" where
  "sign1 hmac key buf =
     (let gap = digest_pos buf 8 in copy_at buf gap (digest_of hmac key buf (int gap)))"

lemma nth_copy_at: "i < at \<Longrightarrow> at \<le> length buf \<Longrightarrow> copy_at buf at src ! i = buf ! i"
  using take_copy_at [of "Suc i" at buf src] by (metis Suc_leI lessI nth_take)

lemma sign1_facts:
  assumes "hmac_ok hmac" "length buf = 1536"
  shows "length (sign1 hmac key buf) = 1536"
    "located hmac (sign1 hmac key buf) key 8 = int (digest_pos buf 8)"
proof -
  let ?g = "digest_pos buf 8" and ?d = "digest_of hmac key buf (int (digest_pos buf 8))"
  have g: "12 \<le> ?g" "?g \<le> 739" using pos_bounds [where base = 8 and p = buf] by simp_all
  have d: "length ?d = 32" by (rule length_digest [OF assms(1)])
  have s: "sign1 hmac key buf = copy_at buf ?g ?d" by (simp add: sign1_def Let_def)
  show "length (sign1 hmac key buf) = 1536" using g assms(2) by (simp add: s)
  have p: "digest_pos (copy_at buf ?g ?d) 8 = ?g"
    by (rule pos_cong) (use g assms(2) in \<open>simp add: nth_copy_at\<close>)
  have "take ?g (copy_at buf ?g ?d) = take ?g buf" "drop (?g + 32) (copy_at buf ?g ?d) = drop (?g + 32) buf"
    using take_copy_at [of ?g ?g buf ?d] drop_copy_at [of ?g ?d buf] g d assms(2) by simp_all
  then have "digest_of hmac key (copy_at buf ?g ?d) (int ?g) = ?d" using g by (simp add: digest_of_def)
  moreover have "subslice (copy_at buf ?g ?d) ?g (?g + 32) = ?d"
    using subslice_copy_at [of ?g ?d buf] g d assms(2) by simp
  ultimately show "located hmac (sign1 hmac key buf) key 8 = int ?g"
    by (simp add: s located_def p Let_def)
qed

lemma copy_zeros: "length (copy_at (replicate 1528 0) 0 r) = 1528"
  by simp

text \<open>The first packet of a side that starts from nothing, and the digest that it keeps of it.\<close>

definition packet1 :: "hmac \<Rightarrow> byte list \<Rightarrow> bool \<Rightarrow> byte list" where
  "packet1 hmac rnd isC1 =
     sign1 hmac (if isC1 then hsClientPartialKey else hsServerPartialKey)
       (be32 0 @ [0, 0, 0, 0] @ copy_at (replicate 1528 0) 0 rnd)"

definition digest1 :: "hmac \<Rightarrow> byte list \<Rightarrow> bool \<Rightarrow> byte list" where
  "digest1 hmac rnd isC1 =
     (let p = packet1 hmac rnd isC1;
          pos = nat (located hmac p (if isC1 then hsClientPartialKey else hsServerPartialKey) 8)
      in digest_of hmac (if isC1 then hsServerFullKey else hsClientFullKey) (subslice p pos (pos + 32)) (-1))"

lemma packet1_facts:
  assumes "hmac_ok hmac"
  shows "length (packet1 hmac rnd isC1) = 1536"
    "located hmac (packet1 hmac rnd isC1) (if isC1 then hsClientPartialKey else hsServerPartialKey) 8 \<noteq> -1"
  using sign1_facts [OF assms] by (simp_all add: packet1_def)

lemma C1S1_Write_eq:
  assumes "hmac_ok hmac"
  shows "C1S1_Write hmac rnd isC1 C1S1_zero =
    bindIO (rw_write (packet1 hmac rnd isC1)) (\<lambda>_. returnIO
      \<lparr>c1_Time = 0, c1_Random = Some (drop 8 (packet1 hmac rnd isC1)), c1_Digest = Some (digest1 hmac rnd isC1)\<rparr>)"
proof -
  define buf where "buf = be32 0 @ [0, 0, 0, 0] @ copy_at (replicate 1528 0) 0 rnd"
  define key where "key = (if isC1 then hsClientPartialKey else hsServerPartialKey)"
  let ?g = "digest_pos buf 8" and ?p = "sign1 hmac key buf"
  have l: "length buf = 1536" by (simp add: buf_def be32_def)
  have p: "packet1 hmac rnd isC1 = ?p" by (simp add: packet1_def buf_def key_def)
  have g: "12 \<le> ?g" "?g \<le> 739" using pos_bounds [where base = 8 and p = buf] by simp_all
  note s = sign1_facts [OF assms l, of key]
  have calc: "hsCalcDigestPos buf 8 = Inr ?g" "hsMakeDigest hmac key buf (int ?g) = Inr (digest_of hmac key buf (int ?g))"
      "slice_from buf ?g (\<lambda>_. Inr (copy_at buf ?g (digest_of hmac key buf (int ?g)))) = Inr ?p"
    using g l by (simp_all add: CalcDigestPos_eq MakeDigest_eq sign1_def Let_def)
  have find: "hsFindDigest hmac ?p key 8 = Inr (int ?g)" using FindDigest_eq(1) [OF s(1), of 8] s(2) by simp
  have own: "slice_range ?p ?g (?g + 32) (\<lambda>found. hsMakeDigest hmac k found (-1)) =
      Inr (digest_of hmac k (subslice ?p ?g (?g + 32)) (-1))" for k
    using g s(1) by (simp add: MakeDigest_eq)
  have d: "digest1 hmac rnd isC1 = digest_of hmac (if isC1 then hsServerFullKey else hsClientFullKey)
      (subslice ?p ?g (?g + 32)) (-1)"
    using s(2) by (simp add: digest1_def p key_def [symmetric] Let_def)
  have "C1S1_Write hmac rnd isC1 C1S1_zero rw =
      bindIO (rw_write ?p) (\<lambda>_. returnIO \<lparr>c1_Time = 0, c1_Random = Some (drop 8 ?p),
        c1_Digest = Some (digest_of hmac (if isC1 then hsServerFullKey else hsClientFullKey)
          (subslice ?p ?g (?g + 32)) (-1))\<rparr>) rw" for rw
    using calc find own
    by (cases isC1) (simp_all add: C1S1_Write_def C1S1_zero_def buf_def [simplified, symmetric] key_def io_simps)
  then show ?thesis by (simp add: fun_eq_iff p d)
qed

text \<open>The second packet repeats the time and the random part of the peer, and is signed with the digest.\<close>

definition packet2 :: "hmac \<Rightarrow> byte list \<Rightarrow> byte list option \<Rightarrow> byte list" where
  "packet2 hmac p digest =
     (let buf = take 4 p @ [0, 0, 0, 0] @ drop 8 p in
      case digest of None \<Rightarrow> buf | Some d \<Rightarrow> copy_at buf 1504 (digest_of hmac d buf 1504))"

definition valid2 :: "hmac \<Rightarrow> byte list \<Rightarrow> byte list \<Rightarrow> bool" where
  "valid2 hmac digest buf \<longleftrightarrow> subslice buf 1504 1536 = digest_of hmac digest buf 1504"

lemma packet2_facts:
  assumes "hmac_ok hmac" "length p = 1536"
  shows "length (packet2 hmac p d) = 1536" "valid2 hmac d' (packet2 hmac p (Some d'))"
proof -
  let ?b = "take 4 p @ [0, 0, 0, 0] @ drop 8 p" and ?d = "digest_of hmac d' (take 4 p @ [0, 0, 0, 0] @ drop 8 p) 1504"
  have b: "length ?b = 1536" using assms(2) by simp
  have d: "length ?d = 32" by (rule length_digest [OF assms(1)])
  show "length (packet2 hmac p d) = 1536" using assms(2) by (simp add: packet2_def Let_def split: option.splits)
  have "take 1504 (copy_at ?b 1504 ?d) = take 1504 ?b" "drop (1504 + 32) (copy_at ?b 1504 ?d) = drop (1504 + 32) ?b"
    using take_copy_at [of 1504 1504 ?b ?d] drop_copy_at [of 1504 ?d ?b] b d by simp_all
  then have "digest_of hmac d' (copy_at ?b 1504 ?d) 1504 = ?d" by (simp add: digest_of_def)
  moreover have "subslice (copy_at ?b 1504 ?d) 1504 1536 = ?d" using subslice_copy_at [of 1504 ?d ?b] b d by simp
  ultimately show "valid2 hmac d' (packet2 hmac p (Some d'))" by (simp add: valid2_def packet2_def Let_def)
qed

section \<open>The connection\<close>

definition rw_pending :: "bc_readwriter \<Rightarrow> byte list" where
  "rw_pending rw = bc_pending (bcrw_Reader rw)"

definition rw_sent :: "bc_readwriter \<Rightarrow> byte list" where
  "rw_sent rw = bc_stream (bcrw_Writer rw)"

definition rw_healthy :: "bc_readwriter \<Rightarrow> bool" where
  "rw_healthy rw \<longleftrightarrow> bc_healthy (bcrw_Writer rw)"

interpretation bytes: duplex rw_read_full rw_write rw_pending rw_sent rw_healthy
proof
  fix rw n p
  assume h: "rw_healthy rw"
  show "\<exists>rw'. rw_read_full n rw = (Inr (take n (rw_pending rw)), rw') \<and> rw_healthy rw' \<and>
      rw_pending rw' = drop n (rw_pending rw) \<and> rw_sent rw' = rw_sent rw" if "n \<le> length (rw_pending rw)"
    using bc.read_full_ok [of n "bcrw_Reader rw"] that h
    by (auto simp: rw_read_full_def rw_pending_def rw_sent_def rw_healthy_def)
  show "\<exists>rw'. rw_read_full n rw = (Inl EOF, rw') \<and> rw_sent rw' = rw_sent rw" if "0 < n" "rw_pending rw = []"
    using bc.read_full_short [of "bcrw_Reader rw" n] that by (auto simp: rw_read_full_def rw_pending_def rw_sent_def)
  show "\<exists>rw'. rw_write p rw = (Inr (), rw') \<and> rw_healthy rw' \<and> rw_pending rw' = rw_pending rw \<and> rw_sent rw' = rw_sent rw @ p"
    using bc.write_ok [of "bcrw_Writer rw" p] h by (auto simp: rw_write_def rw_pending_def rw_sent_def rw_healthy_def)
qed

lemma C0S0_ok: "bytes.does C0S0_Read [rtmpVersion] [] ()" "bytes.does C0S0_Write [] [rtmpVersion] ()"
  "bytes.waits C0S0_Read [] []"
  by (simp_all add: C0S0_Read_def C0S0_Write_def bytes.does_send bytes.waits_recv bytes.waits_first
      bytes.does_recv_bind bytes.does_return)

lemma C1S1_Write_ok:
  assumes "hmac_ok hmac"
  shows "bytes.does (C1S1_Write hmac rnd isC1 C1S1_zero) [] (packet1 hmac rnd isC1)
    \<lparr>c1_Time = 0, c1_Random = Some (drop 8 (packet1 hmac rnd isC1)), c1_Digest = Some (digest1 hmac rnd isC1)\<rparr>"
  unfolding C1S1_Write_eq [OF assms] using bytes.does_bind [OF bytes.does_send bytes.does_return] by fastforce

lemma lift_result: "bindIO (liftIO (Inr a)) f = f a" "bindIO (liftIO (Inl e)) f = failIO e" "bindIO (returnIO a) f = f a"
  by (simp_all add: fun_eq_iff io_simps)

text \<open>What the reader of a first packet keeps of it.\<close>

definition parsed1 :: "hmac \<Rightarrow> bool \<Rightarrow> byte list \<Rightarrow> byte list option" where
  "parsed1 hmac isC1 p =
     (if isC1 then parse1 hmac p hsClientPartialKey hsServerFullKey else parse1 hmac p hsServerPartialKey hsClientFullKey)"

lemma C1S1_Read_ok:
  assumes "length p = 1536" "validate \<longrightarrow> parsed1 hmac isC1 p \<noteq> None"
  shows "bytes.does (C1S1_Read hmac isC1 validate C1S1_zero) p []
    \<lparr>c1_Time = of_be32 (p ! 0) (p ! 1) (p ! 2) (p ! 3), c1_Random = Some (drop 8 p), c1_Digest = parsed1 hmac isC1 p\<rparr>"
  unfolding C1S1_Read_def
  by (rule bytes.does_recv_bind [OF assms(1)])
    (use assms(2) bytes.does_return in
      \<open>auto simp: C1S1_zero_def parsed1_def Parse1_eq [OF assms(1)] lift_result Let_def split: if_splits\<close>)

lemma C2S2_Read_ok:
  assumes "length p = 1536" "validate \<longrightarrow> valid2 hmac (nil_bytes (c2_Digest c)) p"
  shows "\<exists>c'. bytes.does (C2S2_Read hmac validate c) p [] c'"
  unfolding C2S2_Read_def
  by (rule exI, rule bytes.does_recv_bind [OF assms(1)])
    (use assms bytes.does_return in \<open>auto simp: valid2_def MakeDigest_eq lift_result Let_def\<close>)

lemma take4: "4 \<le> length p \<Longrightarrow> take 4 p = [p ! 0, p ! 1, p ! 2, p ! 3]"
  by (rule nth_equalityI) (auto simp: less_Suc_eq numeral_2_eq_2 numeral_3_eq_3 eval_nat_numeral(2) numeral_eq_Suc)

lemma be32_0: "be32 0 = [0, 0, 0, 0]"
  by (simp add: be32_def)

lemma copy_all: "length r = 1528 \<Longrightarrow> copy_at (replicate 1528 0) 0 r = r"
  by (simp add: copy_at_def Let_def)

lemma C2S2_Write_ok:
  assumes "length p = 1536"
  shows "bytes.does (C2S2_Write hmac (C2S2_zero\<lparr>c2_Time := of_be32 (p ! 0) (p ! 1) (p ! 2) (p ! 3), c2_Random := Some (drop 8 p),
    c2_Digest := d\<rparr>)) [] (packet2 hmac p d) ()"
proof -
  have "length (drop 8 p) = 1528" using assms by simp
  then have "C2S2_Write hmac (C2S2_zero\<lparr>c2_Time := of_be32 (p ! 0) (p ! 1) (p ! 2) (p ! 3), c2_Random := Some (drop 8 p),
      c2_Digest := d\<rparr>) = rw_write (packet2 hmac p d)"
    using assms copy_all [of "drop 8 p"]
    by (simp add: C2S2_Write_def C2S2_zero_def packet2_def nil_bytes_def be32_of_be32 be32_0 take4 MakeDigest_eq lift_result Let_def
      split: option.splits)
  then show ?thesis by (simp add: bytes.does_send)
qed

section \<open>The conversation\<close>

lemma parsed1_own:
  assumes "hmac_ok hmac"
    and "located hmac (packet1 hmac rnd isC1) (if isC1 then hsClientPartialKey else hsServerPartialKey) 772 = -1"
  shows "parsed1 hmac isC1 (packet1 hmac rnd isC1) = Some (digest1 hmac rnd isC1)"
  using assms(2) packet1_facts(2) [OF assms(1), of rnd isC1]
  by (cases isC1) (simp_all add: parsed1_def parse1_def digest1_def Let_def)

text \<open>If a signature is to be validated, the random bytes do not contain another one by accident.\<close>

definition no_accident :: "hmac \<Rightarrow> byte list \<Rightarrow> bool \<Rightarrow> bool" where
  "no_accident hmac rnd isC1 \<longleftrightarrow>
     hsFindDigest hmac (packet1 hmac rnd isC1) (if isC1 then hsClientPartialKey else hsServerPartialKey) 772 = Inr (-1)"

lemma parsed1_valid:
  assumes "hmac_ok hmac" "validate \<longrightarrow> no_accident hmac rnd isC1"
  shows "validate \<longrightarrow> parsed1 hmac isC1 (packet1 hmac rnd isC1) \<noteq> None"
    "validate \<longrightarrow> valid2 hmac (digest1 hmac rnd isC1)
      (packet2 hmac (packet1 hmac rnd isC1) (parsed1 hmac isC1 (packet1 hmac rnd isC1)))"
  using parsed1_own [OF assms(1), of rnd isC1] packet2_facts(2) [OF assms(1) packet1_facts(1) [OF assms(1)]] assms(2)
    FindDigest_eq(1) [OF packet1_facts(1) [OF assms(1)], of 772]
  by (auto simp: no_accident_def)

lemma client_ok:
  assumes h: "hmac_ok hmac" and v: "validate \<longrightarrow> no_accident hmac rc True" and ps: "length ps = 1536"
    and sv: "validate \<longrightarrow> parsed1 hmac False ps \<noteq> None"
    and s2: "s2 = packet2 hmac (packet1 hmac rc True) (parsed1 hmac True (packet1 hmac rc True))"
  shows "bytes.does (DoClient hmac rc validate) ([rtmpVersion] @ ps @ s2)
     ([rtmpVersion] @ packet1 hmac rc True @ packet2 hmac ps (parsed1 hmac False ps)) ()"
proof -
  note p = packet1_facts(1) [OF h, of rc True]
  have "length s2 = 1536" unfolding s2 by (rule packet2_facts(1) [OF h p])
  moreover have "validate \<longrightarrow> valid2 hmac (nil_bytes (c2_Digest (C2S2_zero\<lparr>c2_Digest := Some (digest1 hmac rc True)\<rparr>))) s2"
    using parsed1_valid(2) [OF h v] by (simp add: s2 nil_bytes_def)
  ultimately obtain c' where c': "bytes.does (C2S2_Read hmac validate (C2S2_zero\<lparr>c2_Digest := Some (digest1 hmac rc True)\<rparr>)) s2 [] c'"
    using C2S2_Read_ok by blast
  have "bytes.does (DoClient hmac rc validate) ([] @ [] @ [rtmpVersion] @ ps @ s2 @ [])
      ([rtmpVersion] @ packet1 hmac rc True @ [] @ [] @ [] @ packet2 hmac ps (parsed1 hmac False ps)) ()"
    unfolding DoClient_def
    by (rule bytes.does_bind [OF C0S0_ok(2)], rule bytes.does_bind [OF C1S1_Write_ok [OF h]],
        rule bytes.does_bind [OF C0S0_ok(1)], rule bytes.does_bind [OF C1S1_Read_ok [OF ps sv]],
        simp only: C1S1.select_convs, rule bytes.does_bind [OF c']) (rule C2S2_Write_ok [OF ps])
  then show ?thesis by simp
qed

lemma client_waits:
  assumes "hmac_ok hmac"
  shows "bytes.waits (DoClient hmac rc validate) [] ([rtmpVersion] @ packet1 hmac rc True)"
proof -
  have "bytes.waits (DoClient hmac rc validate) ([] @ [] @ []) ([rtmpVersion] @ packet1 hmac rc True @ [])"
    unfolding DoClient_def
    by (rule bytes.waits_bind [OF C0S0_ok(2)], rule bytes.waits_bind [OF C1S1_Write_ok [OF assms]],
        rule bytes.waits_first [OF C0S0_ok(3)])
  then show ?thesis by simp
qed

lemma server_ok:
  assumes h: "hmac_ok hmac" and v: "validate \<longrightarrow> no_accident hmac rs False" and pc: "length pc = 1536"
    and cv: "validate \<longrightarrow> parsed1 hmac True pc \<noteq> None"
    and c2: "c2 = packet2 hmac (packet1 hmac rs False) (parsed1 hmac False (packet1 hmac rs False))"
  shows "bytes.does (DoServer hmac rs validate) ([rtmpVersion] @ pc @ c2)
     ([rtmpVersion] @ packet1 hmac rs False @ packet2 hmac pc (parsed1 hmac True pc)) ()"
    "bytes.waits (DoServer hmac rs validate) ([rtmpVersion] @ pc)
     ([rtmpVersion] @ packet1 hmac rs False @ packet2 hmac pc (parsed1 hmac True pc))"
proof -
  note p = packet1_facts(1) [OF h, of rs False]
  let ?rest = "bindIO (C2S2_Read hmac validate (C2S2_zero\<lparr>c2_Digest := Some (digest1 hmac rs False)\<rparr>)) (\<lambda>c2. returnIO ())"
  have "length c2 = 1536" unfolding c2 by (rule packet2_facts(1) [OF h p])
  moreover have "validate \<longrightarrow> valid2 hmac (nil_bytes (c2_Digest (C2S2_zero\<lparr>c2_Digest := Some (digest1 hmac rs False)\<rparr>))) c2"
    using parsed1_valid(2) [OF h v] by (simp add: c2 nil_bytes_def)
  ultimately obtain c' where c': "bytes.does (C2S2_Read hmac validate (C2S2_zero\<lparr>c2_Digest := Some (digest1 hmac rs False)\<rparr>)) c2 [] c'"
    using C2S2_Read_ok by blast
  have last: "bytes.does ?rest c2 [] ()" using bytes.does_bind [OF c' bytes.does_return] by simp
  have wait: "bytes.waits ?rest [] []"
    unfolding C2S2_Read_def by (intro bytes.waits_first bytes.waits_recv) simp
  note w = C2S2_Write_ok [OF pc, of hmac "parsed1 hmac True pc"]
  have "bytes.does (DoServer hmac rs validate) ([rtmpVersion] @ pc @ [] @ [] @ [] @ c2)
      ([] @ [] @ [rtmpVersion] @ packet1 hmac rs False @ packet2 hmac pc (parsed1 hmac True pc) @ []) ()"
    unfolding DoServer_def
    by (rule bytes.does_bind [OF C0S0_ok(1)], rule bytes.does_bind [OF C1S1_Read_ok [OF pc cv]],
        rule bytes.does_bind [OF C0S0_ok(2)], rule bytes.does_bind [OF C1S1_Write_ok [OF h]],
        simp only: C1S1.select_convs, rule bytes.does_bind [OF w]) (rule last)
  then show "bytes.does (DoServer hmac rs validate) ([rtmpVersion] @ pc @ c2)
     ([rtmpVersion] @ packet1 hmac rs False @ packet2 hmac pc (parsed1 hmac True pc)) ()" by simp
  have "bytes.waits (DoServer hmac rs validate) ([rtmpVersion] @ pc @ [] @ [] @ [] @ [])
      ([] @ [] @ [rtmpVersion] @ packet1 hmac rs False @ packet2 hmac pc (parsed1 hmac True pc) @ [])"
    unfolding DoServer_def
    by (rule bytes.waits_bind [OF C0S0_ok(1)], rule bytes.waits_bind [OF C1S1_Read_ok [OF pc cv]],
        rule bytes.waits_bind [OF C0S0_ok(2)], rule bytes.waits_bind [OF C1S1_Write_ok [OF h]],
        simp only: C1S1.select_convs, rule bytes.waits_bind [OF w]) (rule wait)
  then show "bytes.waits (DoServer hmac rs validate) ([rtmpVersion] @ pc)
     ([rtmpVersion] @ packet1 hmac rs False @ packet2 hmac pc (parsed1 hmac True pc))" by simp
qed

section \<open>Panics\<close>

definition calm_io :: "('s, 'a) io \<Rightarrow> bool" where
  "calm_io m \<longleftrightarrow> (\<forall>s. fst (m s) \<noteq> Inl Panic)"

lemma calm_bind: "calm_io m \<Longrightarrow> (\<And>a. calm_io (f a)) \<Longrightarrow> calm_io (bindIO m f)"
  by (auto simp: calm_io_def bindIO_def split: prod.splits sum.splits) (metis fst_conv)

lemma calm_basic: "calm_io (returnIO a)" "e \<noteq> Panic \<Longrightarrow> calm_io (failIO e)"
  by (simp_all add: calm_io_def returnIO_def failIO_def)

lemma calm_rw: "calm_io (rw_read_full n)" "calm_io (rw_write p)"
proof -
  have "fst (read_full bc_Read n r) \<noteq> Inl Panic" for r
    using bc.read_full_ok [of n r] bc.read_full_short [of r n] by (cases "n \<le> length (bc_pending r)") (auto split: if_splits)
  then show "calm_io (rw_read_full n)" by (simp add: calm_io_def rw_read_full_def split_beta Let_def)
  show "calm_io (rw_write p)"
    by (simp add: calm_io_def rw_write_def bc_write_def bc_Write_def conn_write_def Let_def split: option.splits prod.splits if_splits)
qed

lemma calm_read:
  assumes "\<And>buf. length buf = n \<Longrightarrow> calm_io (f buf)"
  shows "calm_io (bindIO (rw_read_full n) f)"
proof -
  have "fst (bindIO (rw_read_full n) f rw) \<noteq> Inl Panic" for rw
  proof (cases "rw_read_full n rw")
    case (Pair res rw')
    show ?thesis
    proof (cases res)
      case (Inl e)
      with Pair calm_rw(1) [of n] show ?thesis by (simp add: bindIO_def calm_io_def) (metis fst_conv)
    next
      case (Inr buf)
      have "length buf = n"
        using Pair Inr bc.read_full_ok [of n "bcrw_Reader rw"] bc.read_full_short [of "bcrw_Reader rw" n]
        by (cases "n \<le> length (bc_pending (bcrw_Reader rw))") (auto simp: rw_read_full_def split: if_splits)
      from assms [OF this] Pair Inr show ?thesis by (simp add: bindIO_def calm_io_def)
    qed
  qed
  then show ?thesis by (simp add: calm_io_def)
qed

lemma calm_C1S1_Read: "calm_io (C1S1_Read hmac isC1 validate c)"
  unfolding C1S1_Read_def
  by (rule calm_read) (auto simp: Parse1_eq lift_result Let_def intro!: calm_basic)

lemma calm_C2S2_Read: "calm_io (C2S2_Read hmac validate c)"
  unfolding C2S2_Read_def
  by (rule calm_read) (auto simp: MakeDigest_eq lift_result Let_def intro!: calm_basic)

lemma calm_C2S2_Write: "calm_io (C2S2_Write hmac c)"
  by (auto simp: C2S2_Write_def MakeDigest_eq lift_result be32_def Let_def intro!: calm_rw split: option.splits)

lemma calm_packets:
  assumes "hmac_ok hmac"
  shows "calm_io C0S0_Read" "calm_io C0S0_Write" "calm_io (C1S1_Write hmac rnd isC1 C1S1_zero)"
  unfolding C0S0_Read_def C0S0_Write_def C1S1_Write_eq [OF assms]
  by (auto intro!: calm_bind calm_rw calm_basic simp: Let_def)

section \<open>Claims\<close>

definition fresh_rw :: "byte list list \<Rightarrow> bc_readwriter" where
  "fresh_rw segs = bc_NewReadWriter segs \<lparr>co_sent = [], co_limit = None\<rparr>"

lemma fresh_rw_simps: "rw_healthy (fresh_rw segs)" "rw_pending (fresh_rw segs) = concat segs" "rw_sent (fresh_rw segs) = []"
  by (simp_all add: fresh_rw_def bc_NewReadWriter_def bc_NewReader_def bc_NewWriter_def rw_healthy_def bc_healthy_def
      rw_pending_def bc_pending_def rw_sent_def bc_stream_def)

lemma fresh_does:
  assumes "bytes.does m input output r" "concat segs = input @ rest"
  shows "\<exists>rw. m (fresh_rw segs) = (Inr r, rw) \<and> rw_sent rw = output \<and> rw_pending rw = rest"
  using bytes.doesD [OF assms(1) fresh_rw_simps(1), of segs rest] assms(2) by (auto simp: fresh_rw_simps)

lemma fresh_waits:
  assumes "bytes.waits m input output" "concat segs = input"
  shows "\<exists>rw. m (fresh_rw segs) = (Inl EOF, rw) \<and> rw_sent rw = output"
  using assms fresh_rw_simps [of segs] by (auto simp: bytes.waits_def)

text \<open>
  C5. Client and server complete the handshake with each other, with and without validation of the
  signatures, however their bytes are segmented.  The client greets before it has received anything;
  the greeting is all that the server needs for its answer; with the answer the client succeeds; and
  with what the client has sent by then the server succeeds.  Neither reads a byte beyond its part.
  Validation succeeds unless the random bytes contain a second valid digest by accident.
\<close>

theorem handshake_agrees:
  assumes "hmac_ok hmac" "validate \<longrightarrow> no_accident hmac rc True \<and> no_accident hmac rs False"
  shows "\<exists>hello answer finish.
    (\<exists>rw. DoClient hmac rc validate (fresh_rw []) = (Inl EOF, rw) \<and> rw_sent rw = hello) \<and>
    (\<forall>segs. concat segs = hello \<longrightarrow>
      (\<exists>rw. DoServer hmac rs validate (fresh_rw segs) = (Inl EOF, rw) \<and> rw_sent rw = answer)) \<and>
    (\<forall>segs rest. concat segs = answer @ rest \<longrightarrow>
      (\<exists>rw. DoClient hmac rc validate (fresh_rw segs) = (Inr (), rw) \<and> rw_sent rw = hello @ finish \<and> rw_pending rw = rest)) \<and>
    (\<forall>segs rest. concat segs = (hello @ finish) @ rest \<longrightarrow>
      (\<exists>rw. DoServer hmac rs validate (fresh_rw segs) = (Inr (), rw) \<and> rw_sent rw = answer \<and> rw_pending rw = rest))"
proof -
  let ?pc = "packet1 hmac rc True" and ?ps = "packet1 hmac rs False"
  let ?c2 = "packet2 hmac ?ps (parsed1 hmac False ?ps)" and ?s2 = "packet2 hmac ?pc (parsed1 hmac True ?pc)"
  have v: "validate \<longrightarrow> no_accident hmac rc True" "validate \<longrightarrow> no_accident hmac rs False" using assms(2) by simp_all
  note p = packet1_facts(1) [OF assms(1)] and sv = parsed1_valid(1) [OF assms(1)]
  note client = client_ok [OF assms(1) v(1) p sv [OF v(2)] refl]
    and server = server_ok [OF assms(1) v(2) p sv [OF v(1)] refl]
  show ?thesis
    by (rule exI [of _ "[rtmpVersion] @ ?pc"], rule exI [of _ "[rtmpVersion] @ ?ps @ ?s2"], rule exI [of _ ?c2])
      (use fresh_does [OF client] fresh_does [OF server(1)] fresh_waits [OF server(2)]
        fresh_waits [OF client_waits [OF assms(1)], of "[]"] in \<open>simp only: append_assoc concat.simps simp_thms\<close>, blast)
qed

text \<open>
  C26. Whatever bytes the peer sends, and wherever the connection breaks, neither side of the handshake
  panics: the places of a digest, which four bytes of the peer determine, lie within the packet together
  with the 32 bytes that are read and replaced there, and the digest that a side has just written is
  found by the search for it.
\<close>

theorem handshake_never_panics:
  assumes "hmac_ok hmac"
  shows "fst (DoClient hmac rnd validate rw) \<noteq> Inl Panic \<and> fst (DoServer hmac rnd validate rw) \<noteq> Inl Panic"
proof -
  have "calm_io (DoClient hmac rnd validate)" "calm_io (DoServer hmac rnd validate)"
    unfolding DoClient_def DoServer_def by (intro calm_bind calm_packets [OF assms] calm_C1S1_Read calm_C2S2_Read calm_C2S2_Write calm_basic)+
  then show ?thesis by (simp add: calm_io_def)
qed

text \<open>A hash that depends on the length of the data only, and random bytes that are all zero.\<close>

definition toy_hmac :: hmac where
  "toy_hmac key data = replicate 32 (1 + of_nat (length data))"

lemma toy_hmac_ok: "hmac_ok toy_hmac"
  by (simp add: hmac_ok_def toy_hmac_def)

lemma toy_no_accident: "no_accident toy_hmac [] isC1"
proof -
  let ?buf = "be32 0 @ [0, 0, 0, 0] @ copy_at (replicate 1528 0) 0 []" and ?key = "if isC1 then hsClientPartialKey else hsServerPartialKey"
  have buf: "?buf = replicate 1536 (0 :: byte)"
    by (simp add: be32_0 copy_at_def Let_def replicate_add [of 8 1528, symmetric] numeral_eq_Suc flip: replicate_Suc)
  let ?p = "packet1 toy_hmac [] isC1" and ?g = "digest_pos (replicate 1536 (0 :: byte)) 8"
  have g: "?g \<le> 739" using pos_bounds(2) [where base = 8 and p = "replicate 1536 (0 :: byte)"] by simp
  have p: "?p = copy_at (replicate 1536 0) ?g (toy_hmac ?key (take ?g (replicate 1536 0) @ drop (?g + 32) (replicate 1536 0)))"
    using pos_bounds(1) [where base = 8 and p = "replicate 1536 (0 :: byte)"]
    unfolding packet1_def buf sign1_def digest_of_def Let_def by simp
  let ?q = "digest_pos ?p 772"
  have q: "776 \<le> ?q" "?q \<le> 1503" using pos_bounds [where base = 772 and p = ?p] by simp_all
  have "?p ! ?q = drop (?g + 32) ?p ! (?q - (?g + 32))" using g q packet1_facts(1) [OF toy_hmac_ok, of "[]" isC1] by simp
  also have "drop (?g + 32) ?p = drop (?g + 32) (replicate 1536 0)"
    unfolding p using drop_copy_at [of ?g "toy_hmac ?key (take ?g (replicate 1536 0) @ drop (?g + 32) (replicate 1536 0))" "replicate 1536 0"] g
    by (simp add: toy_hmac_def)
  finally have z: "?p ! ?q = 0" using g q by simp
  have "subslice ?p ?q (?q + 32) \<noteq> digest_of toy_hmac ?key ?p (int ?q)"
  proof
    assume "subslice ?p ?q (?q + 32) = digest_of toy_hmac ?key ?p (int ?q)"
    then have "subslice ?p ?q (?q + 32) ! 0 = digest_of toy_hmac ?key ?p (int ?q) ! 0" by simp
    then show False using z q packet1_facts(1) [OF toy_hmac_ok, of "[]" isC1] by (simp add: subslice_def digest_of_def toy_hmac_def)
  qed
  then show ?thesis
    using FindDigest_eq(1) [OF packet1_facts(1) [OF toy_hmac_ok], of 772] by (simp add: no_accident_def located_def Let_def)
qed

theorem handshake_agrees_witness:
  "hmac_ok toy_hmac \<and> no_accident toy_hmac [] True \<and> no_accident toy_hmac [] False \<and>
   (\<exists>hello. \<exists>rw. DoClient toy_hmac [] True (fresh_rw []) = (Inl EOF, rw) \<and> rw_sent rw = hello)"
  using handshake_agrees [OF toy_hmac_ok, of True "[]" "[]"] toy_no_accident toy_hmac_ok by blast

theorem handshake_never_panics_witness:
  "hmac_ok toy_hmac \<and> fst (DoServer toy_hmac [] True (fresh_rw [[3, 1], [2]])) \<noteq> Inl Panic"
  using handshake_never_panics [OF toy_hmac_ok] toy_hmac_ok by blast

end
