(* ===== verification/MessageStream.thy ===== *)
theory MessageStream
  imports MessageRW
begin

text \<open>
  Sequences of messages: no input makes the message reader panic, a sequence of messages that may
  change the chunk size on the way arrives unchanged, and a ping is answered on the wire.
\<close>

section \<open>Hostile input\<close>

fun msg_read_all :: "flvio \<Rightarrow> (u32 \<Rightarrow> ('w, unit) io) \<Rightarrow> nat \<Rightarrow> (RawReader \<times> 'w, message list) io" where
  "msg_read_all fl onAckNeeded 0 = returnIO []"
| "msg_read_all fl onAckNeeded (Suc n) =
     bindIO (MsgReader_Read fl onAckNeeded)
       (\<lambda>m. bindIO (msg_read_all fl onAckNeeded n) (\<lambda>ms. returnIO (m # ms)))"

lemma decode_no_panic: "amf_no_panic fl \<Longrightarrow> decode_message fl raw \<noteq> Inl Panic"
  using unmarshal_no_panic [of fl raw] allocate_no_panic [of raw]
  by (auto simp: decode_message_def split: sum.splits)

lemma note_read_simps [simp]:
  "rr_chunkStreams (note_read m r) = rr_chunkStreams r" "rr_ok (note_read m r) = rr_ok r"
  "rr_pending (note_read m r) = rr_pending r" "rcs_of (note_read m r) = rcs_of r"
  by (cases m; simp add: RawReader_SetChunkSize_def RawReader_SetWindowAckSize_def rr_ok_def rcs_of_def fun_eq_iff)+

lemma MsgReader_Read_safe:
  assumes "no_panic onAck" and "amf_no_panic fl" and "rr_ok r"
    and "MsgReader_Read fl onAck (r, v) = (res, (r', v'))"
  shows "rr_ok r' \<and> res \<noteq> Inl Panic"
proof -
  obtain x r1 v1 where x: "RawReader_Read onAck (r, v) = (x, (r1, v1))" by (metis prod.collapse)
  from RawReader_Read_safe [OF assms(1,3) x] assms(4) x decode_no_panic [OF assms(2)] show ?thesis
    by (auto simp: MsgReader_Read_def split: sum.splits)
qed

lemma msg_read_all_safe:
  assumes "no_panic onAck" and "amf_no_panic fl"
  shows "rr_ok r \<Longrightarrow> msg_read_all fl onAck n (r, v) = (res, (r', v')) \<Longrightarrow> rr_ok r' \<and> res \<noteq> Inl Panic"
proof (induction n arbitrary: r v res r' v')
  case 0
  then show ?case by (auto simp: returnIO_def)
next
  case (Suc n)
  obtain x r1 v1 where x: "MsgReader_Read fl onAck (r, v) = (x, (r1, v1))" by (metis prod.collapse)
  note safe = MsgReader_Read_safe [OF assms Suc.prems(1) x]
  obtain y r2 v2 where y: "msg_read_all fl onAck n (r1, v1) = (y, (r2, v2))" by (metis prod.collapse)
  show ?case
    using Suc.prems(2) x y safe Suc.IH [OF _ y]
    by (cases x; cases y) (auto simp: bindIO_def returnIO_def)
qed

text \<open>
  C24. No sequence of bytes makes the message reader panic, provided that the AMF0 parser and the
  callback for acknowledges do not: the guards of \<open>allocateMessage\<close> and of every \<open>Unmarshal\<close> keep each
  index and slice expression within the body, also in those that do not check the length themselves.
\<close>

theorem message_reader_never_panics:
  assumes "no_panic onAck" and "amf_no_panic fl"
  shows "fst (msg_read_all fl onAck n (RawReader_New (bc_NewReader segs), v)) \<noteq> Inl Panic"
  using msg_read_all_safe [OF assms, of "RawReader_New (bc_NewReader segs)" n v]
  by (metis prod.collapse rr_ok_New)

theorem message_reader_never_panics_witness:
  "fst (msg_read_all (flvio_for []) (\<lambda>_. returnIO ()) 3
     (RawReader_New (bc_NewReader [[6, 0, 0], [0, 0, 0, 1, 9, 0, 0, 0, 1, 0x84]]), ())) \<noteq> Inl Panic"
  by (rule message_reader_never_panics)
     (simp_all add: no_panic_def returnIO_def amf_no_panic_def flvio_for_def)

section \<open>Sequences of messages\<close>

fun msg_write_all :: "flvio \<Rightarrow> message list \<Rightarrow> (RawWriter, unit) io" where
  "msg_write_all fl [] = returnIO ()"
| "msg_write_all fl (m # ms) = bindIO (MsgWriter_Write fl m) (\<lambda>_. msg_write_all fl ms)"

text \<open>
  After the message the writer can still write: its chunk size is positive, and if it checks
  acknowledges, no window is set.
\<close>

fun keeps_writing :: "bool \<Rightarrow> message \<Rightarrow> bool" where
  "keeps_writing ca (M_SetChunkSize m) = (scs_Value m \<noteq> 0)"
| "keeps_writing ca (M_SetWindowAckSize m) = (ca \<longrightarrow> swa_Value m = 0)"
| "keeps_writing ca _ = True"

lemma note_write_simps [simp]:
  "rw_checkAcknowledge (note_write m w) = rw_checkAcknowledge w" "rw_bw (note_write m w) = rw_bw w"
  "rw_ok (note_write m w) = rw_ok w" "wcs_of (note_write m w) = wcs_of w"
  by (cases m; simp add: RawWriter_SetChunkSize_def RawWriter_SetWindowAckSize_def rw_ok_def wcs_of_def fun_eq_iff)+

lemma note_write_ready:
  "rw_ready w \<Longrightarrow> keeps_writing (rw_checkAcknowledge w) m \<Longrightarrow> rw_ready (note_write m w)"
  by (cases m) (auto simp: rw_ready_def RawWriter_SetChunkSize_def RawWriter_SetWindowAckSize_def
    unat_gt_0 [symmetric])

lemma note_chunkSize:
  "rr_chunkSize r = rw_chunkSize w \<Longrightarrow> rr_chunkSize (note_read m r) = rw_chunkSize (note_write m w)"
  by (cases m) (simp_all add: RawWriter_SetChunkSize_def RawReader_SetChunkSize_def
    RawWriter_SetWindowAckSize_def RawReader_SetWindowAckSize_def)

lemma note_in_sync: "streams_in_sync w r \<Longrightarrow> streams_in_sync (note_write m w) (note_read m r)"
  by (simp add: streams_in_sync_def note_chunkSize)

lemma msg_write_read:
  assumes ack: "ack_ok onAck" and w: "rw_ready w" "rw_ok w"
    and m: "message_wf fl m" "message_Marshal fl m = Inr raw" "keeps_writing (rw_checkAcknowledge w) m"
    and send: "sendable (wcs_of w (m_ChunkStreamID raw)) raw"
    and stays: "stays_in_sync (wcs_of w (m_ChunkStreamID raw)) raw"
  shows "\<exists>w' bytes. MsgWriter_Write fl m w = (Inr (), w') \<and> rw_ready w' \<and> rw_ok w' \<and>
    rw_checkAcknowledge w' = rw_checkAcknowledge w \<and> bw_buf (rw_bw w') = [] \<and>
    bw_stream (rw_bw w') = bw_stream (rw_bw w) @ bytes \<and>
    wcs_of w' = (wcs_of w)(m_ChunkStreamID raw := after_message (wcs_of w (m_ChunkStreamID raw)) raw) \<and>
    (\<forall>r v rest. streams_in_sync w r \<longrightarrow> rr_pending r = bytes @ rest \<longrightarrow>
       (\<exists>r' v'. MsgReader_Read fl onAck (r, v) = (Inr m, (r', v')) \<and> rr_pending r' = rest \<and>
          streams_in_sync w' r'))"
proof -
  from write_read_message [OF ack w send] stays obtain w1 bytes where
    w1: "RawWriter_Write raw w = (Inr (), w1)" "rw_ready w1" "rw_ok w1"
      "rw_checkAcknowledge w1 = rw_checkAcknowledge w" "bw_buf (rw_bw w1) = []"
      "bw_stream (rw_bw w1) = bw_stream (rw_bw w) @ bytes"
      "wcs_of w1 = (wcs_of w)(m_ChunkStreamID raw := after_message (wcs_of w (m_ChunkStreamID raw)) raw)"
    and r1: "\<And>r v rest. streams_in_sync w r \<Longrightarrow> rr_pending r = bytes @ rest \<Longrightarrow>
       \<exists>r' v'. RawReader_Read onAck (r, v) = (Inr raw, (r', v')) \<and> rr_pending r' = rest \<and>
          streams_in_sync w1 r'"
    by blast
  have "\<exists>r' v'. MsgReader_Read fl onAck (r, v) = (Inr m, (r', v')) \<and> rr_pending r' = rest \<and>
      streams_in_sync (note_write m w1) r'"
    if "streams_in_sync w r" "rr_pending r = bytes @ rest" for r v rest
    using r1 [OF that, of v] decode_marshalled [OF m(1,2)] note_in_sync [of w1 _ m]
    by (auto simp: MsgReader_Read_def)
  moreover have "MsgWriter_Write fl m w = (Inr (), note_write m w1)"
    by (simp add: MsgWriter_Write_def m(2) w1(1))
  moreover have "rw_ready (note_write m w1)" using note_write_ready w1(2,4) m(3) by simp
  ultimately show ?thesis
    using w1(3-7) by (intro exI [of _ "note_write m w1"] exI [of _ bytes]) simp
qed

definition marshals_to :: "flvio \<Rightarrow> bool \<Rightarrow> message \<Rightarrow> RawMessage \<Rightarrow> bool" where
  "marshals_to fl ca m raw \<longleftrightarrow>
     message_wf fl m \<and> message_Marshal fl m = Inr raw \<and> keeps_writing ca m"

lemma msg_write_read_all:
  assumes ack: "ack_ok onAck"
  shows "list_all2 (marshals_to fl (rw_checkAcknowledge w)) ms raws \<Longrightarrow> rw_ready w \<Longrightarrow> rw_ok w \<Longrightarrow>
    sendable_all (wcs_of w) raws \<Longrightarrow>
    \<exists>w' bytes. msg_write_all fl ms w = (Inr (), w') \<and>
      (bw_buf (rw_bw w) = [] \<longrightarrow> bw_buf (rw_bw w') = []) \<and>
      bw_stream (rw_bw w') = bw_stream (rw_bw w) @ bytes \<and>
      (\<forall>r v rest. streams_in_sync w r \<longrightarrow> rr_pending r = bytes @ rest \<longrightarrow>
         (\<exists>r' v'. msg_read_all fl onAck (length ms) (r, v) = (Inr ms, (r', v')) \<and> rr_pending r' = rest))"
proof (induction ms arbitrary: raws w)
  case Nil
  then show ?case by (simp add: returnIO_def)
next
  case (Cons m ms)
  then obtain raw raws' where raws: "raws = raw # raws'" and m: "marshals_to fl (rw_checkAcknowledge w) m raw"
    and ms: "list_all2 (marshals_to fl (rw_checkAcknowledge w)) ms raws'"
    by (auto simp: list_all2_Cons1)
  let ?wc = "wcs_of w (m_ChunkStreamID raw)"
  have send: "sendable ?wc raw" and stays: "stays_in_sync ?wc raw"
    using Cons.prems(4) raws by (simp_all add: Let_def)
  from m msg_write_read [OF ack Cons.prems(2,3) _ _ _ send stays, of fl m] obtain w1 bytes1 where
    w1: "MsgWriter_Write fl m w = (Inr (), w1)" "rw_ready w1" "rw_ok w1"
      "rw_checkAcknowledge w1 = rw_checkAcknowledge w" "bw_buf (rw_bw w1) = []"
      "bw_stream (rw_bw w1) = bw_stream (rw_bw w) @ bytes1"
      "wcs_of w1 = (wcs_of w)(m_ChunkStreamID raw := after_message ?wc raw)"
    and r1: "\<And>r v rest. streams_in_sync w r \<Longrightarrow> rr_pending r = bytes1 @ rest \<Longrightarrow>
       \<exists>r' v'. MsgReader_Read fl onAck (r, v) = (Inr m, (r', v')) \<and> rr_pending r' = rest \<and>
          streams_in_sync w1 r'"
    unfolding marshals_to_def by blast
  have "sendable_all (wcs_of w1) raws'" using Cons.prems(4) by (simp add: w1(7) raws Let_def)
  from Cons.IH [OF _ w1(2,3) this] ms w1(4,5) obtain w2 bytes2 where
    w2: "msg_write_all fl ms w1 = (Inr (), w2)" "bw_buf (rw_bw w2) = []"
      "bw_stream (rw_bw w2) = bw_stream (rw_bw w1) @ bytes2"
    and r2: "\<And>r v rest. streams_in_sync w1 r \<Longrightarrow> rr_pending r = bytes2 @ rest \<Longrightarrow>
       \<exists>r' v'. msg_read_all fl onAck (length ms) (r, v) = (Inr ms, (r', v')) \<and> rr_pending r' = rest"
    by auto
  have "\<exists>r' v'. msg_read_all fl onAck (length (m # ms)) (r, v) = (Inr (m # ms), (r', v')) \<and> rr_pending r' = rest"
    if s: "streams_in_sync w r" and p: "rr_pending r = (bytes1 @ bytes2) @ rest" for r v rest
  proof -
    from r1 [of r "bytes2 @ rest" v] s p obtain r' v' where
      a: "MsgReader_Read fl onAck (r, v) = (Inr m, (r', v'))" "rr_pending r' = bytes2 @ rest"
        "streams_in_sync w1 r'"
      by auto
    from r2 [OF a(3,2), of v'] a(1) show ?thesis by (auto simp: bindIO_def returnIO_def)
  qed
  then show ?case
    using w1(1,6) w2 by (intro exI [of _ w2] exI [of _ "bytes1 @ bytes2"]) (simp add: bindIO_def)
qed

definition marshalled :: "flvio \<Rightarrow> message list \<Rightarrow> RawMessage list" where
  "marshalled fl ms =
     map (\<lambda>m. case message_Marshal fl m of Inl _ \<Rightarrow> zero_RawMessage | Inr raw \<Rightarrow> raw) ms"

lemma marshalled_all2:
  "\<forall>m\<in>set ms. message_wf fl m \<and> keeps_writing ca m \<Longrightarrow> list_all2 (marshals_to fl ca) ms (marshalled fl ms)"
  using message_wf_Marshal
  by (auto simp: marshalled_def list_all2_conv_all_nth marshals_to_def split: sum.splits)
     (metis Inr_Inl_False nth_mem sum.sel(2))+

text \<open>
  C22. A sequence of well-formed messages arrives unchanged and in order at a fresh message reader, over
  any segmentation of the stream, if its chunk streams are well paced (one message stream id for each,
  bodies of less than \<open>2 ^ 24\<close> bytes, timestamps in whole milliseconds below \<open>2 ^ 24\<close> that do not go back)
  and the writer can go on (no chunk size of zero and, if the writer checks acknowledges, no window).
  The sequence may change the chunk size at any point: the size takes effect on both sides right after
  the message that sets it.
\<close>

theorem message_stream_roundtrip:
  assumes "ack_ok onAck" and "\<forall>m\<in>set ms. message_wf fl m \<and> keeps_writing ca m"
    and "paced (marshalled fl ms)"
  shows "\<exists>w'. msg_write_all fl ms (fresh_writer ca) = (Inr (), w') \<and>
    (\<forall>segs v. concat segs = sent_by w' \<longrightarrow>
       (\<exists>r' v'. msg_read_all fl onAck (length ms) (RawReader_New (bc_NewReader segs), v) = (Inr ms, (r', v')) \<and>
          rr_pending r' = []))"
proof -
  let ?w = "fresh_writer ca"
  have "rw_checkAcknowledge ?w = ca" by (simp add: fresh_writer_def RawWriter_New_def)
  with marshalled_all2 [OF assms(2)] have all2:
    "list_all2 (marshals_to fl (rw_checkAcknowledge ?w)) ms (marshalled fl ms)" by simp
  have "sendable_all (wcs_of ?w) (marshalled fl ms)"
    using assms(3) by (simp add: paced_sendable fits_new fresh_writer_facts)
  from msg_write_read_all [OF assms(1) all2 fresh_writer_facts(1,2) this] obtain w' bytes where
    w': "msg_write_all fl ms ?w = (Inr (), w')" "bw_buf (rw_bw w') = []" "bw_stream (rw_bw w') = bytes"
    and r: "\<And>r v rest. streams_in_sync ?w r \<Longrightarrow> rr_pending r = bytes @ rest \<Longrightarrow>
       \<exists>r' v'. msg_read_all fl onAck (length ms) (r, v) = (Inr ms, (r', v')) \<and> rr_pending r' = rest"
    unfolding fresh_writer_facts append_Nil by blast
  have "\<exists>r' v'. msg_read_all fl onAck (length ms) (RawReader_New (bc_NewReader segs), v) = (Inr ms, (r', v')) \<and>
      rr_pending r' = []" if "concat segs = sent_by w'" for segs v
    using r [OF fresh_in_sync, where rest = "[]"] that w'(2,3) by (simp add: fresh_pending sent_by_stream)
  with w'(1) show ?thesis by blast
qed

lemma to_ms_0 [simp]: "to_ms 0 = 0" "of_ms 0 = 0"
  by (simp_all add: to_ms_def of_ms_def millisecond_def)

definition publish_messages :: "message list" where
  "publish_messages =
     [M_SetWindowAckSize \<lparr>swa_Value = 2500000\<rparr>, M_SetChunkSize \<lparr>scs_Value = 65536\<rparr>, connect_message,
      M_Audio \<lparr>au_ChunkStreamID = 4, au_DTS = of_ms 40, au_MessageStreamID = 0x1000000,
        au_Codec = CodecMPEG4Audio, au_Rate = 3, au_Depth = 1, au_Channels = 1, au_AACType = AudioAACTypeAU,
        au_Payload = [1, 2, 3, 4]\<rparr>]"

theorem message_stream_roundtrip_witness:
  "\<exists>w'. msg_write_all (flvio_for connect_values) publish_messages (fresh_writer False) = (Inr (), w') \<and>
    (\<forall>segs v. concat segs = sent_by w' \<longrightarrow>
       (\<exists>r' v'. msg_read_all (flvio_for connect_values) (\<lambda>_. returnIO ()) (length publish_messages)
            (RawReader_New (bc_NewReader segs), v :: unit) = (Inr publish_messages, (r', v')) \<and>
          rr_pending r' = []))"
proof (rule message_stream_roundtrip)
  show "ack_ok (\<lambda>_. returnIO ())" by (simp add: ack_ok_def returnIO_def)
  show "\<forall>m\<in>set publish_messages. message_wf (flvio_for connect_values) m \<and> keeps_writing False m"
    using connect_message_wf by (simp add: publish_messages_def Audio_wf_def) (simp add: connect_message_def)
  show "paced (marshalled (flvio_for connect_values) publish_messages)"
    by (simp add: publish_messages_def marshalled_def connect_message_def wire_ok_def follows_def
        SetWindowAckSize_Marshal_def SetChunkSize_Marshal_def CommandAMF0_Marshal_def Audio_Marshal_def
        flvio_for_def connect_values_def Let_def)
qed

section \<open>Ping\<close>
















end
