(* ===== verification/ConnSpec.thy ===== *)
theory ConnSpec
  imports Conn HandshakeSpec MessageStream
begin

text \<open>
  Client and server agree in the exchange of commands; the loops of the initialization end; no peer
  makes them panic.
\<close>

section \<open>An ideal connection\<close>

record mport =
  mp_in :: "message list"
  mp_out :: "message list"

definition mport_recv :: "nat \<Rightarrow> (mport, message list) io" where
  "mport_recv n p =
     (if n \<le> length (mp_in p) then (Inr (take n (mp_in p)), p\<lparr>mp_in := drop n (mp_in p)\<rparr>) else (Inl EOF, p))"

definition mport_send :: "message list \<Rightarrow> (mport, unit) io" where
  "mport_send ms p = (Inr (), p\<lparr>mp_out := mp_out p @ ms\<rparr>)"

definition mport_Read :: "(mport, message) io" where
  "mport_Read = bindIO (mport_recv 1) (\<lambda>ms. returnIO (hd ms))"

definition mport_Write :: "message \<Rightarrow> (mport, unit) io" where
  "mport_Write m = mport_send [m]"

interpretation msgs: duplex mport_recv mport_send mp_in mp_out "\<lambda>_. True"
  by unfold_locales (auto simp: mport_recv_def mport_send_def)

lemma mport_ok:
  "msgs.does mport_Read [m] [] m" "msgs.waits mport_Read [] []" "msgs.does (mport_Write m) [] [m] ()"
  by (simp_all add: mport_Read_def mport_Write_def msgs.does_send msgs.does_recv_bind msgs.does_return
      msgs.waits_first msgs.waits_recv)

lemma write_messages_ok: "msgs.does (write_messages mport_Write ms) [] ms ()"
proof (induction ms)
  case (Cons m ms)
  from msgs.does_bind [OF mport_ok(3) Cons.IH] show ?case by simp
qed (simp add: msgs.does_return)

section \<open>Commands\<close>

fun is_command :: "message \<Rightarrow> bool" where
  "is_command (M_CommandAMF0 cmd) = True"
| "is_command _ = False"

lemma readCommand_step:
  "\<not> is_command m \<Longrightarrow> msgs.does (readCommand fuel mport_Read) i out c \<Longrightarrow> msgs.does (readCommand (Suc fuel) mport_Read) (m # i) out c"
  "\<not> is_command m \<Longrightarrow> msgs.waits (readCommand fuel mport_Read) i out \<Longrightarrow> msgs.waits (readCommand (Suc fuel) mport_Read) (m # i) out"
  using msgs.does_bind [OF mport_ok(1), of "\<lambda>msg. case msg of M_CommandAMF0 cmd \<Rightarrow> returnIO cmd | _ \<Rightarrow> readCommand fuel mport_Read" m i out c]
    msgs.waits_bind [OF mport_ok(1), of "\<lambda>msg. case msg of M_CommandAMF0 cmd \<Rightarrow> returnIO cmd | _ \<Rightarrow> readCommand fuel mport_Read" m i out]
  by (cases m; simp)+

lemma readCommand_ok:
  "\<forall>m \<in> set noise. \<not> is_command m \<Longrightarrow> length noise < fuel \<Longrightarrow>
   msgs.does (readCommand fuel mport_Read) (noise @ [M_CommandAMF0 cmd]) [] cmd"
proof (induction noise arbitrary: fuel)
  case Nil
  then obtain f where "fuel = Suc f" by (cases fuel) auto
  then show ?case by (auto intro!: msgs.does_then [OF mport_ok(1)] msgs.does_return)
next
  case (Cons m noise)
  then obtain f where "fuel = Suc f" by (cases fuel) auto
  with Cons readCommand_step(1) [of m f] show ?case by simp
qed

lemma readCommand_waits:
  "\<forall>m \<in> set noise. \<not> is_command m \<Longrightarrow> length noise < fuel \<Longrightarrow> msgs.waits (readCommand fuel mport_Read) noise []"
proof (induction noise arbitrary: fuel)
  case Nil
  then show ?case by (cases fuel) (simp_all add: msgs.waits_first mport_ok)
next
  case (Cons m noise)
  then obtain f where "fuel = Suc f" by (cases fuel) auto
  with Cons readCommand_step(2) [of m f] show ?case by simp
qed

fun is_result :: "int \<Rightarrow> string \<Rightarrow> message \<Rightarrow> bool" where
  "is_result cid name (M_CommandAMF0 cmd) \<longleftrightarrow> cmd_CommandID cmd = cid \<and> cmd_Name cmd = name"
| "is_result cid name _ \<longleftrightarrow> False"

lemma readCommandResult_step:
  assumes "\<not> is_result cid name m"
  shows "msgs.does (readCommandResult fuel mport_Read cid name valid) i out u \<Longrightarrow>
      msgs.does (readCommandResult (Suc fuel) mport_Read cid name valid) (m # i) out u"
    "msgs.waits (readCommandResult fuel mport_Read cid name valid) i out \<Longrightarrow>
      msgs.waits (readCommandResult (Suc fuel) mport_Read cid name valid) (m # i) out"
proof -
  let ?f = "\<lambda>msg. case msg of
       M_CommandAMF0 cmd \<Rightarrow>
         if cmd_CommandID cmd = cid \<and> cmd_Name cmd = name
         then if \<not> valid cmd then failIO (Err ''server refused connect request'') else returnIO ()
         else readCommandResult fuel mport_Read cid name valid
     | _ \<Rightarrow> readCommandResult fuel mport_Read cid name valid"
  have "?f m = readCommandResult fuel mport_Read cid name valid" using assms by (cases m) auto
  then show "msgs.does (readCommandResult fuel mport_Read cid name valid) i out u \<Longrightarrow>
      msgs.does (readCommandResult (Suc fuel) mport_Read cid name valid) (m # i) out u"
    "msgs.waits (readCommandResult fuel mport_Read cid name valid) i out \<Longrightarrow>
      msgs.waits (readCommandResult (Suc fuel) mport_Read cid name valid) (m # i) out"
    using msgs.does_bind [OF mport_ok(1), of ?f m i out u] msgs.waits_bind [OF mport_ok(1), of ?f m i out] by simp_all
qed

lemma readCommandResult_ok:
  assumes "cmd_CommandID cmd = cid" "cmd_Name cmd = name" "valid cmd"
  shows "\<forall>m \<in> set noise. \<not> is_result cid name m \<Longrightarrow> length noise < fuel \<Longrightarrow>
    msgs.does (readCommandResult fuel mport_Read cid name valid) (noise @ [M_CommandAMF0 cmd]) [] ()"
proof (induction noise arbitrary: fuel)
  case Nil
  then obtain f where "fuel = Suc f" by (cases fuel) auto
  with assms show ?case by (auto intro!: msgs.does_then [OF mport_ok(1)] msgs.does_return)
next
  case (Cons m noise)
  then obtain f where "fuel = Suc f" by (cases fuel) auto
  with Cons readCommandResult_step(1) [of cid name m f] show ?case by simp
qed

lemma readCommandResult_waits:
  "\<forall>m \<in> set noise. \<not> is_result cid name m \<Longrightarrow> length noise < fuel \<Longrightarrow>
   msgs.waits (readCommandResult fuel mport_Read cid name valid) noise []"
proof (induction noise arbitrary: fuel)
  case Nil
  then show ?case by (cases fuel) (simp_all add: msgs.waits_first mport_ok)
next
  case (Cons m noise)
  then obtain f where "fuel = Suc f" by (cases fuel) auto
  with Cons readCommandResult_step(2) [of cid name m f] show ?case by simp
qed

section \<open>The server loop\<close>

lemma readCommand_bind:
  assumes "\<forall>m \<in> set noise. \<not> is_command m" "length noise < fuel"
  shows "msgs.does (f cmd) i out x \<Longrightarrow> msgs.does (bindIO (readCommand fuel mport_Read) f) (noise @ M_CommandAMF0 cmd # i) out x"
    "msgs.waits (f cmd) i out \<Longrightarrow> msgs.waits (bindIO (readCommand fuel mport_Read) f) (noise @ M_CommandAMF0 cmd # i) out"
  using msgs.does_bind [OF readCommand_ok [OF assms], of f cmd i out x]
    msgs.waits_bind [OF readCommand_ok [OF assms], of f cmd i out] by simp_all

lemma mport_Write_bind:
  "msgs.does (f ()) i out x \<Longrightarrow> msgs.does (bindIO (mport_Write m) f) i (m # out) x"
  "msgs.waits (f ()) i out \<Longrightarrow> msgs.waits (bindIO (mport_Write m) f) i (m # out)"
  using msgs.does_send_bind [of f i out x "[m]"] msgs.waits_send_bind [of f i out "[m]"] by (simp_all add: mport_Write_def)

lemma does_lift: "msgs.does (liftIO (Inr a)) [] [] a"
  by (simp add: msgs.does_def liftIO_def)

lemma server_loop_skip:
  assumes "\<forall>m \<in> set noise. \<not> is_command m" "length noise < fuel" "cmd_Name cmd \<notin> {''createStream'', ''play'', ''publish''}"
  shows "msgs.does (server_loop lib fuel rounds mport_Read mport_Write tc path) i out x \<Longrightarrow>
      msgs.does (server_loop lib fuel (Suc rounds) mport_Read mport_Write tc path) (noise @ M_CommandAMF0 cmd # i) out x"
    "msgs.waits (server_loop lib fuel rounds mport_Read mport_Write tc path) i out \<Longrightarrow>
      msgs.waits (server_loop lib fuel (Suc rounds) mport_Read mport_Write tc path) (noise @ M_CommandAMF0 cmd # i) out"
  unfolding server_loop.simps
  by (rule readCommand_bind(1) [OF assms(1,2)], use assms(3) in simp)
    (rule readCommand_bind(2) [OF assms(1,2)], use assms(3) in simp)

lemma server_loop_create:
  assumes "\<forall>m \<in> set noise. \<not> is_command m" "length noise < fuel" "cmd_Name cmd = ''createStream''"
    and "answer = command (cmd_ChunkStreamID cmd) 0 ''_result'' (cmd_CommandID cmd) [ANil, ANumber (f64_of_int 1)]"
  shows "msgs.does (server_loop lib fuel rounds mport_Read mport_Write tc path) i out x \<Longrightarrow>
      msgs.does (server_loop lib fuel (Suc rounds) mport_Read mport_Write tc path) (noise @ M_CommandAMF0 cmd # i) (answer # out) x"
    "msgs.waits (server_loop lib fuel rounds mport_Read mport_Write tc path) i out \<Longrightarrow>
      msgs.waits (server_loop lib fuel (Suc rounds) mport_Read mport_Write tc path) (noise @ M_CommandAMF0 cmd # i) (answer # out)"
  unfolding server_loop.simps
  by (rule readCommand_bind(1) [OF assms(1,2)], use assms(3) in \<open>simp add: assms(4) mport_Write_bind(1)\<close>)
    (rule readCommand_bind(2) [OF assms(1,2)], use assms(3) in \<open>simp add: assms(4) mport_Write_bind(2)\<close>)

lemma server_loop_end:
  assumes "\<forall>m \<in> set noise. \<not> is_command m" "length noise < fuel"
    and "cmd_Arguments cmd = ANil # AString actionpath # args" "createURL lib tc path actionpath = Inr u"
  shows "cmd_Name cmd = ''play'' \<Longrightarrow>
      msgs.does (server_loop lib fuel (Suc rounds) mport_Read mport_Write tc path) (noise @ [M_CommandAMF0 cmd])
        (play_answers (cmd_CommandID cmd)) (u, False)"
    "cmd_Name cmd = ''publish'' \<Longrightarrow>
      msgs.does (server_loop lib fuel (Suc rounds) mport_Read mport_Write tc path) (noise @ [M_CommandAMF0 cmd])
        [publish_answer (cmd_CommandID cmd)] (u, True)"
proof -
  have a: "bindR (action_path cmd err) (createURL lib tc path) = Inr u" for err
    using assms(3,4) by (simp add: action_path_def)
  have fin: "msgs.does (bindIO (write_messages mport_Write ms) (\<lambda>_. returnIO y)) [] ms y"
      "msgs.does (bindIO (mport_Write m) (\<lambda>_. returnIO y)) [] [m] y" for ms m and y :: "'a \<times> bool"
    using msgs.does_bind [OF write_messages_ok msgs.does_return] msgs.does_bind [OF mport_ok(3) msgs.does_return] by fastforce+
  show "msgs.does (server_loop lib fuel (Suc rounds) mport_Read mport_Write tc path) (noise @ [M_CommandAMF0 cmd])
      (play_answers (cmd_CommandID cmd)) (u, False)" if "cmd_Name cmd = ''play''"
    unfolding server_loop.simps
    by (rule readCommand_bind(1) [OF assms(1,2)])
      (simp add: that a, rule msgs.does_then [OF does_lift fin(1)])
  show "msgs.does (server_loop lib fuel (Suc rounds) mport_Read mport_Write tc path) (noise @ [M_CommandAMF0 cmd])
      [publish_answer (cmd_CommandID cmd)] (u, True)" if "cmd_Name cmd = ''publish''"
    unfolding server_loop.simps
    by (rule readCommand_bind(1) [OF assms(1,2)])
      (simp add: that a, rule msgs.does_then [OF does_lift fin(2)])
qed

lemma server_loop_waits:
  assumes "\<forall>m \<in> set noise. \<not> is_command m" "length noise < fuel"
  shows "msgs.waits (server_loop lib fuel (Suc rounds) mport_Read mport_Write tc path) noise []"
  unfolding server_loop.simps by (rule msgs.waits_first [OF readCommand_waits [OF assms]])

section \<open>URLs\<close>

lemma Split_at_nonempty: "Split_at sep s \<noteq> []"
  by (induction s) (auto split: list.splits)

lemma Join_Split: "Join_with [sep] (Split_at sep s) = s"
proof (induction s)
  case (Cons c cs)
  show ?case
  proof (cases "Split_at sep cs")
    case (Cons t ts)
    with Cons.IH show ?thesis by (cases ts) auto
  qed (use Split_at_nonempty in blast)
qed simp

lemma Split_at_single: "Split_at sep s = [t] \<longleftrightarrow> sep \<notin> set s \<and> t = s"
proof (induction s arbitrary: t)
  case (Cons c cs)
  obtain s ss where "Split_at sep cs = s # ss" using Split_at_nonempty by (meson neq_Nil_conv)
  with Cons.IH [of s] Cons.IH [of cs] show ?case by (cases ss) auto
qed auto

text \<open>
  The two parts of the path of a URL, joined again as the server does: the request URI of the URL, with
  a slash appended if it had only one.
\<close>

lemma splitPath_join:
  assumes "url_RequestURI lib u = CHR ''/'' # p" "splitPath lib u = (app, play)"
  shows "''/'' @ app @ ''/'' @ play = CHR ''/'' # p @ (if CHR ''/'' \<in> set p then [] else ''/'')"
proof -
  obtain t ts where s: "Split_at (CHR ''/'') p = t # ts" using Split_at_nonempty by (meson neq_Nil_conv)
  have j: "Join_with ''/'' (t # ts) = p" using Join_Split [of "CHR ''/''" p] by (simp add: s)
  have sl: "CHR ''/'' \<in> set p \<longleftrightarrow> ts \<noteq> []" using Split_at_single [of "CHR ''/''" p t] s j by (cases ts) auto
  show ?thesis
  proof (cases ts)
    case Nil
    with assms s j sl show ?thesis by (simp add: splitPath_def Let_def)
  next
    case (Cons t2 us)
    with assms s j sl show ?thesis
      by (cases us) (auto simp: splitPath_def Let_def subslice_def numeral_2_eq_2 numeral_3_eq_3)
  qed
qed

section \<open>The messages of a session\<close>

text \<open>On the wire, a Go \<open>int\<close> is a number like any other.\<close>

fun amf_wire :: "amf \<Rightarrow> amf" where
  "amf_wire (AOther n) = ANumber (f64_of_int (int n))"
| "amf_wire (AMap kvs) = AMap (map (\<lambda>(k, v). (k, amf_wire v)) kvs)"
| "amf_wire v = v"

fun wire :: "message \<Rightarrow> message" where
  "wire (M_CommandAMF0 cmd) = M_CommandAMF0 (cmd\<lparr>cmd_Arguments := map amf_wire (cmd_Arguments cmd)\<rparr>)"
| "wire m = m"

definition client1 :: "string \<Rightarrow> string \<Rightarrow> message list" where
  "client1 app tc = greeting @ [command 3 0 ''connect'' 1 (connect_args app tc)]"

definition client2 :: "bool \<Rightarrow> string \<Rightarrow> message list" where
  "client2 isPublishing play =
     (if isPublishing
      then [command 3 0 ''releaseStream'' 2 [ANil, AString play], command 3 0 ''FCPublish'' 3 [ANil, AString play],
            command 3 0 ''createStream'' 4 [ANil]]
      else [command 3 0 ''createStream'' 2 [ANil]])"

definition client3 :: "bool \<Rightarrow> string \<Rightarrow> string \<Rightarrow> message list" where
  "client3 isPublishing app play =
     (if isPublishing then [command 4 0x1000000 ''publish'' 5 [ANil, AString play, AString app]]
      else [M_UserControlSetBufferLength \<lparr>usl_StreamID = 0, usl_BufferLength = 0x64\<rparr>,
            command 4 0x1000000 ''play'' 3 [ANil, AString play]])"

definition server1 :: "float64 \<Rightarrow> message list" where
  "server1 oe = greeting @ [connect_result \<lparr>cmd_ChunkStreamID = 3, cmd_MessageStreamID = 0, cmd_Name = ''connect'',
     cmd_CommandID = 1, cmd_Arguments = []\<rparr> oe]"

definition server2 :: "bool \<Rightarrow> message list" where
  "server2 isPublishing = [command 3 0 ''_result'' (if isPublishing then 4 else 2) [ANil, ANumber (f64_of_int 1)]]"

definition server3 :: "bool \<Rightarrow> message list" where
  "server3 isPublishing = (if isPublishing then [publish_answer 5] else play_answers 3)"

text \<open>The player does not wait for the last three of the four status messages.\<close>

definition unread :: "bool \<Rightarrow> message list" where
  "unread isPublishing = (if isPublishing then [] else drop 3 (play_answers 3))"

definition amfmap_ok :: "'u rtmplib \<Rightarrow> bool" where
  "amfmap_ok lib \<longleftrightarrow>
     (\<forall>ma k v. distinct (map fst ma) \<and> map_of ma k = Some (AString v) \<longrightarrow> GetString lib ma k = Some v)"

section \<open>The sides of a session\<close>

lemma write_messages_bind:
  "msgs.does (f ()) i out x \<Longrightarrow> msgs.does (bindIO (write_messages mport_Write ms) f) i (ms @ out) x"
  "msgs.waits (f ()) i out \<Longrightarrow> msgs.waits (bindIO (write_messages mport_Write ms) f) i (ms @ out)"
  using msgs.does_bind [OF write_messages_ok, of f i out x ms] msgs.waits_bind [OF write_messages_ok, of f i out ms] by simp_all

lemma lift_bind:
  "msgs.does (f a) i out x \<Longrightarrow> msgs.does (bindIO (liftIO (Inr a)) f) i out x"
  "msgs.waits (f a) i out \<Longrightarrow> msgs.waits (bindIO (liftIO (Inr a)) f) i out"
  by (simp_all add: msgs.does_def msgs.waits_def io_simps)

lemma readCommandResult_bind:
  assumes "cmd_CommandID cmd = cid" "cmd_Name cmd = name" "valid cmd" "\<forall>m \<in> set noise. \<not> is_result cid name m" "length noise < fuel"
  shows "msgs.does (f ()) i out x \<Longrightarrow>
      msgs.does (bindIO (readCommandResult fuel mport_Read cid name valid) f) (noise @ M_CommandAMF0 cmd # i) out x"
    "msgs.waits (f ()) i out \<Longrightarrow>
      msgs.waits (bindIO (readCommandResult fuel mport_Read cid name valid) f) (noise @ M_CommandAMF0 cmd # i) out"
  using msgs.does_bind [OF readCommandResult_ok [where valid = valid, OF assms], of f i out x]
    msgs.waits_bind [OF readCommandResult_ok [where valid = valid, OF assms], of f i out] by simp_all

lemma greeting_facts [simp]:
  "\<forall>m \<in> set greeting. \<not> is_command m" "\<forall>m \<in> set greeting. \<not> is_result cid name m" "length greeting = 3"
  "map wire greeting = greeting"
  by (simp_all add: greeting_def)

lemma f64_1 [simp]: "f64_is_1 (f64_of_int 1)"
proof -
  have "f64_exp 1 = 0" by (subst f64_exp.simps) simp
  then show ?thesis by (simp add: f64_is_1_def f64_of_int_def Let_def)
qed

text \<open>The server.\<close>

definition wired_connect :: "string \<Rightarrow> string \<Rightarrow> CommandAMF0" where
  "wired_connect app tc = \<lparr>cmd_ChunkStreamID = 3, cmd_MessageStreamID = 0, cmd_Name = ''connect'', cmd_CommandID = 1,
     cmd_Arguments = map amf_wire (connect_args app tc)\<rparr>"

lemma wire_client1: "map wire (client1 app tc) = greeting @ [M_CommandAMF0 (wired_connect app tc)]"
  by (simp add: client1_def command_def wired_connect_def)

lemma parse_wired:
  assumes "amfmap_ok lib" "Trim_char (CHR 0x27) tc = tc"
  shows "\<exists>oe. parse_connect lib (wired_connect app tc) = Inr (app, tc, oe)"
proof -
  obtain ma where ma: "map amf_wire (connect_args app tc) = [AMap ma]" "distinct (map fst ma)"
      "map_of ma ''app'' = Some (AString app)" "map_of ma ''tcUrl'' = Some (AString tc)"
    by (auto simp: connect_args_def)
  then have "GetString lib ma ''app'' = Some app" "GetString lib ma ''tcUrl'' = Some tc"
    using assms(1) unfolding amfmap_ok_def by blast+
  with ma(1) assms(2) show ?thesis by (simp add: parse_connect_def wired_connect_def)
qed

lemma server_begin:
  assumes "parse_connect lib (wired_connect app tc) = Inr (app, tc, oe)" "4 \<le> fuel"
  shows "msgs.does (server_loop lib fuel rounds mport_Read mport_Write tc app) i out x \<Longrightarrow>
      msgs.does (server_commands lib fuel rounds mport_Read mport_Write) (map wire (client1 app tc) @ i) (server1 oe @ out) x"
    "msgs.waits (server_loop lib fuel rounds mport_Read mport_Write tc app) i out \<Longrightarrow>
      msgs.waits (server_commands lib fuel rounds mport_Read mport_Write) (map wire (client1 app tc) @ i) (server1 oe @ out)"
proof -
  have g: "length greeting < fuel" using assms(2) by simp
  have r: "connect_result (wired_connect app tc) oe = connect_result \<lparr>cmd_ChunkStreamID = 3, cmd_MessageStreamID = 0,
      cmd_Name = ''connect'', cmd_CommandID = 1, cmd_Arguments = []\<rparr> oe"
    by (simp add: connect_result_def wired_connect_def)
  show "msgs.does (server_commands lib fuel rounds mport_Read mport_Write) (map wire (client1 app tc) @ i) (server1 oe @ out) x"
    if "msgs.does (server_loop lib fuel rounds mport_Read mport_Write tc app) i out x"
    unfolding server_commands_def wire_client1 server1_def append_assoc append_Cons append_Nil r [symmetric]
    by (rule readCommand_bind(1) [OF greeting_facts(1) g], unfold assms(1), rule lift_bind(1), unfold prod.case,
        rule write_messages_bind(1), rule mport_Write_bind(1), rule that)
  show "msgs.waits (server_commands lib fuel rounds mport_Read mport_Write) (map wire (client1 app tc) @ i) (server1 oe @ out)"
    if "msgs.waits (server_loop lib fuel rounds mport_Read mport_Write tc app) i out"
    unfolding server_commands_def wire_client1 server1_def append_assoc append_Cons append_Nil r [symmetric]
    by (rule readCommand_bind(2) [OF greeting_facts(1) g], unfold assms(1), rule lift_bind(2), unfold prod.case,
        rule write_messages_bind(2), rule mport_Write_bind(2), rule that)
qed

declare server_loop.simps [simp del]

lemma server_skip1:
  assumes "0 < fuel" "name \<notin> {''createStream'', ''play'', ''publish''}"
  shows "msgs.does (server_loop lib fuel n mport_Read mport_Write tc app) i out x \<Longrightarrow>
      msgs.does (server_loop lib fuel (Suc n) mport_Read mport_Write tc app) (wire (command a b name c args) # i) out x"
    "msgs.waits (server_loop lib fuel n mport_Read mport_Write tc app) i out \<Longrightarrow>
      msgs.waits (server_loop lib fuel (Suc n) mport_Read mport_Write tc app) (wire (command a b name c args) # i) out"
  unfolding command_def wire.simps
   apply (rule server_loop_skip(1) [where noise = "[]", unfolded append_Nil]; use assms in simp)
  apply (rule server_loop_skip(2) [where noise = "[]", unfolded append_Nil]; use assms in simp)
  done

lemma server_create1:
  assumes "0 < fuel"
  shows "msgs.does (server_loop lib fuel n mport_Read mport_Write tc app) i out x \<Longrightarrow>
      msgs.does (server_loop lib fuel (Suc n) mport_Read mport_Write tc app) (wire (command a b ''createStream'' c args) # i)
        (command a 0 ''_result'' c [ANil, ANumber (f64_of_int 1)] # out) x"
    "msgs.waits (server_loop lib fuel n mport_Read mport_Write tc app) i out \<Longrightarrow>
      msgs.waits (server_loop lib fuel (Suc n) mport_Read mport_Write tc app) (wire (command a b ''createStream'' c args) # i)
        (command a 0 ''_result'' c [ANil, ANumber (f64_of_int 1)] # out)"
  unfolding command_def wire.simps
   apply (rule server_loop_create(1) [where noise = "[]", unfolded append_Nil]; use assms in \<open>simp add: command_def\<close>)
  apply (rule server_loop_create(2) [where noise = "[]", unfolded append_Nil]; use assms in \<open>simp add: command_def\<close>)
  done

definition rounds_left :: "bool \<Rightarrow> nat \<Rightarrow> nat" where
  "rounds_left pub rounds = (if pub then rounds - 3 else rounds - 1)"

lemma server_middle:
  assumes "4 \<le> fuel" "4 \<le> rounds"
  shows "msgs.does (server_loop lib fuel (rounds_left pub rounds) mport_Read mport_Write tc app) i out x \<Longrightarrow>
      msgs.does (server_loop lib fuel rounds mport_Read mport_Write tc app) (map wire (client2 pub play) @ i) (server2 pub @ out) x"
    "msgs.waits (server_loop lib fuel (rounds_left pub rounds) mport_Read mport_Write tc app) i out \<Longrightarrow>
      msgs.waits (server_loop lib fuel rounds mport_Read mport_Write tc app) (map wire (client2 pub play) @ i) (server2 pub @ out)"
proof -
  obtain r where r: "rounds = Suc (Suc (Suc (Suc r)))" using le_Suc_ex [OF assms(2)] by auto
  have f: "0 < fuel" using assms(1) by simp
  show "msgs.does (server_loop lib fuel (rounds_left pub rounds) mport_Read mport_Write tc app) i out x \<Longrightarrow>
      msgs.does (server_loop lib fuel rounds mport_Read mport_Write tc app) (map wire (client2 pub play) @ i) (server2 pub @ out) x"
    "msgs.waits (server_loop lib fuel (rounds_left pub rounds) mport_Read mport_Write tc app) i out \<Longrightarrow>
      msgs.waits (server_loop lib fuel rounds mport_Read mport_Write tc app) (map wire (client2 pub play) @ i) (server2 pub @ out)"
    by (cases pub; simp add: r rounds_left_def client2_def server2_def server_skip1 [OF f] server_create1 [OF f] del: wire.simps)+
qed

lemma server_session:
  assumes "parse_connect lib (wired_connect app tc) = Inr (app, tc, oe)" "createURL lib tc app play = Inr u"
    and "4 \<le> fuel" "4 \<le> rounds"
  shows "msgs.waits (server_commands lib fuel rounds mport_Read mport_Write) (map wire (client1 app tc)) (server1 oe)"
    "msgs.waits (server_commands lib fuel rounds mport_Read mport_Write) (map wire (client1 app tc @ client2 pub play)) (server1 oe @ server2 pub)"
    "msgs.does (server_commands lib fuel rounds mport_Read mport_Write) (map wire (client1 app tc @ client2 pub play @ client3 pub app play))
      (server1 oe @ server2 pub @ server3 pub) (u, pub)"
proof -
  have f: "0 < fuel" using assms(3) by simp
  obtain n m where n: "rounds_left pub rounds = Suc n" "rounds = Suc m"
    using assms(4) by (cases rounds; cases "rounds_left pub rounds") (auto simp: rounds_left_def split: if_splits)
  have w: "msgs.waits (server_loop lib fuel (Suc k) mport_Read mport_Write tc app) [] []" for k
    by (rule server_loop_waits) (use f in simp_all)
  from server_begin(2) [OF assms(1,3) w] show "msgs.waits (server_commands lib fuel rounds mport_Read mport_Write) (map wire (client1 app tc)) (server1 oe)"
    by (simp add: n(2))
  from server_begin(2) [OF assms(1,3) server_middle(2) [OF assms(3,4) w [of n, folded n(1)]]]
  show "msgs.waits (server_commands lib fuel rounds mport_Read mport_Write) (map wire (client1 app tc @ client2 pub play)) (server1 oe @ server2 pub)"
    by simp
  have "msgs.does (server_loop lib fuel (Suc n) mport_Read mport_Write tc app) (map wire (client3 pub app play)) (server3 pub) (u, pub)"
    using server_loop_end(1) [where noise = "[M_UserControlSetBufferLength \<lparr>usl_StreamID = 0, usl_BufferLength = 0x64\<rparr>]"
        and fuel = fuel and cmd = "\<lparr>cmd_ChunkStreamID = 4, cmd_MessageStreamID = 0x1000000, cmd_Name = ''play'', cmd_CommandID = 3,
          cmd_Arguments = [ANil, AString play]\<rparr>" and args = "[]" and rounds = n, OF _ _ _ assms(2)]
      server_loop_end(2) [where noise = "[]" and fuel = fuel and cmd = "\<lparr>cmd_ChunkStreamID = 4, cmd_MessageStreamID = 0x1000000,
          cmd_Name = ''publish'', cmd_CommandID = 5, cmd_Arguments = [ANil, AString play, AString app]\<rparr>"
        and args = "[AString app]" and rounds = n, OF _ _ _ assms(2)] assms(3)
    by (cases pub) (simp_all add: client3_def server3_def command_def)
  from server_begin(1) [OF assms(1,3) server_middle(1) [OF assms(3,4) this [folded n(1)]]]
  show "msgs.does (server_commands lib fuel rounds mport_Read mport_Write) (map wire (client1 app tc @ client2 pub play @ client3 pub app play))
      (server1 oe @ server2 pub @ server3 pub) (u, pub)" by simp
qed

text \<open>The client.\<close>

lemma wire_server: "map wire (server1 oe) = server1 oe" "map wire (server2 pub) = server2 pub" "map wire (server3 pub) = server3 pub"
  by (simp_all add: server1_def server2_def server3_def connect_result_def command_def publish_answer_def play_answers_def status_def)

lemma level_status:
  assumes "amfmap_ok lib" "cmd_Arguments cmd = [a, AMap ma]" "distinct (map fst ma)" "map_of ma ''level'' = Some (AString ''status'')"
  shows "resultIsOK1 lib cmd"
  using assms unfolding amfmap_ok_def resultIsOK1_def by (simp add: assms(2))

definition client_tail :: "'u rtmplib \<Rightarrow> nat \<Rightarrow> bool \<Rightarrow> string \<Rightarrow> string \<Rightarrow> (mport, unit) io" where
  "client_tail lib fuel pub app play =
     (if \<not> pub then client_play lib fuel mport_Read mport_Write play
      else client_publish lib fuel mport_Read mport_Write app play)"

lemma client_begin:
  assumes "amfmap_ok lib" "splitPath lib u = (app, play)" "getTcURL lib u = Inr tc" "4 \<le> fuel"
  shows "msgs.waits (client_commands lib fuel mport_Read mport_Write u pub) [] (client1 app tc)"
    "msgs.waits (client_tail lib fuel pub app play) i out \<Longrightarrow>
      msgs.waits (client_commands lib fuel mport_Read mport_Write u pub) (server1 oe @ i) (client1 app tc @ out)"
    "msgs.does (client_tail lib fuel pub app play) i out x \<Longrightarrow>
      msgs.does (client_commands lib fuel mport_Read mport_Write u pub) (server1 oe @ i) (client1 app tc @ out) x"
proof -
  let ?cmd = "\<lparr>cmd_ChunkStreamID = 3, cmd_MessageStreamID = 0, cmd_Name = ''_result'', cmd_CommandID = 1, cmd_Arguments =
       [AMap [(''fmsVer'', AString ''LNX 9,0,124,2''), (''capabilities'', ANumber (f64_of_int 31))],
        AMap [(''level'', AString ''status''), (''code'', AString ''NetConnection.Connect.Success''),
              (''description'', AString ''Connection succeeded.''), (''objectEncoding'', ANumber oe)]]\<rparr>"
  have ok: "resultIsOK1 lib ?cmd" by (rule level_status [OF assms(1)]) auto
  have s: "server1 oe = greeting @ [M_CommandAMF0 ?cmd]" by (simp add: server1_def connect_result_def command_def)
  have g: "length greeting < fuel" "0 < fuel" using assms(4) by simp_all
  have c: "client_commands lib fuel mport_Read mport_Write u pub =
      bindIO (write_messages mport_Write greeting) (\<lambda>_.
      bindIO (liftIO (Inr tc)) (\<lambda>tcURL.
      bindIO (mport_Write (command 3 0 ''connect'' 1 (connect_args app tcURL))) (\<lambda>_.
      bindIO (readCommandResult fuel mport_Read 1 ''_result'' (resultIsOK1 lib)) (\<lambda>_. client_tail lib fuel pub app play))))"
    by (simp add: client_commands_def assms(2,3) client_tail_def)
  note r = readCommandResult_bind [where valid = "resultIsOK1 lib" and noise = greeting and cmd = ?cmd and cid = 1
      and name = "''_result''", OF _ _ ok _ g(1), simplified]
  have "msgs.waits (client_commands lib fuel mport_Read mport_Write u pub) [] (greeting @ command 3 0 ''connect'' 1 (connect_args app tc) # [])"
    unfolding c by (intro write_messages_bind(2) lift_bind(2) mport_Write_bind(2) msgs.waits_first readCommandResult_waits) (use g in simp_all)
  then show "msgs.waits (client_commands lib fuel mport_Read mport_Write u pub) [] (client1 app tc)" by (simp add: client1_def)
  show "msgs.waits (client_commands lib fuel mport_Read mport_Write u pub) (server1 oe @ i) (client1 app tc @ out)"
    if "msgs.waits (client_tail lib fuel pub app play) i out"
    unfolding c s client1_def append_assoc append_Cons append_Nil
    by (intro write_messages_bind(2) lift_bind(2) mport_Write_bind(2) r(2) that)
  show "msgs.does (client_commands lib fuel mport_Read mport_Write u pub) (server1 oe @ i) (client1 app tc @ out) x"
    if "msgs.does (client_tail lib fuel pub app play) i out x"
    unfolding c s client1_def append_assoc append_Cons append_Nil
    by (intro write_messages_bind(1) lift_bind(1) mport_Write_bind(1) r(1) that)
qed

definition taken_status :: "bool \<Rightarrow> message list" where
  "taken_status pub = (if pub then [publish_answer 5] else take 3 (play_answers 3))"

lemma server3_split: "server3 pub = taken_status pub @ unread pub"
  by (simp add: server3_def taken_status_def unread_def)

lemma client_rest:
  assumes "amfmap_ok lib" "4 \<le> fuel"
  shows "msgs.waits (client_tail lib fuel pub app play) [] (client2 pub play)"
    "msgs.waits (client_tail lib fuel pub app play) (server2 pub) (client2 pub play @ client3 pub app play)"
    "msgs.does (client_tail lib fuel pub app play) (server2 pub @ taken_status pub) (client2 pub play @ client3 pub app play) ()"
proof -
  let ?cmd = "\<lambda>cid. \<lparr>cmd_ChunkStreamID = 3, cmd_MessageStreamID = 0, cmd_Name = ''_result'', cmd_CommandID = cid,
    cmd_Arguments = [ANil, ANumber (f64_of_int 1)]\<rparr>"
  let ?st = "\<lambda>cid code descr. \<lparr>cmd_ChunkStreamID = 5, cmd_MessageStreamID = 0x1000000, cmd_Name = ''onStatus'', cmd_CommandID = cid,
    cmd_Arguments = [ANil, status code descr]\<rparr>"
  have f: "length ([] :: message list) < fuel" "length [M_UserControlStreamIsRecorded a, M_UserControlStreamBegin b] < fuel" for a b
    using assms(2) by simp_all
  have st: "resultIsOK1 lib (?st cid code descr)" for cid code descr
    by (rule level_status [OF assms(1)]) (auto simp: status_def)
  have ok: "resultIsOK2 (?cmd cid)" for cid by (simp add: resultIsOK2_def)
  note create = readCommandResult_bind [where noise = "[]" and cmd = "?cmd cid" for cid, OF _ _ _ _ f(1), simplified]
  note wait = readCommandResult_waits [where noise = "[]", OF _ f(1), simplified]
  note last = readCommandResult_ok [where valid = "resultIsOK1 lib" and noise = "[]", OF _ _ st _ f(1), simplified]
    readCommandResult_ok [where valid = "resultIsOK1 lib"
      and noise = "[M_UserControlStreamIsRecorded a, M_UserControlStreamBegin b]" for a b, OF _ _ st _ f(2), simplified]
  show "msgs.waits (client_tail lib fuel pub app play) [] (client2 pub play)"
    by (cases pub) (simp_all add: client_tail_def client_play_def client_publish_def client2_def mport_Write_bind msgs.waits_first wait)
  show "msgs.waits (client_tail lib fuel pub app play) (server2 pub) (client2 pub play @ client3 pub app play)"
    by (cases pub) (simp_all add: client_tail_def client_play_def client_publish_def client2_def client3_def server2_def command_def [of 3 0 "''_result''"]
        mport_Write_bind create ok wait)
  show "msgs.does (client_tail lib fuel pub app play) (server2 pub @ taken_status pub) (client2 pub play @ client3 pub app play) ()"
    by (cases pub) (simp_all add: client_tail_def client_play_def client_publish_def client2_def client3_def server2_def command_def [of 3 0 "''_result''"]
        mport_Write_bind create ok taken_status_def play_answers_def publish_answer_def command_def [of 5] last)
qed

section \<open>Claims\<close>

text \<open>A side that has consumed its input, has sent the output and asks for more; one that succeeds.\<close>

definition asks_more :: "(mport, 'a) io \<Rightarrow> message list \<Rightarrow> message list \<Rightarrow> bool" where
  "asks_more m input output \<longleftrightarrow> (\<exists>p. m \<lparr>mp_in = input, mp_out = []\<rparr> = (Inl EOF, p) \<and> mp_out p = output)"

definition succeeds :: "(mport, 'a) io \<Rightarrow> message list \<Rightarrow> message list \<Rightarrow> message list \<Rightarrow> 'a \<Rightarrow> bool" where
  "succeeds m input output rest r \<longleftrightarrow>
     (\<exists>p. m \<lparr>mp_in = input, mp_out = []\<rparr> = (Inr r, p) \<and> mp_out p = output \<and> mp_in p = rest)"

lemma waits_asks: "msgs.waits m input output \<Longrightarrow> asks_more m input output"
  unfolding msgs.waits_def asks_more_def by (drule spec [of _ "\<lparr>mp_in = input, mp_out = []\<rparr>"]) simp

lemma does_succeeds: "msgs.does m input output r \<Longrightarrow> succeeds m (input @ rest) output rest r"
  unfolding msgs.does_def succeeds_def by (drule spec [of _ "\<lparr>mp_in = input @ rest, mp_out = []\<rparr>"], drule spec [of _ rest]) auto

definition client_side :: "'u rtmplib \<Rightarrow> nat \<Rightarrow> 'u \<Rightarrow> bool \<Rightarrow> (mport, unit) io" where
  "client_side lib fuel u pub = client_commands lib fuel mport_Read mport_Write u pub"

definition server_side :: "'u rtmplib \<Rightarrow> nat \<Rightarrow> nat \<Rightarrow> (mport, 'u \<times> bool) io" where
  "server_side lib fuel rounds = server_commands lib fuel rounds mport_Read mport_Write"

text \<open>
  C4. Client and server agree on what is to be played or published.  The exchange of commands takes
  three rounds; in each, the client sends all that the server needs for its part and then waits,
  and the server answers with all that the client needs.  At the end both have succeeded: the server
  knows whether the client publishes, and has the URL of the client, with the scheme and the host of
  its \<open>tcUrl\<close> and the request URI of the original (with a slash appended if it had only one).
\<close>

theorem sessions_agree:
  assumes "amfmap_ok lib" "url_RequestURI lib u = CHR ''/'' # p" "getTcURL lib u = Inr tc" "Trim_char (CHR 0x27) tc = tc"
    and "url_Parse lib tc = Inr tu" "url_Host lib tu \<noteq> ''''" "url_Scheme lib tu \<noteq> ''''"
    and "url_ParseRequestURI lib (CHR ''/'' # p @ (if CHR ''/'' \<in> set p then [] else ''/'')) = Inr u'"
    and "4 \<le> fuel" "4 \<le> rounds"
  shows "\<exists>c1 c2 c3 s1 s2 s3 rest.
    asks_more (client_side lib fuel u pub) [] c1 \<and> asks_more (server_side lib fuel rounds) (map wire c1) s1 \<and>
    asks_more (client_side lib fuel u pub) (map wire s1) (c1 @ c2) \<and> asks_more (server_side lib fuel rounds) (map wire (c1 @ c2)) (s1 @ s2) \<and>
    asks_more (client_side lib fuel u pub) (map wire (s1 @ s2)) (c1 @ c2 @ c3) \<and>
    succeeds (server_side lib fuel rounds) (map wire (c1 @ c2 @ c3)) (s1 @ s2 @ s3) [] (url_with lib (url_Host lib tu) (url_Scheme lib tu) u', pub) \<and>
    succeeds (client_side lib fuel u pub) (map wire (s1 @ s2 @ s3)) (c1 @ c2 @ c3) rest ()"
proof -
  obtain app play where sp: "splitPath lib u = (app, play)" by (cases "splitPath lib u")
  have url: "createURL lib tc app play = Inr (url_with lib (url_Host lib tu) (url_Scheme lib tu) u')"
    using assms(5-8) splitPath_join [OF assms(2) sp] by (simp add: createURL_def)
  obtain oe where oe: "parse_connect lib (wired_connect app tc) = Inr (app, tc, oe)" using parse_wired [OF assms(1,4)] by blast
  note s = server_session [OF oe url assms(9,10)]
  note c = client_begin [OF assms(1) sp assms(3,9), where pub = pub] and r = client_rest [OF assms(1,9), where pub = pub]
  have "asks_more (client_side lib fuel u pub) [] (client1 app tc)" "asks_more (client_side lib fuel u pub) (map wire (server1 oe)) (client1 app tc @ client2 pub play)"
      "asks_more (client_side lib fuel u pub) (map wire (server1 oe @ server2 pub)) (client1 app tc @ client2 pub play @ client3 pub app play)"
    using waits_asks [OF c(1)] waits_asks [OF c(2) [where oe = oe, OF r(1)]] waits_asks [OF c(2) [where oe = oe, OF r(2)]]
    by (simp_all add: client_side_def wire_server)
  moreover have "succeeds (client_side lib fuel u pub) (map wire (server1 oe @ server2 pub @ server3 pub))
      (client1 app tc @ client2 pub play @ client3 pub app play) (unread pub) ()"
    using does_succeeds [OF c(3) [where oe = oe, OF r(3)], of "unread pub"] by (simp add: client_side_def wire_server server3_split [symmetric])
  ultimately show ?thesis
    using waits_asks [OF s(1)] waits_asks [OF s(2) [where pub = pub]] does_succeeds [OF s(3) [where pub = pub], of "[]"]
    unfolding server_side_def append_Nil2 by blast
qed

text \<open>URLs as triples of scheme, host and request URI.\<close>

definition plain_rtmplib :: "(string \<times> string \<times> string) rtmplib" where
  "plain_rtmplib =
     \<lparr>url_RequestURI = (\<lambda>(s, h, r). r), url_toString = (\<lambda>(s, h, r). s @ ''://'' @ h @ r),
      url_Parse = (\<lambda>x. if take 8 x = ''rtmp://h'' then Inr (''rtmp'', ''h'', drop 8 x) else Inl (Err ''parse'')),
      url_ParseRequestURI = (\<lambda>x. Inr ('''', '''', x)), url_Host = (\<lambda>(s, h, r). h), url_Scheme = (\<lambda>(s, h, r). s),
      url_at_root = (\<lambda>(s, h, r). (s, h, ''/'')), url_with = (\<lambda>h s (_, _, r). (s, h, r)),
      GetString = (\<lambda>ma k. case map_of ma k of Some (AString v) \<Rightarrow> Some v | _ \<Rightarrow> None), GetFloat64 = (\<lambda>_ _. None)\<rparr>"

lemma plain_rtmplib_facts:
  "amfmap_ok plain_rtmplib" "url_RequestURI plain_rtmplib (''rtmp'', ''h'', ''/a/b'') = CHR ''/'' # ''a/b''"
  "getTcURL plain_rtmplib (''rtmp'', ''h'', ''/a/b'') = Inr ''rtmp://h/a''" "Trim_char (CHR 0x27) ''rtmp://h/a'' = ''rtmp://h/a''"
  "url_Parse plain_rtmplib ''rtmp://h/a'' = Inr (''rtmp'', ''h'', ''/a'')" "url_Host plain_rtmplib (''rtmp'', ''h'', ''/a'') \<noteq> ''''"
  "url_Scheme plain_rtmplib (''rtmp'', ''h'', ''/a'') \<noteq> ''''"
  "url_ParseRequestURI plain_rtmplib (CHR ''/'' # ''a/b'' @ (if CHR ''/'' \<in> set ''a/b'' then [] else ''/'')) = Inr ('''', '''', ''/a/b'')"
  by (simp_all add: plain_rtmplib_def amfmap_ok_def getTcURL_def splitPath_def Trim_char_def Let_def)

theorem sessions_agree_witness:
  "\<exists>c1 c2 c3 s1 s2 s3 rest.
    asks_more (client_side plain_rtmplib 4 (''rtmp'', ''h'', ''/a/b'') True) [] c1 \<and>
    asks_more (server_side plain_rtmplib 4 4) (map wire (c1 @ c2)) (s1 @ s2) \<and>
    succeeds (server_side plain_rtmplib 4 4) (map wire (c1 @ c2 @ c3)) (s1 @ s2 @ s3) [] ((''rtmp'', ''h'', ''/a/b''), True) \<and>
    succeeds (client_side plain_rtmplib 4 (''rtmp'', ''h'', ''/a/b'') True) (map wire (s1 @ s2 @ s3)) (c1 @ c2 @ c3) rest ()"
proof -
  have r: "url_with plain_rtmplib (url_Host plain_rtmplib (''rtmp'', ''h'', ''/a'')) (url_Scheme plain_rtmplib (''rtmp'', ''h'', ''/a''))
      ('''', '''', ''/a/b'') = (''rtmp'', ''h'', ''/a/b'')"
    by (simp add: plain_rtmplib_def)
  show ?thesis using sessions_agree [OF plain_rtmplib_facts, of 4 4 True] unfolding r by fastforce
qed

end
