(* ===== verification/ConnLoops.thy ===== *)
theory ConnLoops
  imports ConnSpec
begin

text \<open>
  The loops of the initialization end on every connection: each of them reads messages, every message
  takes bytes off the stream, and so the fuel \<open>conn_fuel\<close> is never what ends them.
\<close>

section \<open>Reading takes bytes\<close>

lemma RawReader_Read_consumes:
  "RawReader_Read onAck (r, w) = (Inr m, (r', w')) \<Longrightarrow> length (rr_pending r') < length (rr_pending r)"
proof (induction "length (rr_pending r)" arbitrary: r w rule: less_induct)
  case less
  obtain byt b where rb: "bufio_ReadByte (rr_br r) = (Inr byt, b)"
    using less.prems by (cases "bufio_ReadByte (rr_br r)"; cases "fst (bufio_ReadByte (rr_br r))")
      (auto simp: RawReader_Read.simps [of onAck r w])
  define rc where "rc = (case rr_chunkStreams r (byt AND 0x3F) of None \<Rightarrow> new_readerChunkStream | Some rc \<Rightarrow> rc)"
  obtain y rc1 r1 w1 where rm:
    "readMessage onAck (drop_bit 6 byt) (rc, r\<lparr>rr_br := snd (bufio_UnreadByte b)\<rparr>, w) = (y, (rc1, r1, w1))"
    by (metis prod_cases4)
  note round = RawReader_Read_round [OF rb rc_def, of onAck w, unfolded rm after_round_def]
  have c: "length (rr_pending r1) < length (rr_pending r)" if "y = Inr z" for z
    using readMessage_consumes [OF rm [unfolded that]] ReadByte_pending [OF rb] by (simp add: rr_pending_def)
  consider e where "y = Inl e" | "y = Inr None" | m' where "y = Inr (Some m')" by (cases y) auto
  then show ?case
  proof cases
    case 2
    with less.hyps [of "r1\<lparr>rr_chunkStreams := (rr_chunkStreams r1)(byt AND 0x3F \<mapsto> rc1)\<rparr>" w1] round less.prems c
    show ?thesis by (fastforce simp: Let_def rr_pending_def)
  qed (use round less.prems c in \<open>auto simp: Let_def rr_pending_def\<close>)
qed

definition conn_pending :: "Conn \<Rightarrow> nat" where
  "conn_pending c = (case cn_mrw c of None \<Rightarrow> 0 | Some mrw \<Rightarrow> length (rr_pending (rw_r mrw)))"

lemma ReadMessage_consumes: "ReadMessage fl c = (Inr m, c') \<Longrightarrow> conn_pending c' < conn_pending c"
  by (auto simp: ReadMessage_def on_mrw_def MsgReadWriter_Read_def MsgReader_Read_def conn_pending_def Let_def
      dest!: RawReader_Read_consumes split: option.splits prod.splits sum.splits)

lemma WriteMessage_keeps: "WriteMessage fl m c = (r, c') \<Longrightarrow> conn_pending c' = conn_pending c"
  by (auto simp: WriteMessage_def on_mrw_def MsgReadWriter_Write_def conn_pending_def Let_def split: option.splits prod.splits)

section \<open>Enough fuel\<close>

lemma bindIO_cong:
  assumes "m c = m' c" "\<And>a c'. m c = (Inr a, c') \<Longrightarrow> f a c' = g a c'"
  shows "bindIO m f c = bindIO m' g c"
  using assms by (auto simp: bindIO_def split: prod.splits sum.splits)

lemma readCommand_fuel:
  "conn_pending c < f1 \<Longrightarrow> conn_pending c < f2 \<Longrightarrow> readCommand f1 (ReadMessage fl) c = readCommand f2 (ReadMessage fl) c"
proof (induction f1 arbitrary: f2 c)
  case (Suc f1)
  then obtain g where "f2 = Suc g" by (cases f2) auto
  with Suc.prems show ?case
    by (auto intro!: bindIO_cong Suc.IH dest!: ReadMessage_consumes split: message.splits)
qed simp

lemma readCommand_consumes: "readCommand f (ReadMessage fl) c = (Inr cmd, c') \<Longrightarrow> conn_pending c' < conn_pending c"
proof (induction f arbitrary: c)
  case (Suc f)
  from Suc.prems obtain m c1 where m: "ReadMessage fl c = (Inr m, c1)"
      "(case m of M_CommandAMF0 cmd \<Rightarrow> returnIO cmd | _ \<Rightarrow> readCommand f (ReadMessage fl)) c1 = (Inr cmd, c')"
    by (auto elim: bindIO_InrE)
  show ?case
    using m(2) Suc.IH [of c1] ReadMessage_consumes [OF m(1)] by (cases m) (auto simp: returnIO_def)
qed (simp add: failIO_def)

lemma readCommandResult_fuel:
  "conn_pending c < f1 \<Longrightarrow> conn_pending c < f2 \<Longrightarrow>
   readCommandResult f1 (ReadMessage fl) cid name valid c = readCommandResult f2 (ReadMessage fl) cid name valid c"
proof (induction f1 arbitrary: f2 c)
  case (Suc f1)
  then obtain g where "f2 = Suc g" by (cases f2) auto
  with Suc.prems show ?case
    by (auto intro!: bindIO_cong Suc.IH dest!: ReadMessage_consumes split: message.splits)
qed simp

lemma readCommandResult_consumes:
  "readCommandResult f (ReadMessage fl) cid name valid c = (Inr u, c') \<Longrightarrow> conn_pending c' < conn_pending c"
proof (induction f arbitrary: c)
  case (Suc f)
  from Suc.prems obtain m c1 where m: "ReadMessage fl c = (Inr m, c1)"
      "(case m of
          M_CommandAMF0 cmd \<Rightarrow>
            if cmd_CommandID cmd = cid \<and> cmd_Name cmd = name
            then if \<not> valid cmd then failIO (Err ''server refused connect request'') else returnIO ()
            else readCommandResult f (ReadMessage fl) cid name valid
        | _ \<Rightarrow> readCommandResult f (ReadMessage fl) cid name valid) c1 = (Inr u, c')"
    by (auto elim: bindIO_InrE)
  show ?case
    using m(2) Suc.IH [of c1] ReadMessage_consumes [OF m(1)]
    by (cases m) (auto simp: returnIO_def failIO_def split: if_splits)
qed (simp add: failIO_def)

lemma write_messages_keeps: "write_messages (WriteMessage fl) ms c = (r, c') \<Longrightarrow> conn_pending c' = conn_pending c"
proof (induction ms arbitrary: c)
  case (Cons m ms)
  obtain x c1 where "WriteMessage fl m c = (x, c1)" by fastforce
  with Cons WriteMessage_keeps [of fl m c x c1] show ?case by (cases x) (auto simp: bindIO_def)
qed (simp add: returnIO_def)

text \<open>What the loop of the server does with a command; \<open>loop\<close> is the rest of the loop.\<close>

definition handle_command ::
  "'u rtmplib \<Rightarrow> (message \<Rightarrow> ('s, unit) io) \<Rightarrow> string \<Rightarrow> string \<Rightarrow> ('s, 'u \<times> bool) io \<Rightarrow> CommandAMF0 \<Rightarrow> ('s, 'u \<times> bool) io" where
  "handle_command lib wr tc app loop cmd =
     (if cmd_Name cmd = ''createStream''
      then bindIO (wr (command (cmd_ChunkStreamID cmd) 0 ''_result'' (cmd_CommandID cmd) [ANil, ANumber (f64_of_int 1)])) (\<lambda>_. loop)
      else if cmd_Name cmd = ''play''
      then bindIO (liftIO (bindR (action_path cmd ''invalid play command arguments'') (createURL lib tc app))) (\<lambda>u.
           bindIO (write_messages wr (play_answers (cmd_CommandID cmd))) (\<lambda>_. returnIO (u, False)))
      else if cmd_Name cmd = ''publish''
      then bindIO (liftIO (bindR (action_path cmd ''invalid publish command arguments'') (createURL lib tc app))) (\<lambda>u.
           bindIO (wr (publish_answer (cmd_CommandID cmd))) (\<lambda>_. returnIO (u, True)))
      else loop)"

lemma server_loop_Suc:
  "server_loop lib f (Suc n) rd wr tc app = bindIO (readCommand f rd) (handle_command lib wr tc app (server_loop lib f n rd wr tc app))"
  by (simp add: server_loop.simps handle_command_def [abs_def])

lemma handle_command_cong:
  assumes "\<And>c'. conn_pending c' = conn_pending c \<Longrightarrow> loop c' = loop' c'"
  shows "handle_command lib (WriteMessage fl) tc app loop cmd c = handle_command lib (WriteMessage fl) tc app loop' cmd c"
  unfolding handle_command_def using assms by (auto intro!: bindIO_cong dest!: WriteMessage_keeps)

lemma server_loop_fuel:
  "conn_pending c < f1 \<Longrightarrow> conn_pending c < f2 \<Longrightarrow> conn_pending c < n1 \<Longrightarrow> conn_pending c < n2 \<Longrightarrow>
   server_loop lib f1 n1 (ReadMessage fl) (WriteMessage fl) tc app c = server_loop lib f2 n2 (ReadMessage fl) (WriteMessage fl) tc app c"
proof (induction n1 arbitrary: n2 c)
  case (Suc n1)
  then obtain k where k: "n2 = Suc k" by (cases n2) auto
  show ?case
    unfolding k server_loop_Suc
    by (intro bindIO_cong readCommand_fuel handle_command_cong Suc.IH) (use Suc.prems k in \<open>auto dest!: readCommand_consumes\<close>)
qed simp

lemma conn_fuel_pending: "conn_fuel c = Suc (conn_pending c)"
  by (simp add: conn_fuel_def conn_pending_def split: option.splits)

lemma readCommand_loop:
  "readCommand (conn_fuel c) (ReadMessage fl) c = bindIO (ReadMessage fl) (\<lambda>msg.
     case msg of M_CommandAMF0 cmd \<Rightarrow> returnIO cmd | _ \<Rightarrow> (\<lambda>c. readCommand (conn_fuel c) (ReadMessage fl) c)) c"
proof -
  have "readCommand (conn_fuel c) (ReadMessage fl) c = bindIO (ReadMessage fl) (\<lambda>msg.
      case msg of M_CommandAMF0 cmd \<Rightarrow> returnIO cmd | _ \<Rightarrow> readCommand (conn_pending c) (ReadMessage fl)) c"
    by (simp add: conn_fuel_pending)
  also have "\<dots> = bindIO (ReadMessage fl) (\<lambda>msg.
      case msg of M_CommandAMF0 cmd \<Rightarrow> returnIO cmd | _ \<Rightarrow> (\<lambda>c. readCommand (conn_fuel c) (ReadMessage fl) c)) c"
  proof (rule bindIO_cong [OF refl])
    fix msg c'
    assume "ReadMessage fl c = (Inr msg, c')"
    from readCommand_fuel [OF ReadMessage_consumes [OF this], of "conn_fuel c'" fl]
    show "(case msg of M_CommandAMF0 cmd \<Rightarrow> returnIO cmd | _ \<Rightarrow> readCommand (conn_pending c) (ReadMessage fl)) c' =
        (case msg of M_CommandAMF0 cmd \<Rightarrow> returnIO cmd | _ \<Rightarrow> (\<lambda>c. readCommand (conn_fuel c) (ReadMessage fl) c)) c'"
      by (cases msg) (simp_all add: conn_fuel_pending del: readCommand.simps)
  qed
  finally show ?thesis .
qed

lemma server_loop_loop:
  "server_loop lib (conn_fuel c) (conn_fuel c) (ReadMessage fl) (WriteMessage fl) tc app c =
   bindIO (\<lambda>c. readCommand (conn_fuel c) (ReadMessage fl) c) (handle_command lib (WriteMessage fl) tc app
     (\<lambda>c. server_loop lib (conn_fuel c) (conn_fuel c) (ReadMessage fl) (WriteMessage fl) tc app c)) c"
proof -
  have "server_loop lib (conn_fuel c) (conn_fuel c) (ReadMessage fl) (WriteMessage fl) tc app c =
      bindIO (readCommand (conn_fuel c) (ReadMessage fl)) (handle_command lib (WriteMessage fl) tc app
        (server_loop lib (conn_fuel c) (conn_pending c) (ReadMessage fl) (WriteMessage fl) tc app)) c"
    unfolding conn_fuel_pending server_loop_Suc ..
  also have "\<dots> = bindIO (\<lambda>c. readCommand (conn_fuel c) (ReadMessage fl) c) (handle_command lib (WriteMessage fl) tc app
     (\<lambda>c. server_loop lib (conn_fuel c) (conn_fuel c) (ReadMessage fl) (WriteMessage fl) tc app c)) c"
    by (rule bindIO_cong [OF refl], rule handle_command_cong, rule server_loop_fuel)
      (auto simp: conn_fuel_pending simp del: readCommand.simps dest!: readCommand_consumes)
  finally show ?thesis .
qed

lemmas consumes = readCommand_consumes readCommandResult_consumes WriteMessage_keeps write_messages_keeps

lemma client_commands_fuel:
  assumes "conn_fuel c \<le> fuel"
  shows "client_commands lib fuel (ReadMessage fl) (WriteMessage fl) u pub c =
    client_commands lib (conn_fuel c) (ReadMessage fl) (WriteMessage fl) u pub c"
  unfolding client_commands_def client_play_def client_publish_def split_beta Let_def
  by (intro bindIO_cong refl)
    (use assms in \<open>auto simp: conn_fuel_pending liftIO_def simp del: readCommandResult.simps
      intro!: bindIO_cong readCommandResult_fuel dest!: consumes\<close>)

section \<open>Claim\<close>

text \<open>
  C27. The loops of the initialization end.  Over the real message streams, with whatever arrives, every
  message that is read takes bytes off the stream; with the fuel that the number of pending bytes
  gives, the loops for a command and for the commands of a client satisfy the equations of the loops
  in the source, which have no fuel; and more fuel than that changes nothing.
\<close>

theorem initialization_ends:
  fixes fl :: flvio and lib :: "'u rtmplib" and tc app :: string
  defines "next_command \<equiv> (\<lambda>c. readCommand (conn_fuel c) (ReadMessage fl) c)"
    and "loop \<equiv> (\<lambda>c. server_loop lib (conn_fuel c) (conn_fuel c) (ReadMessage fl) (WriteMessage fl) tc app c)"
  shows "(\<forall>c m c'. ReadMessage fl c = (Inr m, c') \<longrightarrow> conn_pending c' < conn_pending c) \<and>
    (\<forall>c. next_command c = bindIO (ReadMessage fl) (\<lambda>msg. case msg of M_CommandAMF0 cmd \<Rightarrow> returnIO cmd | _ \<Rightarrow> next_command) c) \<and>
    (\<forall>c. loop c = bindIO next_command (handle_command lib (WriteMessage fl) tc app loop) c) \<and>
    (\<forall>c fuel rounds. conn_fuel c \<le> fuel \<and> conn_fuel c \<le> rounds \<longrightarrow>
      server_commands lib fuel rounds (ReadMessage fl) (WriteMessage fl) c =
      server_commands lib (conn_fuel c) (conn_fuel c) (ReadMessage fl) (WriteMessage fl) c) \<and>
    (\<forall>c fuel u pub. conn_fuel c \<le> fuel \<longrightarrow>
      client_commands lib fuel (ReadMessage fl) (WriteMessage fl) u pub c =
      client_commands lib (conn_fuel c) (ReadMessage fl) (WriteMessage fl) u pub c)"
proof (intro conjI allI impI)
  show "conn_pending c' < conn_pending c" if "ReadMessage fl c = (Inr m, c')" for c m c' by (rule ReadMessage_consumes [OF that])
  show "next_command c = bindIO (ReadMessage fl) (\<lambda>msg. case msg of M_CommandAMF0 cmd \<Rightarrow> returnIO cmd | _ \<Rightarrow> next_command) c" for c
    unfolding next_command_def by (rule readCommand_loop)
  show "loop c = bindIO next_command (handle_command lib (WriteMessage fl) tc app loop) c" for c
    unfolding loop_def next_command_def by (rule server_loop_loop)
  show "server_commands lib fuel rounds (ReadMessage fl) (WriteMessage fl) c =
      server_commands lib (conn_fuel c) (conn_fuel c) (ReadMessage fl) (WriteMessage fl) c"
    if "conn_fuel c \<le> fuel \<and> conn_fuel c \<le> rounds" for c fuel rounds
    unfolding server_commands_def
    by (intro bindIO_cong readCommand_fuel)
      (use that in \<open>auto simp: conn_fuel_pending liftIO_def split_beta intro!: bindIO_cong server_loop_fuel
        dest!: consumes\<close>)
  show "client_commands lib fuel (ReadMessage fl) (WriteMessage fl) u pub c =
      client_commands lib (conn_fuel c) (ReadMessage fl) (WriteMessage fl) u pub c" if "conn_fuel c \<le> fuel" for c fuel u pub
    by (rule client_commands_fuel [OF that])
qed

definition two_bytes :: Conn where
  "two_bytes = (let bc = fresh_rw [[3], [0]] in \<lparr>cn_bc = bc, cn_mrw = Some (MsgReadWriter_New bc False)\<rparr>)"

lemma two_bytes_fuel: "conn_fuel two_bytes = 3"
  by (simp add: conn_fuel_def two_bytes_def MsgReadWriter_New_def RawReader_New_def rr_pending_def br_pending_def bufio_NewReader_def
      fresh_rw_def bc_NewReadWriter_def bc_NewReader_def bc_pending_def Let_def)

theorem initialization_ends_witness:
  "conn_fuel two_bytes = 3 \<and>
   server_commands plain_rtmplib 7 8 (ReadMessage (flvio_for [])) (WriteMessage (flvio_for [])) two_bytes =
   server_commands plain_rtmplib 3 3 (ReadMessage (flvio_for [])) (WriteMessage (flvio_for [])) two_bytes"
proof -
  have "3 \<le> (7 :: nat) \<and> 3 \<le> (8 :: nat)" by simp
  then show ?thesis
    using initialization_ends [of "flvio_for []" plain_rtmplib] two_bytes_fuel by metis
qed

end
