(* ===== verification/Formats.thy ===== *)
theory Formats
  imports Mtx_Prelude
begin

text \<open>
  The processors of package \<open>internal/formatprocessor\<close> that pass RTP packets on, decode them when a
  reader needs frames, and generate them when the source delivers frames: VP8, VP9, AV1, MPEG-1/2
  and MPEG-4 audio, Opus and the generic one.

  The encoders and decoders are objects of gortsplib.  Such an object is determined by the parameters
  it was created with and by the calls it has received, so an encoder is represented by these and its
  behaviour is a parameter of the model (\<open>codec\<close>) that maps them to the outcome of the last call; a
  decoder likewise by the packets it has been given.  \<open>time.Now()\<close> is an argument.
\<close>

section \<open>Formats and packets\<close>

text \<open>The formats of gortsplib, with the fields that the program uses; a nil slice is \<open>None\<close>.\<close>

record h264_format =
  f264_PayloadTyp :: u8
  f264_SPS :: "byte list option"
  f264_PPS :: "byte list option"
  f264_PacketizationMode :: int

record h265_format =
  f265_PayloadTyp :: u8
  f265_VPS :: "byte list option"
  f265_SPS :: "byte list option"
  f265_PPS :: "byte list option"
  f265_MaxDONDiff :: int

record mpeg4audio_format =
  fm4a_PayloadTyp :: u8
  fm4a_SampleRate :: int
  fm4a_SizeLength :: int
  fm4a_IndexLength :: int
  fm4a_IndexDeltaLength :: int

datatype format =
  H264 h264_format | H265 h265_format | VP8 u8 | VP9 u8 | AV1 | MPEG2Audio |
  MPEG4Audio mpeg4audio_format | Opus u8 | OtherFormat string

record rtp_packet =
  pkt_Padding :: bool
  pkt_PaddingSize :: u8
  pkt_PayloadType :: u8
  pkt_SequenceNumber :: u16
  pkt_Timestamp :: u32
  pkt_SSRC :: u32
  pkt_Payload :: "byte list"

definition strip_padding :: "rtp_packet \<Rightarrow> rtp_packet" where
  "strip_padding pkt = pkt\<lparr>pkt_Padding := False, pkt_PaddingSize := 0\<rparr>"

text \<open>
  A data unit (\<open>UnitVP8\<close>, \<open>UnitOpus\<close>, ...): the packets (\<open>None\<close> is nil), the time of arrival, the time
  stamp and the frame, whose type is the one of the codec.
\<close>

record 'a data_unit =
  u_RTPPackets :: "rtp_packet list option"
  u_NTP :: int
  u_PTS :: duration
  u_data :: 'a

definition GetRTPPackets :: "'a data_unit \<Rightarrow> rtp_packet list" where
  "GetRTPPackets u = (case u_RTPPackets u of None \<Rightarrow> [] | Some pkts \<Rightarrow> pkts)"

definition GetNTP :: "'a data_unit \<Rightarrow> int" where
  "GetNTP u = u_NTP u"

section \<open>Encoders and decoders\<close>

text \<open>The fields of the encoder structs that the program sets; the others have their zero value.\<close>

record encoder_params =
  ep_PayloadMaxSize :: int
  ep_PayloadType :: u8
  ep_SSRC :: "u32 option"
  ep_InitialSequenceNumber :: "u16 option"
  ep_InitialTimestamp :: "u32 option"
  ep_SampleRate :: int
  ep_SizeLength :: int
  ep_IndexLength :: int
  ep_IndexDeltaLength :: int
  ep_PacketizationMode :: int
  ep_MaxDONDiff :: int

definition new_encoder :: "int \<Rightarrow> encoder_params" where
  "new_encoder payloadMaxSize =
     \<lparr>ep_PayloadMaxSize = payloadMaxSize, ep_PayloadType = 0, ep_SSRC = None,
      ep_InitialSequenceNumber = None, ep_InitialTimestamp = None, ep_SampleRate = 0,
      ep_SizeLength = 0, ep_IndexLength = 0, ep_IndexDeltaLength = 0, ep_PacketizationMode = 0,
      ep_MaxDONDiff = 0\<rparr>"

record 'a encoder =
  en_params :: encoder_params
  en_inputs :: "('a \<times> duration) list"

datatype decode_error = ErrMorePacketsNeeded | ErrNonStartingPacketAndNoPrevious | DecodeErr string

fun decode_error_text :: "decode_error \<Rightarrow> string" where
  "decode_error_text ErrMorePacketsNeeded = ''need more packets''"
| "decode_error_text ErrNonStartingPacketAndNoPrevious =
     ''received a non-starting fragment without any previous starting fragment''"
| "decode_error_text (DecodeErr e) = e"

record 'a codec =
  cd_MarshalSize :: "rtp_packet \<Rightarrow> int"
  cd_Encode :: "encoder_params \<Rightarrow> ('a \<times> duration) list \<Rightarrow> string + rtp_packet list"
  cd_Decode :: "rtp_packet list \<Rightarrow> decode_error + 'a \<times> duration"

section \<open>A processor\<close>

record 'a processor =
  pr_udpMaxPayloadSize :: int
  pr_encoder :: "'a encoder option"
  pr_decoder :: "rtp_packet list option"

definition new_processor :: "int \<Rightarrow> encoder_params option \<Rightarrow> 'a processor" where
  "new_processor udpMaxPayloadSize params =
     \<lparr>pr_udpMaxPayloadSize = udpMaxPayloadSize,
      pr_encoder = map_option (\<lambda>p. \<lparr>en_params = p, en_inputs = []\<rparr>) params,
      pr_decoder = None\<rparr>"

definition payload_too_big :: "int \<Rightarrow> int \<Rightarrow> error" where
  "payload_too_big sz maxSize =
     Err (''payload size ('' @ show_int sz @ '') is greater than maximum allowed ('' @
       show_int maxSize @ '')'')"

text \<open>The steps that the \<open>Process\<close> functions share; a state is a processor and the unit it works on.\<close>

type_synonym ('p, 'a) process = "('p \<times> 'a data_unit, unit) io"

definition encode_unit ::
  "'a codec \<Rightarrow> (('a, 'p) processor_scheme, 'a) process" where
  "encode_unit cd = (\<lambda>(t, u).
     case pr_encoder t of
       None \<Rightarrow> (Inl Panic, (t, u))
     | Some e \<Rightarrow>
         let e = e\<lparr>en_inputs := en_inputs e @ [(u_data u, u_PTS u)]\<rparr>; t = t\<lparr>pr_encoder := Some e\<rparr> in
         (case cd_Encode cd (en_params e) (en_inputs e) of
            Inl err \<Rightarrow> (Inl (Err err), (t, u))
          | Inr pkts \<Rightarrow> (Inr (), (t, u\<lparr>u_RTPPackets := Some pkts\<rparr>))))"

definition feed_decoder :: "rtp_packet \<Rightarrow> ('a, 'p) processor_scheme \<Rightarrow> ('a, 'p) processor_scheme" where
  "feed_decoder pkt t =
     t\<lparr>pr_decoder := Some ((case pr_decoder t of None \<Rightarrow> [] | Some fed \<Rightarrow> fed) @ [pkt])\<rparr>"

text \<open>
  \<open>Process\<close> of the formats whose packets are routed as they are.  The errors of the decoder that
  \<open>ignored\<close> accepts only mean that the frame is not complete.
\<close>

definition simple_Process ::
  "'a codec \<Rightarrow> (decode_error \<Rightarrow> bool) \<Rightarrow> bool \<Rightarrow> ('a processor, 'a) process" where
  "simple_Process cd ignored hasNonRTSPReaders = (\<lambda>(t, u).
     case u_RTPPackets u of
       None \<Rightarrow> encode_unit cd (t, u)
     | Some [] \<Rightarrow> (Inl Panic, (t, u))
     | Some (pkt # pkts) \<Rightarrow>
         let pkt = strip_padding pkt; u = u\<lparr>u_RTPPackets := Some (pkt # pkts)\<rparr> in
         if cd_MarshalSize cd pkt > pr_udpMaxPayloadSize t
         then (Inl (payload_too_big (cd_MarshalSize cd pkt) (pr_udpMaxPayloadSize t)), (t, u))
         else if hasNonRTSPReaders
         then let t = feed_decoder pkt t in
           (case cd_Decode cd (the (pr_decoder t)) of
              Inl err \<Rightarrow> (if ignored err then Inr () else Inl (Err (decode_error_text err)), (t, u))
            | Inr (frame, pts) \<Rightarrow> (Inr (), (t, u\<lparr>u_data := frame, u_PTS := pts\<rparr>)))
         else (Inr (), (t, u)))"

section \<open>The formats\<close>

definition newVP8 :: "int \<Rightarrow> u8 \<Rightarrow> bool \<Rightarrow> byte list processor" where
  "newVP8 udpMaxPayloadSize payloadTyp generateRTPPackets =
     new_processor udpMaxPayloadSize
       (if generateRTPPackets then Some ((new_encoder (udpMaxPayloadSize - 12))\<lparr>ep_PayloadType := payloadTyp\<rparr>)
        else None)"

definition VP8_Process :: "byte list codec \<Rightarrow> bool \<Rightarrow> (byte list processor, byte list) process" where
  "VP8_Process cd = simple_Process cd (\<lambda>err. err = ErrMorePacketsNeeded)"

definition newVP9 :: "int \<Rightarrow> u8 \<Rightarrow> bool \<Rightarrow> byte list processor" where
  "newVP9 udpMaxPayloadSize payloadTyp generateRTPPackets =
     new_processor udpMaxPayloadSize
       (if generateRTPPackets then Some ((new_encoder (udpMaxPayloadSize - 12))\<lparr>ep_PayloadType := payloadTyp\<rparr>)
        else None)"

definition VP9_Process :: "byte list codec \<Rightarrow> bool \<Rightarrow> (byte list processor, byte list) process" where
  "VP9_Process cd = simple_Process cd (\<lambda>err. err = ErrMorePacketsNeeded)"

definition newMPEG2Audio :: "int \<Rightarrow> bool \<Rightarrow> byte list list processor" where
  "newMPEG2Audio udpMaxPayloadSize generateRTPPackets =
     new_processor udpMaxPayloadSize
       (if generateRTPPackets then Some (new_encoder (udpMaxPayloadSize - 12)) else None)"

definition MPEG2Audio_Process ::
  "byte list list codec \<Rightarrow> bool \<Rightarrow> (byte list list processor, byte list list) process" where
  "MPEG2Audio_Process cd =
     simple_Process cd (\<lambda>err. err = ErrNonStartingPacketAndNoPrevious \<or> err = ErrMorePacketsNeeded)"

definition newMPEG4Audio :: "int \<Rightarrow> mpeg4audio_format \<Rightarrow> bool \<Rightarrow> byte list list processor" where
  "newMPEG4Audio udpMaxPayloadSize forma generateRTPPackets =
     new_processor udpMaxPayloadSize
       (if generateRTPPackets
        then Some ((new_encoder (udpMaxPayloadSize - 12))
          \<lparr>ep_PayloadType := fm4a_PayloadTyp forma, ep_SampleRate := fm4a_SampleRate forma,
           ep_SizeLength := fm4a_SizeLength forma, ep_IndexLength := fm4a_IndexLength forma,
           ep_IndexDeltaLength := fm4a_IndexDeltaLength forma\<rparr>)
        else None)"

definition MPEG4Audio_Process ::
  "byte list list codec \<Rightarrow> bool \<Rightarrow> (byte list list processor, byte list list) process" where
  "MPEG4Audio_Process cd = simple_Process cd (\<lambda>err. err = ErrMorePacketsNeeded)"

definition newOpus :: "int \<Rightarrow> u8 \<Rightarrow> bool \<Rightarrow> byte list processor" where
  "newOpus udpMaxPayloadSize payloadTyp generateRTPPackets =
     new_processor udpMaxPayloadSize
       (if generateRTPPackets
        then Some ((new_encoder (udpMaxPayloadSize - 12))\<lparr>ep_PayloadType := payloadTyp, ep_SampleRate := 48000\<rparr>)
        else None)"

text \<open>
  \<open>rtpsimpleaudio\<close> encodes a frame into one packet, which \<open>Process\<close> puts into a slice; the parameter
  \<open>cd_Encode\<close> stands for both.
\<close>

definition Opus_Process :: "byte list codec \<Rightarrow> bool \<Rightarrow> (byte list processor, byte list) process" where
  "Opus_Process cd = simple_Process cd (\<lambda>err. False)"

text \<open>The generic processor routes packets; it has neither an encoder nor a decoder.\<close>

definition newGeneric :: "int \<Rightarrow> string \<Rightarrow> bool \<Rightarrow> int result" where
  "newGeneric udpMaxPayloadSize forma generateRTPPackets =
     (if generateRTPPackets
      then Inl (Err (''we don't know how to generate RTP packets of format '' @ forma))
      else Inr udpMaxPayloadSize)"

definition Generic_Process :: "(rtp_packet \<Rightarrow> int) \<Rightarrow> int \<Rightarrow> ('a data_unit, unit) io" where
  "Generic_Process sz udpMaxPayloadSize u =
     (case u_RTPPackets u of
        Some (pkt # pkts) \<Rightarrow>
          let pkt = strip_padding pkt; u = u\<lparr>u_RTPPackets := Some (pkt # pkts)\<rparr> in
          if sz pkt > udpMaxPayloadSize
          then (Inl (payload_too_big (sz pkt) udpMaxPayloadSize), u)
          else (Inr (), u)
      | _ \<Rightarrow> (Inl Panic, u))"

section \<open>Key frames\<close>

text \<open>The processors of the video formats with key frames also remember when the last one came.\<close>

definition maxKeyFrameInterval :: duration where
  "maxKeyFrameInterval = 10 * second"

record 'a kf_processor = "'a processor" +
  pr_lastKeyFrameReceived :: int
  pr_warnings :: "string list"

definition checkKeyFrameInterval ::
  "string \<Rightarrow> int \<Rightarrow> bool \<Rightarrow> ('a, 'p) kf_processor_scheme \<Rightarrow> ('a, 'p) kf_processor_scheme" where
  "checkKeyFrameInterval warning now isKeyFrame t =
     (if isKeyFrame then t\<lparr>pr_lastKeyFrameReceived := now\<rparr>
      else if now - pr_lastKeyFrameReceived t \<ge> maxKeyFrameInterval
      then t\<lparr>pr_lastKeyFrameReceived := now, pr_warnings := pr_warnings t @ [warning]\<rparr>
      else t)"

definition newAV1 :: "int \<Rightarrow> bool \<Rightarrow> int \<Rightarrow> byte list list kf_processor" where
  "newAV1 udpMaxPayloadSize generateRTPPackets now =
     \<lparr>pr_udpMaxPayloadSize = udpMaxPayloadSize,
      pr_encoder =
        (if generateRTPPackets then Some \<lparr>en_params = new_encoder (udpMaxPayloadSize - 12), en_inputs = []\<rparr>
         else None),
      pr_decoder = None, pr_lastKeyFrameReceived = (if generateRTPPackets then now else 0),
      pr_warnings = []\<rparr>"

definition AV1_checkOBUs ::
  "(byte list list \<Rightarrow> bool) \<Rightarrow> int \<Rightarrow> byte list list \<Rightarrow> byte list list kf_processor \<Rightarrow>
   byte list list kf_processor" where
  "AV1_checkOBUs containsKeyFrame now obus =
     checkKeyFrameInterval ''no AV1 key frames received in 10s, stream can't be decoded'' now
       (containsKeyFrame obus)"

definition start_decoder :: "int \<Rightarrow> ('a, 'p) kf_processor_scheme \<Rightarrow> ('a, 'p) kf_processor_scheme" where
  "start_decoder now t =
     (if pr_decoder t = None then t\<lparr>pr_decoder := Some [], pr_lastKeyFrameReceived := now\<rparr> else t)"

text \<open>\<open>now1\<close> and \<open>now2\<close> are the times at which a decoder is created and the key frames are checked.\<close>

definition AV1_Process ::
  "byte list list codec \<Rightarrow> (byte list list \<Rightarrow> bool) \<Rightarrow> int \<Rightarrow> int \<Rightarrow> bool \<Rightarrow>
   (byte list list kf_processor, byte list list) process" where
  "AV1_Process cd containsKeyFrame now1 now2 hasNonRTSPReaders = (\<lambda>(t, u).
     case u_RTPPackets u of
       None \<Rightarrow> encode_unit cd (AV1_checkOBUs containsKeyFrame now2 (u_data u) t, u)
     | Some [] \<Rightarrow> (Inl Panic, (t, u))
     | Some (pkt # pkts) \<Rightarrow>
         let pkt = strip_padding pkt; u = u\<lparr>u_RTPPackets := Some (pkt # pkts)\<rparr> in
         if cd_MarshalSize cd pkt > pr_udpMaxPayloadSize t
         then (Inl (payload_too_big (cd_MarshalSize cd pkt) (pr_udpMaxPayloadSize t)), (t, u))
         else if hasNonRTSPReaders
         then let t = feed_decoder pkt (start_decoder now1 t) in
           (case cd_Decode cd (the (pr_decoder t)) of
              Inl err \<Rightarrow>
                (if err = ErrNonStartingPacketAndNoPrevious \<or> err = ErrMorePacketsNeeded then Inr ()
                 else Inl (Err (decode_error_text err)), (t, u))
            | Inr (obus, pts) \<Rightarrow>
                (Inr (), (AV1_checkOBUs containsKeyFrame now2 obus t, u\<lparr>u_data := obus, u_PTS := pts\<rparr>)))
         else (Inr (), (t, u)))"

section \<open>The size of packets\<close>

text \<open>
  The contract of a processor towards the RTSP readers: packets that it lets pass fit into a UDP
  datagram of the configured size.  It rests on the encoder, which keeps payloads below a positive
  \<open>PayloadMaxSize\<close> (zero stands for a default of the encoder) and adds a header of 12 bytes; so the
  configured size has to leave room for a payload.  It is about units with at most one incoming packet,
  as the sources deliver them: the processors look at the size of the first one only.
\<close>

definition encoder_ok :: "'a codec \<Rightarrow> bool" where
  "encoder_ok cd \<longleftrightarrow>
     (\<forall>p xs pkts. 0 < ep_PayloadMaxSize p \<longrightarrow> cd_Encode cd p xs = Inr pkts \<longrightarrow>
        (\<forall>pkt \<in> set pkts. cd_MarshalSize cd pkt \<le> ep_PayloadMaxSize p + 12))"

definition one_packet :: "'a data_unit \<Rightarrow> bool" where
  "one_packet u \<longleftrightarrow> length (GetRTPPackets u) \<le> 1"

definition fits :: "int \<Rightarrow> ('a, 'p) processor_scheme \<Rightarrow> bool" where
  "fits m t \<longleftrightarrow> 12 < m \<and> pr_udpMaxPayloadSize t = m \<and>
     (\<forall>e. pr_encoder t = Some e \<longrightarrow> ep_PayloadMaxSize (en_params e) = m - 12)"

definition packets_fit :: "'a codec \<Rightarrow> int \<Rightarrow> 'a data_unit \<Rightarrow> bool" where
  "packets_fit cd m u \<longleftrightarrow> (\<forall>pkt \<in> set (GetRTPPackets u). cd_MarshalSize cd pkt \<le> m)"

text \<open>A sequence of units, each with its own arguments, through one processor.\<close>

fun process_all :: "('x \<Rightarrow> ('t, 'a) process) \<Rightarrow> ('x \<times> 'a data_unit) list \<Rightarrow> 't \<Rightarrow> (unit result \<times> 'a data_unit) list" where
  "process_all p [] t = []"
| "process_all p ((x, u) # rest) t = (let (r, (t', u')) = p x (t, u) in (r, u') # process_all p rest t')"

locale bounded_processor =
  fixes process :: "'a codec \<Rightarrow> 'x \<Rightarrow> ('t, 'a) process"
    and inv :: "int \<Rightarrow> 't \<Rightarrow> bool"
  assumes step: "encoder_ok cd \<Longrightarrow> inv m t \<Longrightarrow> one_packet u \<Longrightarrow> process cd x (t, u) = (r, (t', u')) \<Longrightarrow>
    inv m t' \<and> (r = Inr () \<longrightarrow> packets_fit cd m u')"
begin

lemma all_fit:
  assumes "encoder_ok cd" "inv m t" "\<forall>(x, u) \<in> set xs. one_packet u"
    and "(Inr (), u') \<in> set (process_all (process cd) xs t)"
  shows "packets_fit cd m u'"
  using assms
proof (induction xs arbitrary: t)
  case (Cons xu xs)
  obtain x u where xu: "xu = (x, u)" by (cases xu)
  obtain r t1 u1 where p: "process cd x (t, u) = (r, (t1, u1))" by (cases "process cd x (t, u)") auto
  with Cons.prems xu have "inv m t1" "r = Inr () \<longrightarrow> packets_fit cd m u1"
    using step [of cd m t u x r t1 u1] by auto
  then show ?case using Cons xu p by auto
qed simp

end

lemma GetRTPPackets_update [simp]:
  "GetRTPPackets (u\<lparr>u_RTPPackets := p\<rparr>) = (case p of None \<Rightarrow> [] | Some pkts \<Rightarrow> pkts)"
  "GetRTPPackets (u\<lparr>u_data := d, u_PTS := s\<rparr>) = GetRTPPackets u"
  by (simp_all add: GetRTPPackets_def)

lemma feed_decoder_simps [simp]:
  "pr_encoder (feed_decoder pkt t) = pr_encoder t"
  "pr_udpMaxPayloadSize (feed_decoder pkt t) = pr_udpMaxPayloadSize t"
  "fits m (feed_decoder pkt t) = fits m t"
  by (simp_all add: feed_decoder_def fits_def)

lemma start_decoder_simps [simp]:
  "pr_encoder (start_decoder now t) = pr_encoder t"
  "pr_udpMaxPayloadSize (start_decoder now t) = pr_udpMaxPayloadSize t"
  "fits m (start_decoder now t) = fits m t"
  by (simp_all add: start_decoder_def fits_def)

lemma checkKeyFrameInterval_simps [simp]:
  "pr_encoder (checkKeyFrameInterval w now k t) = pr_encoder t"
  "pr_udpMaxPayloadSize (checkKeyFrameInterval w now k t) = pr_udpMaxPayloadSize t"
  "fits m (checkKeyFrameInterval w now k t) = fits m t"
  by (simp_all add: checkKeyFrameInterval_def fits_def)

lemma encode_unit_fits:
  assumes "encoder_ok cd" "fits m t" "encode_unit cd (t, u) = (r, (t', u'))"
  shows "fits m t' \<and> (r = Inr () \<longrightarrow> packets_fit cd m u')"
proof (cases "pr_encoder t")
  case None
  with assms show ?thesis by (auto simp: encode_unit_def)
next
  case (Some e)
  with assms(2) have "0 < ep_PayloadMaxSize (en_params e)" "ep_PayloadMaxSize (en_params e) + 12 = m"
    by (simp_all add: fits_def)
  with assms(1) have "cd_MarshalSize cd pkt \<le> m" if "cd_Encode cd (en_params e) xs = Inr pkts" "pkt \<in> set pkts" for xs pkts pkt
    using that unfolding encoder_ok_def by metis
  with Some assms(2,3) show ?thesis
    by (auto simp: encode_unit_def Let_def fits_def packets_fit_def split: sum.splits)
qed

lemma simple_Process_fits:
  assumes "encoder_ok cd" "fits m t" "one_packet u" "simple_Process cd ignored b (t, u) = (r, (t', u'))"
  shows "fits m t' \<and> (r = Inr () \<longrightarrow> packets_fit cd m u')"
proof (cases "u_RTPPackets u")
  case None
  with assms encode_unit_fits show ?thesis by (fastforce simp: simple_Process_def)
next
  case (Some pkts)
  with assms show ?thesis
    by (auto simp: simple_Process_def one_packet_def packets_fit_def GetRTPPackets_def fits_def Let_def
        split: list.splits if_splits sum.splits)
qed

interpretation vp8: bounded_processor VP8_Process fits
  by unfold_locales (unfold VP8_Process_def, rule simple_Process_fits)

interpretation vp9: bounded_processor VP9_Process fits
  by unfold_locales (unfold VP9_Process_def, rule simple_Process_fits)

interpretation mpeg2audio: bounded_processor MPEG2Audio_Process fits
  by unfold_locales (unfold MPEG2Audio_Process_def, rule simple_Process_fits)

interpretation mpeg4audio: bounded_processor MPEG4Audio_Process fits
  by unfold_locales (unfold MPEG4Audio_Process_def, rule simple_Process_fits)

interpretation opus: bounded_processor Opus_Process fits
  by unfold_locales (unfold Opus_Process_def, rule simple_Process_fits)

lemma AV1_Process_fits:
  assumes "encoder_ok cd" "fits m t" "one_packet u"
    and "AV1_Process cd key now1 now2 b (t, u) = (r, (t', u'))"
  shows "fits m t' \<and> (r = Inr () \<longrightarrow> packets_fit cd m u')"
proof (cases "u_RTPPackets u")
  case None
  with assms encode_unit_fits [of cd m "AV1_checkOBUs key now2 (u_data u) t" u] show ?thesis
    by (simp add: AV1_Process_def AV1_checkOBUs_def)
next
  case (Some pkts)
  with assms show ?thesis
    by (auto simp: AV1_Process_def AV1_checkOBUs_def one_packet_def packets_fit_def GetRTPPackets_def
        fits_def Let_def split: list.splits if_splits sum.splits)
qed

interpretation av1: bounded_processor "\<lambda>cd (key, now1, now2, b). AV1_Process cd key now1 now2 b" fits
  by unfold_locales (auto dest: AV1_Process_fits split: prod.splits)

end
