(* ===== verification/H26x.thy ===== *)
theory H26x
  imports Formats
begin

text \<open>
  The processors of H264 and H265 (package \<open>internal/formatprocessor\<close>): the parameter sets found in
  packets and in access units, the clean-up of access units, and the re-encoding of packets that are
  too big.  The lemmas compare the clean-up with a reference, relate the extraction of parameter sets
  to the aggregation format of RFC 6184, and bound the size of the packets that a processor lets pass.
\<close>

section \<open>Parameter sets in RTP packets\<close>

abbreviation (input) NALUTypeIDR :: u8 where "NALUTypeIDR \<equiv> 5"
abbreviation (input) NALUTypeSPS :: u8 where "NALUTypeSPS \<equiv> 7"
abbreviation (input) NALUTypePPS :: u8 where "NALUTypePPS \<equiv> 8"
abbreviation (input) NALUTypeAccessUnitDelimiter :: u8 where "NALUTypeAccessUnitDelimiter \<equiv> 9"
abbreviation (input) NALUTypeSTAPA :: u8 where "NALUTypeSTAPA \<equiv> 24"

abbreviation (input) NALUType_IDR_W_RADL :: u8 where "NALUType_IDR_W_RADL \<equiv> 19"
abbreviation (input) NALUType_IDR_N_LP :: u8 where "NALUType_IDR_N_LP \<equiv> 20"
abbreviation (input) NALUType_CRA_NUT :: u8 where "NALUType_CRA_NUT \<equiv> 21"
abbreviation (input) NALUType_VPS_NUT :: u8 where "NALUType_VPS_NUT \<equiv> 32"
abbreviation (input) NALUType_SPS_NUT :: u8 where "NALUType_SPS_NUT \<equiv> 33"
abbreviation (input) NALUType_PPS_NUT :: u8 where "NALUType_PPS_NUT \<equiv> 34"
abbreviation (input) NALUType_AUD_NUT :: u8 where "NALUType_AUD_NUT \<equiv> 35"
abbreviation (input) NALUType_AggregationUnit :: u8 where "NALUType_AggregationUnit \<equiv> 48"

definition h264_type :: "byte \<Rightarrow> u8" where
  "h264_type b = b AND 0x1F"

definition h265_type :: "byte \<Rightarrow> u8" where
  "h265_type b = drop_bit 1 b AND 0x3F"

text \<open>
  The loop over the units of an aggregation packet.  It leaves the loop at a truncated or zero size,
  and gives up at a unit that is longer than the rest; \<open>f\<close> is the body of the loop for one unit.
\<close>

function aggregation_loop :: "(byte list \<Rightarrow> 'a \<Rightarrow> 'a) \<Rightarrow> 'a \<Rightarrow> byte list \<Rightarrow> 'a \<Rightarrow> 'a" where
  "aggregation_loop f none payload acc =
     (case payload of
        a # b # rest \<Rightarrow>
          let sz = unat (of_be16 a b) in
          if sz = 0 then acc
          else if sz > length rest then none
          else aggregation_loop f none (drop sz rest) (f (take sz rest) acc)
      | _ \<Rightarrow> acc)"
  by pat_completeness auto
termination
  by (relation "measure (\<lambda>(f, none, payload, acc). length payload)") auto

declare aggregation_loop.simps [simp del]

type_synonym params264 = "byte list option \<times> byte list option"
type_synonym params265 = "byte list option \<times> byte list option \<times> byte list option"

definition stapa_unit :: "byte list \<Rightarrow> params264 \<Rightarrow> params264" where
  "stapa_unit nalu = (\<lambda>(sps, pps).
     let typ = h264_type (hd nalu) in
     if typ = NALUTypeSPS then (Some nalu, pps)
     else if typ = NALUTypePPS then (sps, Some nalu)
     else (sps, pps))"

definition rtpH264ExtractSPSPPS :: "rtp_packet \<Rightarrow> params264" where
  "rtpH264ExtractSPSPPS pkt =
     (case pkt_Payload pkt of
        [] \<Rightarrow> (None, None)
      | b # rest \<Rightarrow>
          let typ = h264_type b in
          if typ = NALUTypeSPS then (Some (pkt_Payload pkt), None)
          else if typ = NALUTypePPS then (None, Some (pkt_Payload pkt))
          else if typ = NALUTypeSTAPA then aggregation_loop stapa_unit (None, None) rest (None, None)
          else (None, None))"

text \<open>The body of the loop for H265 looks at the type of the packet, \<open>(pkt.Payload[0] >> 1) & 0b111111\<close>.\<close>

definition aggregation_unit :: "byte \<Rightarrow> byte list \<Rightarrow> params265 \<Rightarrow> params265" where
  "aggregation_unit payload0 nalu = (\<lambda>(vps, sps, pps).
     let typ = h265_type payload0 in
     if typ = NALUType_VPS_NUT then (Some nalu, sps, pps)
     else if typ = NALUType_SPS_NUT then (vps, Some nalu, pps)
     else if typ = NALUType_PPS_NUT then (vps, sps, Some nalu)
     else (vps, sps, pps))"

definition rtpH265ExtractVPSSPSPPS :: "rtp_packet \<Rightarrow> params265" where
  "rtpH265ExtractVPSSPSPPS pkt =
     (case pkt_Payload pkt of
        b # _ # rest \<Rightarrow>
          let typ = h265_type b in
          if typ = NALUType_VPS_NUT then (Some (pkt_Payload pkt), None, None)
          else if typ = NALUType_SPS_NUT then (None, Some (pkt_Payload pkt), None)
          else if typ = NALUType_PPS_NUT then (None, None, Some (pkt_Payload pkt))
          else if typ = NALUType_AggregationUnit
          then aggregation_loop (aggregation_unit b) (None, None, None) rest (None, None, None)
          else (None, None, None)
      | _ \<Rightarrow> (None, None, None))"

section \<open>Access units\<close>

text \<open>The type of a unit; \<open>nalu[0]\<close> panics on an empty one.\<close>

fun typed :: "(byte \<Rightarrow> u8) \<Rightarrow> byte list \<Rightarrow> u8 result" where
  "typed typ [] = Inl Panic"
| "typed typ (b # bs) = Inr (typ b)"

text \<open>
  \<open>remuxAccessUnit\<close>: a first loop counts the units that stay, a second one copies them into a slice
  of that length.  \<open>params\<close> are the parameter sets that are put in front of a key frame.
\<close>

fun remux_scan ::
  "(byte \<Rightarrow> u8) \<Rightarrow> u8 list \<Rightarrow> u8 list \<Rightarrow> nat \<Rightarrow> byte list list \<Rightarrow> bool \<Rightarrow> nat \<Rightarrow> (bool \<times> nat) result" where
  "remux_scan typ removed keys np [] isKeyFrame n = Inr (isKeyFrame, n)"
| "remux_scan typ removed keys np (nalu # nalus) isKeyFrame n =
     bindR (typed typ nalu) (\<lambda>t.
       if t \<in> set removed then remux_scan typ removed keys np nalus isKeyFrame n
       else if t \<in> set keys \<and> \<not> isKeyFrame then remux_scan typ removed keys np nalus True (n + np + 1)
       else remux_scan typ removed keys np nalus isKeyFrame (n + 1))"

fun store :: "nat \<Rightarrow> 'a list \<Rightarrow> 'a list \<Rightarrow> 'a list result" where
  "store i [] out = Inr out"
| "store i (x # xs) out = (if i < length out then store (i + 1) xs (out[i := x]) else Inl Panic)"

fun remux_copy ::
  "(byte \<Rightarrow> u8) \<Rightarrow> u8 list \<Rightarrow> byte list list \<Rightarrow> nat \<Rightarrow> byte list list \<Rightarrow> byte list list result" where
  "remux_copy typ removed [] i out = Inr out"
| "remux_copy typ removed (nalu # nalus) i out =
     bindR (typed typ nalu) (\<lambda>t.
       if t \<in> set removed then remux_copy typ removed nalus i out
       else bindR (store i [nalu] out) (\<lambda>out. remux_copy typ removed nalus (i + 1) out))"

definition remux ::
  "(byte \<Rightarrow> u8) \<Rightarrow> u8 list \<Rightarrow> u8 list \<Rightarrow> byte list option list \<Rightarrow> byte list list \<Rightarrow>
   (bool \<times> byte list list) result" where
  "remux typ removed keys params nalus =
     (let known = list_all (\<lambda>p. p \<noteq> None) params in
      bindR (remux_scan typ removed keys (if known then length params else 0) nalus False 0) (\<lambda>(isKeyFrame, n).
        if n = 0 then Inr (isKeyFrame, [])
        else
          let front = (if isKeyFrame \<and> known then map the params else []) in
          bindR (store 0 front (replicate n [])) (\<lambda>out.
          bindR (remux_copy typ removed nalus (length front) out) (\<lambda>out. Inr (isKeyFrame, out)))))"

text \<open>The first loop alone decides what \<open>checkKeyFrameInterval\<close> sees, before the slice is filled.\<close>

record h264_processor = "byte list list kf_processor" +
  pr_format264 :: h264_format

record h265_processor = "byte list list kf_processor" +
  pr_format265 :: h265_format

definition H264_remuxAccessUnit ::
  "int \<Rightarrow> byte list list \<Rightarrow> h264_processor \<Rightarrow> (byte list list \<times> h264_processor) result" where
  "H264_remuxAccessUnit now nalus t =
     bindR (remux h264_type [NALUTypeSPS, NALUTypePPS, NALUTypeAccessUnitDelimiter] [NALUTypeIDR]
             [f264_SPS (pr_format264 t), f264_PPS (pr_format264 t)] nalus) (\<lambda>(isKeyFrame, out).
     Inr (out, checkKeyFrameInterval
       ''no H264 key frames received in %!v(MISSING), stream can't be decoded'' now isKeyFrame t))"

definition H265_remuxAccessUnit ::
  "int \<Rightarrow> byte list list \<Rightarrow> h265_processor \<Rightarrow> (byte list list \<times> h265_processor) result" where
  "H265_remuxAccessUnit now nalus t =
     bindR (remux h265_type [NALUType_VPS_NUT, NALUType_SPS_NUT, NALUType_PPS_NUT, NALUType_AUD_NUT]
             [NALUType_IDR_W_RADL, NALUType_IDR_N_LP, NALUType_CRA_NUT]
             [f265_VPS (pr_format265 t), f265_SPS (pr_format265 t), f265_PPS (pr_format265 t)] nalus)
       (\<lambda>(isKeyFrame, out).
     Inr (out, checkKeyFrameInterval
       ''no H265 key frames received in %!v(MISSING), stream can't be decoded'' now isKeyFrame t))"

section \<open>Tracking the parameter sets\<close>

text \<open>\<open>bytes.Equal\<close>, for which a nil slice is an empty one.\<close>

definition bytes_Equal :: "byte list \<Rightarrow> byte list option \<Rightarrow> bool" where
  "bytes_Equal a b = (a = (case b of None \<Rightarrow> [] | Some bs \<Rightarrow> bs))"

definition changed :: "byte list option \<Rightarrow> byte list option \<Rightarrow> bool" where
  "changed new old = (case new of None \<Rightarrow> False | Some bs \<Rightarrow> \<not> bytes_Equal bs old)"

definition or_old :: "byte list option \<Rightarrow> byte list option \<Rightarrow> byte list option" where
  "or_old new old = (if new = None then old else new)"

definition H264_updateTrackParametersFromRTPPacket :: "rtp_packet \<Rightarrow> h264_processor \<Rightarrow> h264_processor" where
  "H264_updateTrackParametersFromRTPPacket pkt t =
     (let f = pr_format264 t; (sps, pps) = rtpH264ExtractSPSPPS pkt in
      if changed sps (f264_SPS f) \<or> changed pps (f264_PPS f)
      then t\<lparr>pr_format264 := f\<lparr>f264_SPS := or_old sps (f264_SPS f), f264_PPS := or_old pps (f264_PPS f)\<rparr>\<rparr>
      else t)"

definition H265_updateTrackParametersFromRTPPacket :: "rtp_packet \<Rightarrow> h265_processor \<Rightarrow> h265_processor" where
  "H265_updateTrackParametersFromRTPPacket pkt t =
     (let f = pr_format265 t; (vps, sps, pps) = rtpH265ExtractVPSSPSPPS pkt in
      if changed vps (f265_VPS f) \<or> changed sps (f265_SPS f) \<or> changed pps (f265_PPS f)
      then t\<lparr>pr_format265 := f\<lparr>f265_VPS := or_old vps (f265_VPS f), f265_SPS := or_old sps (f265_SPS f),
             f265_PPS := or_old pps (f265_PPS f)\<rparr>\<rparr>
      else t)"

text \<open>The loop over an access unit.  H264 compares with the parameter sets found so far.\<close>

fun scan_params264 :: "byte list list \<Rightarrow> params264 \<Rightarrow> bool \<Rightarrow> (params264 \<times> bool) result" where
  "scan_params264 [] ps update = Inr (ps, update)"
| "scan_params264 (nalu # nalus) (sps, pps) update =
     bindR (typed h264_type nalu) (\<lambda>typ.
       if typ = NALUTypeSPS \<and> \<not> bytes_Equal nalu sps then scan_params264 nalus (Some nalu, pps) True
       else if typ = NALUTypePPS \<and> \<not> bytes_Equal nalu pps then scan_params264 nalus (sps, Some nalu) True
       else scan_params264 nalus (sps, pps) update)"

definition H264_updateTrackParametersFromNALUs ::
  "byte list list \<Rightarrow> h264_processor \<Rightarrow> h264_processor result" where
  "H264_updateTrackParametersFromNALUs nalus t =
     (let f = pr_format264 t in
      bindR (scan_params264 nalus (f264_SPS f, f264_PPS f) False) (\<lambda>((sps, pps), update).
        Inr (if update then t\<lparr>pr_format264 := f\<lparr>f264_SPS := sps, f264_PPS := pps\<rparr>\<rparr> else t)))"

text \<open>H265 compares with the parameter sets of the format, also after it has found others.\<close>

fun scan_params265 ::
  "h265_format \<Rightarrow> byte list list \<Rightarrow> params265 \<Rightarrow> bool \<Rightarrow> (params265 \<times> bool) result" where
  "scan_params265 f [] ps update = Inr (ps, update)"
| "scan_params265 f (nalu # nalus) (vps, sps, pps) update =
     bindR (typed h265_type nalu) (\<lambda>typ.
       if typ = NALUType_VPS_NUT \<and> \<not> bytes_Equal nalu (f265_VPS f)
       then scan_params265 f nalus (Some nalu, sps, pps) True
       else if typ = NALUType_SPS_NUT \<and> \<not> bytes_Equal nalu (f265_SPS f)
       then scan_params265 f nalus (vps, Some nalu, pps) True
       else if typ = NALUType_PPS_NUT \<and> \<not> bytes_Equal nalu (f265_PPS f)
       then scan_params265 f nalus (vps, sps, Some nalu) True
       else scan_params265 f nalus (vps, sps, pps) update)"

definition H265_updateTrackParametersFromNALUs ::
  "byte list list \<Rightarrow> h265_processor \<Rightarrow> h265_processor result" where
  "H265_updateTrackParametersFromNALUs nalus t =
     (let f = pr_format265 t in
      bindR (scan_params265 f nalus (f265_VPS f, f265_SPS f, f265_PPS f) False) (\<lambda>((vps, sps, pps), update).
        Inr (if update then t\<lparr>pr_format265 := f\<lparr>f265_VPS := vps, f265_SPS := sps, f265_PPS := pps\<rparr>\<rparr> else t)))"

section \<open>Process\<close>

text \<open>\<open>if t.encoder == nil\<close>: remove the padding, and start re-encoding when the packet is too big.\<close>

definition admit_packet ::
  "'a codec \<Rightarrow> (('a, 'p) processor_scheme \<Rightarrow> encoder_params \<Rightarrow> encoder_params) \<Rightarrow> rtp_packet \<Rightarrow>
   ('a, 'p) processor_scheme \<Rightarrow> rtp_packet \<times> ('a, 'p) processor_scheme" where
  "admit_packet cd extra pkt t =
     (if pr_encoder t \<noteq> None then (pkt, t)
      else
        let pkt = strip_padding pkt in
        if cd_MarshalSize cd pkt > pr_udpMaxPayloadSize t
        then (pkt, t\<lparr>pr_encoder := Some
          \<lparr>en_params = extra t ((new_encoder (pr_udpMaxPayloadSize t - 12))
             \<lparr>ep_PayloadType := pkt_PayloadType pkt, ep_SSRC := Some (pkt_SSRC pkt),
              ep_InitialSequenceNumber := Some (pkt_SequenceNumber pkt),
              ep_InitialTimestamp := Some (pkt_Timestamp pkt)\<rparr>),
           en_inputs = []\<rparr>\<rparr>)
        else (pkt, t))"

definition remux_unit ::
  "(int \<Rightarrow> byte list list \<Rightarrow> 't \<Rightarrow> (byte list list \<times> 't) result) \<Rightarrow> int \<Rightarrow> byte list list \<Rightarrow> duration \<Rightarrow>
   ('t, byte list list) process" where
  "remux_unit rm now au pts = (\<lambda>(t, u).
     case rm now au t of
       Inl e \<Rightarrow> (Inl e, (t, u))
     | Inr (au, t) \<Rightarrow> (Inr (), (t, u\<lparr>u_data := au, u_PTS := pts\<rparr>)))"

definition encode_au :: "byte list list codec \<Rightarrow> ((byte list list, 'p) processor_scheme, byte list list) process" where
  "encode_au cd = (\<lambda>(t, u).
     if u_data u \<noteq> [] then encode_unit cd (t, u) else (Inr (), (t, u\<lparr>u_RTPPackets := None\<rparr>)))"

text \<open>
  \<open>DecodeUntilMarker\<close> and what follows it: an incomplete access unit ends the processing, a complete
  one is cleaned up and, if there is an encoder, encoded again.
\<close>

definition decode_packet ::
  "byte list list codec \<Rightarrow>
   (int \<Rightarrow> byte list list \<Rightarrow> (byte list list, 'p) processor_scheme \<Rightarrow>
      (byte list list \<times> (byte list list, 'p) processor_scheme) result) \<Rightarrow>
   int \<Rightarrow> rtp_packet \<Rightarrow> ((byte list list, 'p) processor_scheme, byte list list) process" where
  "decode_packet cd rm now pkt = (\<lambda>(t, u).
     let t = feed_decoder pkt t in
     case cd_Decode cd (the (pr_decoder t)) of
       Inl err \<Rightarrow>
         (if err = ErrNonStartingPacketAndNoPrevious \<or> err = ErrMorePacketsNeeded then Inr ()
          else Inl (Err (decode_error_text err)), (t, u))
     | Inr (au, pts) \<Rightarrow>
         bindIO (remux_unit rm now au pts)
           (\<lambda>_ (t, u). if pr_encoder t = None then (Inr (), (t, u)) else encode_au cd (t, u)) (t, u))"

text \<open>
  \<open>Process\<close> of both formats, over the operations in which they differ: the two updates of the
  parameter sets, the clean-up and the field of the encoder.
\<close>

definition video_Process ::
  "byte list list codec \<Rightarrow>
   (rtp_packet \<Rightarrow> (byte list list, 'p) kf_processor_scheme \<Rightarrow> (byte list list, 'p) kf_processor_scheme) \<Rightarrow>
   (byte list list \<Rightarrow> (byte list list, 'p) kf_processor_scheme \<Rightarrow> (byte list list, 'p) kf_processor_scheme result) \<Rightarrow>
   (int \<Rightarrow> byte list list \<Rightarrow> (byte list list, 'p) kf_processor_scheme \<Rightarrow>
      (byte list list \<times> (byte list list, 'p) kf_processor_scheme) result) \<Rightarrow>
   ((byte list list, 'p) kf_processor_scheme \<Rightarrow> encoder_params \<Rightarrow> encoder_params) \<Rightarrow>
   int \<Rightarrow> int \<Rightarrow> bool \<Rightarrow> ((byte list list, 'p) kf_processor_scheme, byte list list) process" where
  "video_Process cd updPkt updAU rm extra now1 now2 hasNonRTSPReaders = (\<lambda>(t, u).
     case u_RTPPackets u of
       Some [] \<Rightarrow> (Inl Panic, (t, u))
     | Some (pkt # pkts) \<Rightarrow>
         let t = updPkt pkt t; (pkt, t) = admit_packet cd extra pkt t;
             u = u\<lparr>u_RTPPackets := Some (pkt # pkts)\<rparr> in
         if hasNonRTSPReaders \<or> pr_encoder t \<noteq> None
         then
           let t = start_decoder now1 t;
               u = (if pr_encoder t \<noteq> None then u\<lparr>u_RTPPackets := None\<rparr> else u) in
           decode_packet cd rm now2 pkt (t, u)
         else (Inr (), (t, u))
     | None \<Rightarrow>
         (case updAU (u_data u) t of
            Inl e \<Rightarrow> (Inl e, (t, u))
          | Inr t \<Rightarrow> bindIO (remux_unit rm now2 (u_data u) (u_PTS u)) (\<lambda>_. encode_au cd) (t, u)))"

definition H264_Process ::
  "byte list list codec \<Rightarrow> int \<Rightarrow> int \<Rightarrow> bool \<Rightarrow> (h264_processor, byte list list) process" where
  "H264_Process cd =
     video_Process cd H264_updateTrackParametersFromRTPPacket H264_updateTrackParametersFromNALUs
       H264_remuxAccessUnit (\<lambda>t e. e\<lparr>ep_PacketizationMode := f264_PacketizationMode (pr_format264 t)\<rparr>)"

definition H265_Process ::
  "byte list list codec \<Rightarrow> int \<Rightarrow> int \<Rightarrow> bool \<Rightarrow> (h265_processor, byte list list) process" where
  "H265_Process cd =
     video_Process cd H265_updateTrackParametersFromRTPPacket H265_updateTrackParametersFromNALUs
       H265_remuxAccessUnit (\<lambda>t e. e\<lparr>ep_MaxDONDiff := f265_MaxDONDiff (pr_format265 t)\<rparr>)"

definition newH264 :: "int \<Rightarrow> h264_format \<Rightarrow> bool \<Rightarrow> int \<Rightarrow> h264_processor" where
  "newH264 udpMaxPayloadSize forma generateRTPPackets now =
     \<lparr>pr_udpMaxPayloadSize = udpMaxPayloadSize,
      pr_encoder =
        (if generateRTPPackets
         then Some \<lparr>en_params = (new_encoder (udpMaxPayloadSize - 12))
                \<lparr>ep_PayloadType := f264_PayloadTyp forma, ep_PacketizationMode := f264_PacketizationMode forma\<rparr>,
              en_inputs = []\<rparr>
         else None),
      pr_decoder = None, pr_lastKeyFrameReceived = (if generateRTPPackets then now else 0),
      pr_warnings = [], pr_format264 = forma\<rparr>"

definition newH265 :: "int \<Rightarrow> h265_format \<Rightarrow> bool \<Rightarrow> int \<Rightarrow> h265_processor" where
  "newH265 udpMaxPayloadSize forma generateRTPPackets now =
     \<lparr>pr_udpMaxPayloadSize = udpMaxPayloadSize,
      pr_encoder =
        (if generateRTPPackets
         then Some \<lparr>en_params = (new_encoder (udpMaxPayloadSize - 12))\<lparr>ep_PayloadType := f265_PayloadTyp forma\<rparr>,
              en_inputs = []\<rparr>
         else None),
      pr_decoder = None, pr_lastKeyFrameReceived = (if generateRTPPackets then now else 0),
      pr_warnings = [], pr_format265 = forma\<rparr>"

section \<open>The clean-up of an access unit\<close>

text \<open>A reference: the parameter sets in front of a key frame, then the units that are kept.\<close>

definition has_type :: "(byte \<Rightarrow> u8) \<Rightarrow> u8 list \<Rightarrow> byte list \<Rightarrow> bool" where
  "has_type typ ts nalu \<longleftrightarrow> typ (hd nalu) \<in> set ts"

definition remux_reference ::
  "(byte \<Rightarrow> u8) \<Rightarrow> u8 list \<Rightarrow> u8 list \<Rightarrow> byte list option list \<Rightarrow> byte list list \<Rightarrow> byte list list" where
  "remux_reference typ removed keys params nalus =
     (if list_ex (has_type typ keys) nalus \<and> list_all (\<lambda>p. p \<noteq> None) params then map the params else []) @
     filter (\<lambda>nalu. \<not> has_type typ removed nalu) nalus"

lemma typed_nonempty [simp]: "nalu \<noteq> [] \<Longrightarrow> typed typ nalu = Inr (typ (hd nalu))"
  by (cases nalu) simp_all

lemma remux_scan_eq:
  assumes "\<forall>nalu \<in> set nalus. nalu \<noteq> []" and "set removed \<inter> set keys = {}"
  shows "remux_scan typ removed keys np nalus k n =
    Inr (k \<or> list_ex (has_type typ keys) nalus,
      n + length (filter (\<lambda>nalu. \<not> has_type typ removed nalu) nalus) +
        (if \<not> k \<and> list_ex (has_type typ keys) nalus then np else 0))"
  using assms by (induction nalus arbitrary: k n) (auto simp: has_type_def)

lemma store_eq:
  "i + length xs \<le> length out \<Longrightarrow> store i xs out = Inr (take i out @ xs @ drop (i + length xs) out)"
proof (induction xs arbitrary: i out)
  case (Cons x xs)
  then show ?case
    by (simp add: take_Suc_conv_app_nth)
qed simp

lemma remux_copy_eq:
  assumes "\<forall>nalu \<in> set nalus. nalu \<noteq> []"
    and "i + length (filter (\<lambda>nalu. \<not> has_type typ removed nalu) nalus) \<le> length out"
  shows "remux_copy typ removed nalus i out =
    Inr (take i out @ filter (\<lambda>nalu. \<not> has_type typ removed nalu) nalus @
      drop (i + length (filter (\<lambda>nalu. \<not> has_type typ removed nalu) nalus)) out)"
  using assms
proof (induction nalus arbitrary: i out)
  case (Cons nalu nalus)
  show ?case
  proof (cases "has_type typ removed nalu")
    case True
    with Cons show ?thesis by (simp add: has_type_def)
  next
    case False
    with Cons.prems have "i < length out" by simp
    with False Cons show ?thesis
      by (simp add: has_type_def take_Suc_conv_app_nth)
  qed
qed simp

lemma remux_eq:
  assumes "\<forall>nalu \<in> set nalus. nalu \<noteq> []" and "set removed \<inter> set keys = {}"
  shows "remux typ removed keys params nalus =
    Inr (list_ex (has_type typ keys) nalus, remux_reference typ removed keys params nalus)"
proof -
  let ?kept = "filter (\<lambda>nalu. \<not> has_type typ removed nalu) nalus"
  let ?key = "list_ex (has_type typ keys) nalus"
  let ?known = "list_all (\<lambda>p. p \<noteq> None) params"
  let ?front = "if ?key \<and> ?known then map the params else []"
  let ?n = "length ?kept + length ?front"
  have kept: "?kept \<noteq> []" if ?key
    using that assms(2) by (auto simp: list_ex_iff has_type_def filter_empty_conv)
  have scan: "remux_scan typ removed keys (if ?known then length params else 0) nalus False 0 = Inr (?key, ?n)"
    using remux_scan_eq [OF assms] by simp
  show ?thesis
  proof (cases "?n = 0")
    case True
    with kept scan show ?thesis by (auto simp: remux_def remux_reference_def)
  next
    case False
    have "store 0 ?front (replicate ?n []) = Inr (?front @ replicate (length ?kept) [])"
      using store_eq [of 0 ?front "replicate ?n []"] by simp
    moreover have "remux_copy typ removed nalus (length ?front) (?front @ replicate (length ?kept) []) =
        Inr (?front @ ?kept)"
      using remux_copy_eq [OF assms(1), where i = "length ?front" and out = "?front @ replicate (length ?kept) []"]
      by simp
    ultimately show ?thesis
      using False scan by (simp add: remux_def remux_reference_def Let_def)
  qed
qed

text \<open>The type of an empty unit is an index out of range, wherever the unit stands.\<close>

lemma remux_empty_unit:
  assumes "[] \<in> set nalus"
  shows "remux typ removed keys params nalus = Inl Panic"
proof -
  have "remux_scan typ removed keys np nalus k n = Inl Panic" for np k n
    using assms
  proof (induction nalus arbitrary: k n)
    case (Cons nalu nalus)
    then show ?case by (cases nalu) auto
  qed simp
  then show ?thesis by (simp add: remux_def Let_def)
qed

text \<open>
  C19. Cleaning up an access unit equals the reference: the parameter sets (SPS and PPS, for H265 also
  the VPS) that were in the unit and the access unit delimiters are removed, the order of the rest is
  kept, and when there is a key frame the current parameter sets of the track, if all are known, are
  put in front; filling the preallocated slice never leaves its range.  It panics exactly if one of the
  units is empty.
\<close>

theorem remuxAccessUnit_reference:
  "H264_remuxAccessUnit now nalus t =
     (if [] \<in> set nalus then Inl Panic
      else Inr (remux_reference h264_type [7, 8, 9] [5] [f264_SPS (pr_format264 t), f264_PPS (pr_format264 t)] nalus,
        checkKeyFrameInterval ''no H264 key frames received in %!v(MISSING), stream can't be decoded'' now
          (list_ex (has_type h264_type [5]) nalus) t)) \<and>
   H265_remuxAccessUnit now nalus t' =
     (if [] \<in> set nalus then Inl Panic
      else Inr (remux_reference h265_type [32, 33, 34, 35] [19, 20, 21]
          [f265_VPS (pr_format265 t'), f265_SPS (pr_format265 t'), f265_PPS (pr_format265 t')] nalus,
        checkKeyFrameInterval ''no H265 key frames received in %!v(MISSING), stream can't be decoded'' now
          (list_ex (has_type h265_type [19, 20, 21]) nalus) t'))"
proof (cases "[] \<in> set nalus")
  case True
  then show ?thesis by (simp add: H264_remuxAccessUnit_def H265_remuxAccessUnit_def remux_empty_unit)
next
  case False
  then have "\<forall>nalu \<in> set nalus. nalu \<noteq> []" by auto
  with False show ?thesis by (simp add: H264_remuxAccessUnit_def H265_remuxAccessUnit_def remux_eq)
qed

definition sample264 :: h264_processor where
  "sample264 =
     newH264 1472 \<lparr>f264_PayloadTyp = 96, f264_SPS = Some [0x67, 1], f264_PPS = Some [0x68, 2],
       f264_PacketizationMode = 1\<rparr> True 0"

definition sample265 :: h265_processor where
  "sample265 =
     newH265 1472 \<lparr>f265_PayloadTyp = 96, f265_VPS = None, f265_SPS = Some [0x42, 1], f265_PPS = Some [0x44, 2],
       f265_MaxDONDiff = 0\<rparr> True 0"

theorem remuxAccessUnit_reference_witness:
  "H264_remuxAccessUnit 5 [[9, 240], [0x67, 3], [0x65, 4]] sample264 =
     Inr ([[0x67, 1], [0x68, 2], [0x65, 4]], sample264\<lparr>pr_lastKeyFrameReceived := 5\<rparr>) \<and>
   H265_remuxAccessUnit 5 [[9, 240], [0x67, 3], [0x65, 4]] sample265 =
     Inr ([[9, 240], [0x67, 3], [0x65, 4]], sample265)"
  using remuxAccessUnit_reference
    [of 5 "[[9, 240], [0x67, 3], [0x65, 4]]" sample264 sample265]
  by (simp add: sample264_def sample265_def newH264_def newH265_def remux_reference_def has_type_def
      h264_type_def h265_type_def checkKeyFrameInterval_def maxKeyFrameInterval_def second_def drop_bit_eq_div)

section \<open>The extraction of parameter sets\<close>

definition aggregate :: "byte list list \<Rightarrow> byte list" where
  "aggregate nalus = concat (map (\<lambda>nalu. be16 (of_nat (length nalu)) @ nalu) nalus)"

lemma aggregation_loop_step:
  assumes "0 < length nalu" "length nalu < 2 ^ 16"
  shows "aggregation_loop f none (be16 (of_nat (length nalu)) @ nalu @ rest) acc =
    aggregation_loop f none rest (f nalu acc)"
proof -
  have "unat (of_nat (length nalu) :: u16) = length nalu"
    using assms(2) by (simp add: unat_of_nat take_bit_nat_eq_self)
  then show ?thesis
    using assms by (simp add: be16_def aggregation_loop.simps [of _ _ "_ # _"] codec_simps Let_def)
qed

lemma aggregation_loop_aggregate:
  assumes "\<forall>nalu \<in> set nalus. 0 < length nalu \<and> length nalu < 2 ^ 16"
  shows "aggregation_loop f none (aggregate nalus) acc = fold f nalus acc"
  using assms
proof (induction nalus arbitrary: acc)
  case Nil
  show ?case by (simp add: aggregate_def aggregation_loop.simps)
next
  case (Cons nalu nalus)
  then show ?case
    using aggregation_loop_step [of nalu f none "aggregate nalus"] by (simp add: aggregate_def)
qed

definition last_of_type :: "u8 \<Rightarrow> byte list list \<Rightarrow> byte list option" where
  "last_of_type t nalus = List.find (has_type h264_type [t]) (rev nalus)"

lemma last_of_type_snoc:
  "last_of_type t (nalus @ [nalu]) = (if has_type h264_type [t] nalu then Some nalu else last_of_type t nalus)"
  by (simp add: last_of_type_def)

lemma fold_stapa_unit:
  "fold stapa_unit nalus (None, None) = (last_of_type NALUTypeSPS nalus, last_of_type NALUTypePPS nalus)"
proof (induction nalus rule: rev_induct)
  case Nil
  show ?case by (simp add: last_of_type_def)
next
  case (snoc nalu nalus)
  then show ?case
    by (simp add: last_of_type_snoc stapa_unit_def has_type_def Let_def)
qed

text \<open>
  C20. From an aggregation packet (STAP-A of RFC 6184) that carries any sequence of units, H264 track
  parameters are extracted exactly: the last SPS and the last PPS of the packet, or nothing where
  there is none.
\<close>

theorem stapa_parameters_extracted:
  assumes "\<forall>nalu \<in> set nalus. 0 < length nalu \<and> length nalu < 2 ^ 16" and "h264_type b = NALUTypeSTAPA"
  shows "rtpH264ExtractSPSPPS (pkt\<lparr>pkt_Payload := b # aggregate nalus\<rparr>) =
    (last_of_type NALUTypeSPS nalus, last_of_type NALUTypePPS nalus)"
  using assms by (simp add: rtpH264ExtractSPSPPS_def aggregation_loop_aggregate fold_stapa_unit)

definition sample_packet :: rtp_packet where
  "sample_packet =
     \<lparr>pkt_Padding = False, pkt_PaddingSize = 0, pkt_PayloadType = 96, pkt_SequenceNumber = 1,
      pkt_Timestamp = 0, pkt_SSRC = 7, pkt_Payload = []\<rparr>"

theorem stapa_parameters_extracted_witness:
  "rtpH264ExtractSPSPPS (sample_packet\<lparr>pkt_Payload := 0x78 # aggregate [[0x67, 1], [0x68, 2], [0x67, 3, 4]]\<rparr>) =
     (Some [0x67, 3, 4], Some [0x68, 2])"
  using stapa_parameters_extracted 
    [where nalus = "[[0x67, 1], [0x68, 2], [0x67, 3, 4]]" and b = "0x78" and pkt = sample_packet]
  by (simp add: h264_type_def last_of_type_def has_type_def)

lemma aggregation_loop_ignore:
  assumes "\<And>nalu. f nalu none = none"
  shows "aggregation_loop f none payload none = none"
proof (induction "length payload" arbitrary: payload rule: less_induct)
  case less
  then show ?case
    using assms by (subst aggregation_loop.simps) (auto simp: Let_def split: list.splits)
qed

text \<open>
  C21. From an aggregation packet of H265 no parameter set is ever extracted, whatever it carries: the
  loop looks at the type of the packet where it means the type of the unit.
\<close>

theorem h265_aggregation_ignored:
  assumes "pkt_Payload pkt = b # rest" and "h265_type b = NALUType_AggregationUnit"
  shows "rtpH265ExtractVPSSPSPPS pkt = (None, None, None)"
proof -
  have "aggregation_unit b nalu (None, None, None) = (None, None, None)" for nalu
    using assms(2) by (simp add: aggregation_unit_def)
  then show ?thesis
    using assms
    by (auto simp: rtpH265ExtractVPSSPSPPS_def aggregation_loop_ignore split: list.splits)
qed

theorem h265_aggregation_ignored_witness:
  "rtpH265ExtractVPSSPSPPS (sample_packet\<lparr>pkt_Payload := [0x60, 1, 0, 2, 0x42, 1]\<rparr>) = (None, None, None)"
proof (rule h265_aggregation_ignored)
  show "h265_type 0x60 = NALUType_AggregationUnit" by code_simp
qed simp

section \<open>The size of packets\<close>

text \<open>What \<open>video_Process\<close> needs to know of the operations it is composed of: they leave the encoder alone.\<close>

definition keeps_encoder :: "('a, 'p) processor_scheme \<Rightarrow> ('a, 'p) processor_scheme \<Rightarrow> bool" where
  "keeps_encoder t t' \<longleftrightarrow>
     pr_encoder t' = pr_encoder t \<and> pr_udpMaxPayloadSize t' = pr_udpMaxPayloadSize t"

lemma fits_keeps: "keeps_encoder t t' \<Longrightarrow> fits m t' = fits m t"
  by (simp add: keeps_encoder_def fits_def)

lemma admit_packet_fits:
  assumes "fits m t" "\<And>t p. ep_PayloadMaxSize (extra t p) = ep_PayloadMaxSize p"
    and "admit_packet cd extra pkt t = (pkt', t')"
  shows "fits m t'" and "pr_encoder t' = None \<Longrightarrow> cd_MarshalSize cd pkt' \<le> m"
  using assms
  by (auto simp: admit_packet_def fits_def Let_def new_encoder_def split: if_splits)

lemma encode_au_fits:
  assumes "encoder_ok cd" "fits m t" "encode_au cd (t, u) = (r, (t', u'))"
  shows "fits m t' \<and> (r = Inr () \<longrightarrow> packets_fit cd m u')"
proof (cases "u_data u = []")
  case True
  with assms show ?thesis by (auto simp: encode_au_def packets_fit_def)
next
  case False
  with assms encode_unit_fits show ?thesis by (fastforce simp: encode_au_def)
qed

lemma remux_encode_fits:
  assumes "encoder_ok cd" "fits m t" "\<And>now au t au' t'. rm now au t = Inr (au', t') \<Longrightarrow> keeps_encoder t t'"
    and "pr_encoder t = None \<longrightarrow> force \<or> packets_fit cd m u"
    and "bindIO (remux_unit rm now au pts)
      (\<lambda>_ (t, u). if pr_encoder t = None \<and> \<not> force then (Inr (), (t, u)) else encode_au cd (t, u)) (t, u) =
      (r, (t', u'))"
  shows "fits m t' \<and> (r = Inr () \<longrightarrow> packets_fit cd m u')"
proof (cases "rm now au t")
  case (Inl e)
  with assms show ?thesis by (auto simp: bindIO_def remux_unit_def)
next
  case (Inr x)
  obtain au1 t1 where x: "x = (au1, t1)" by (cases x)
  with Inr assms(3) have k: "keeps_encoder t t1" by blast
  then have f: "fits m t1" using assms(2) by (simp add: fits_keeps)
  let ?u = "u\<lparr>u_data := au1, u_PTS := pts\<rparr>"
  show ?thesis
  proof (cases "pr_encoder t1 = None \<and> \<not> force")
    case True
    then have "packets_fit cd m u" using k assms(4) by (simp add: keeps_encoder_def)
    with True f Inr x assms(5) show ?thesis
      by (auto simp: bindIO_def remux_unit_def packets_fit_def)
  next
    case False
    then have "encode_au cd (t1, ?u) = (r, (t', u'))"
      using Inr x assms(5) by (auto simp: bindIO_def remux_unit_def)
    then show ?thesis using encode_au_fits assms(1) f by blast
  qed
qed

lemma decode_packet_fits:
  assumes "encoder_ok cd" "fits m t" "\<And>now au t au' t'. rm now au t = Inr (au', t') \<Longrightarrow> keeps_encoder t t'"
    and "packets_fit cd m u" and "decode_packet cd rm now pkt (t, u) = (r, (t', u'))"
  shows "fits m t' \<and> (r = Inr () \<longrightarrow> packets_fit cd m u')"
proof (cases "cd_Decode cd (the (pr_decoder (feed_decoder pkt t)))")
  case (Inl err)
  with assms show ?thesis by (auto simp: decode_packet_def Let_def split: if_splits)
next
  case (Inr x)
  obtain au pts where x: "x = (au, pts)" by (cases x)
  have f: "fits m (feed_decoder pkt t)" using assms(2) by simp
  show ?thesis
    by (rule remux_encode_fits [where rm = rm and force = False and now = now and au = au and pts = pts,
          OF assms(1) f assms(3)])
      (use assms(4,5) Inr x in \<open>simp_all add: decode_packet_def\<close>)
qed

lemma video_Process_fits:
  assumes cd: "encoder_ok cd" and t: "fits m t" and u: "one_packet u"
    and pkt: "\<And>pkt t. keeps_encoder t (updPkt pkt t)"
    and au: "\<And>au t t'. updAU au t = Inr t' \<Longrightarrow> keeps_encoder t t'"
    and rm: "\<And>now au t au' t'. rm now au t = Inr (au', t') \<Longrightarrow> keeps_encoder t t'"
    and extra: "\<And>t p. ep_PayloadMaxSize (extra t p) = ep_PayloadMaxSize p"
    and run: "video_Process cd updPkt updAU rm extra now1 now2 b (t, u) = (r, (t', u'))"
  shows "fits m t' \<and> (r = Inr () \<longrightarrow> packets_fit cd m u')"
proof (cases "u_RTPPackets u")
  case None
  show ?thesis
  proof (cases "updAU (u_data u) t")
    case (Inl e)
    with None run t show ?thesis by (auto simp: video_Process_def)
  next
    case (Inr t1)
    then have "fits m t1" using au t fits_keeps by blast
    then show ?thesis
      using remux_encode_fits [where rm = rm, OF cd _ rm, where force = True and t = t1 and u = u] None Inr run
      by (simp add: video_Process_def case_prod_eta)
  qed
next
  case (Some pkts)
  show ?thesis
  proof (cases pkts)
    case Nil
    with Some run t show ?thesis by (auto simp: video_Process_def)
  next
    case (Cons pkt0 pkts')
    obtain pkt1 t1 where a: "admit_packet cd extra pkt0 (updPkt pkt0 t) = (pkt1, t1)"
      by (cases "admit_packet cd extra pkt0 (updPkt pkt0 t)")
    have f: "fits m (updPkt pkt0 t)" using pkt t fits_keeps by blast
    note f1 = admit_packet_fits(1) [OF f extra a] and s1 = admit_packet_fits(2) [OF f extra a]
    have one: "pkts' = []" using Some Cons u by (simp add: one_packet_def GetRTPPackets_def)
    let ?u = "u\<lparr>u_RTPPackets := if pr_encoder t1 = None then Some [pkt1] else None\<rparr>"
    have fit: "packets_fit cd m ?u" using s1 by (auto simp: packets_fit_def)
    show ?thesis
    proof (cases "b \<or> pr_encoder t1 \<noteq> None")
      case False
      with Some Cons a one run f1 fit show ?thesis by (auto simp: video_Process_def)
    next
      case True
      then have "decode_packet cd rm now2 pkt1 (start_decoder now1 t1, ?u) = (r, (t', u'))"
        using Some Cons a one run by (cases "pr_encoder t1") (auto simp: video_Process_def Let_def)
      moreover have "fits m (start_decoder now1 t1)" using f1 by simp
      ultimately show ?thesis
        using decode_packet_fits [where rm = rm] cd fit rm by blast
    qed
  qed
qed

lemma H264_keeps:
  "keeps_encoder t (H264_updateTrackParametersFromRTPPacket pkt t)"
  "H264_updateTrackParametersFromNALUs au t = Inr t' \<Longrightarrow> keeps_encoder t t'"
  "H264_remuxAccessUnit now au t = Inr (au', t') \<Longrightarrow> keeps_encoder t t'"
  by (auto simp: H264_updateTrackParametersFromRTPPacket_def H264_updateTrackParametersFromNALUs_def
      H264_remuxAccessUnit_def keeps_encoder_def Let_def bindR_Inr_iff split: prod.splits if_splits)

lemma H265_keeps:
  "keeps_encoder t (H265_updateTrackParametersFromRTPPacket pkt t)"
  "H265_updateTrackParametersFromNALUs au t = Inr t' \<Longrightarrow> keeps_encoder t t'"
  "H265_remuxAccessUnit now au t = Inr (au', t') \<Longrightarrow> keeps_encoder t t'"
  by (auto simp: H265_updateTrackParametersFromRTPPacket_def H265_updateTrackParametersFromNALUs_def
      H265_remuxAccessUnit_def keeps_encoder_def Let_def bindR_Inr_iff split: prod.splits if_splits)

lemma H264_Process_fits:
  assumes "encoder_ok cd" "fits m t" "one_packet u" "H264_Process cd now1 now2 b (t, u) = (r, (t', u'))"
  shows "fits m t' \<and> (r = Inr () \<longrightarrow> packets_fit cd m u')"
  using video_Process_fits [OF assms(1-3) H264_keeps _ assms(4) [unfolded H264_Process_def]] by simp

lemma H265_Process_fits:
  assumes "encoder_ok cd" "fits m t" "one_packet u" "H265_Process cd now1 now2 b (t, u) = (r, (t', u'))"
  shows "fits m t' \<and> (r = Inr () \<longrightarrow> packets_fit cd m u')"
  using video_Process_fits [OF assms(1-3) H265_keeps _ assms(4) [unfolded H265_Process_def]] by simp

interpretation h264: bounded_processor "\<lambda>cd (now1, now2, b). H264_Process cd now1 now2 b" fits
  by unfold_locales (auto dest: H264_Process_fits split: prod.splits)

interpretation h265: bounded_processor "\<lambda>cd (now1, now2, b). H265_Process cd now1 now2 b" fits
  by unfold_locales (auto dest: H265_Process_fits split: prod.splits)

end
