(* ===== verification/Stream.thy ===== *)
theory Stream
  imports H26x
begin

text \<open>
  The stream of a path: \<open>internal/core/stream.go\<close>, \<open>stream_media.go\<close>, \<open>stream_format.go\<close> and the
  allocation of processors (\<open>formatprocessor.New\<close>).  A stream has a processor and a set of readers for
  every format of every media; writing a unit cleans it up, counts the bytes, hands the packets to the
  RTSP side and the unit to the other readers.  The claims are about which streams can be created, the
  size of what reaches RTSP readers, and who gets a unit.
\<close>

section \<open>Processors of all formats\<close>

datatype any_processor =
  PH264 h264_processor | PH265 h265_processor | PVP8 "byte list processor" | PVP9 "byte list processor" |
  PAV1 "byte list list kf_processor" | PMPEG2Audio "byte list list processor" |
  PMPEG4Audio "byte list list processor" | POpus "byte list processor" | PGeneric int

datatype any_unit =
  UnitH264 "byte list list data_unit" | UnitH265 "byte list list data_unit" | UnitVP8 "byte list data_unit" |
  UnitVP9 "byte list data_unit" | UnitAV1 "byte list list data_unit" |
  UnitMPEG2Audio "byte list list data_unit" | UnitMPEG4Audio "byte list list data_unit" |
  UnitOpus "byte list data_unit" | UnitGeneric "unit data_unit"

text \<open>The RTP packages of gortsplib and pion, and the key frame test of mediacommon.\<close>

record rtplib =
  lib_MarshalSize :: "rtp_packet \<Rightarrow> int"
  lib_h264 :: "byte list list codec"
  lib_h265 :: "byte list list codec"
  lib_vp8 :: "byte list codec"
  lib_vp9 :: "byte list codec"
  lib_av1 :: "byte list list codec"
  lib_mpeg2audio :: "byte list list codec"
  lib_mpeg4audio :: "byte list list codec"
  lib_opus :: "byte list codec"
  lib_ContainsKeyFrame :: "byte list list \<Rightarrow> bool"

fun processor_New :: "int \<Rightarrow> bool \<Rightarrow> int \<Rightarrow> format \<Rightarrow> any_processor result" where
  "processor_New sz gen now (H264 f) = Inr (PH264 (newH264 sz f gen now))"
| "processor_New sz gen now (H265 f) = Inr (PH265 (newH265 sz f gen now))"
| "processor_New sz gen now (VP8 p) = Inr (PVP8 (newVP8 sz p gen))"
| "processor_New sz gen now (VP9 p) = Inr (PVP9 (newVP9 sz p gen))"
| "processor_New sz gen now AV1 = Inr (PAV1 (newAV1 sz gen now))"
| "processor_New sz gen now MPEG2Audio = Inr (PMPEG2Audio (newMPEG2Audio sz gen))"
| "processor_New sz gen now (MPEG4Audio f) = Inr (PMPEG4Audio (newMPEG4Audio sz f gen))"
| "processor_New sz gen now (Opus p) = Inr (POpus (newOpus sz p gen))"
| "processor_New sz gen now (OtherFormat name) = bindR (newGeneric sz name gen) (\<lambda>p. Inr (PGeneric p))"

text \<open>
  \<open>Processor.Process\<close>: the dispatch over the processors.  Each asserts the type of its unit; the
  assertion panics on a unit of another type.
\<close>

definition asserted ::
  "'a data_unit option \<Rightarrow> ('t \<Rightarrow> any_processor) \<Rightarrow> ('a data_unit \<Rightarrow> any_unit) \<Rightarrow> ('t, 'a) process \<Rightarrow> 't \<Rightarrow> any_unit \<Rightarrow>
   unit result \<times> (any_processor \<times> any_unit)" where
  "asserted tunit p w process t u =
     (case tunit of
        None \<Rightarrow> (Inl Panic, (p t, u))
      | Some tu \<Rightarrow> (case process (t, tu) of (r, (t, tu)) \<Rightarrow> (r, (p t, w tu))))"

fun processor_Process ::
  "rtplib \<Rightarrow> int \<Rightarrow> int \<Rightarrow> bool \<Rightarrow> any_processor \<Rightarrow> any_unit \<Rightarrow> unit result \<times> (any_processor \<times> any_unit)" where
  "processor_Process lib n1 n2 b (PH264 t) u =
     asserted (case u of UnitH264 tu \<Rightarrow> Some tu | _ \<Rightarrow> None) PH264 UnitH264 (H264_Process (lib_h264 lib) n1 n2 b) t u"
| "processor_Process lib n1 n2 b (PH265 t) u =
     asserted (case u of UnitH265 tu \<Rightarrow> Some tu | _ \<Rightarrow> None) PH265 UnitH265 (H265_Process (lib_h265 lib) n1 n2 b) t u"
| "processor_Process lib n1 n2 b (PVP8 t) u =
     asserted (case u of UnitVP8 tu \<Rightarrow> Some tu | _ \<Rightarrow> None) PVP8 UnitVP8 (VP8_Process (lib_vp8 lib) b) t u"
| "processor_Process lib n1 n2 b (PVP9 t) u =
     asserted (case u of UnitVP9 tu \<Rightarrow> Some tu | _ \<Rightarrow> None) PVP9 UnitVP9 (VP9_Process (lib_vp9 lib) b) t u"
| "processor_Process lib n1 n2 b (PAV1 t) u =
     asserted (case u of UnitAV1 tu \<Rightarrow> Some tu | _ \<Rightarrow> None) PAV1 UnitAV1 (AV1_Process (lib_av1 lib) (lib_ContainsKeyFrame lib) n1 n2 b) t u"
| "processor_Process lib n1 n2 b (PMPEG2Audio t) u =
     asserted (case u of UnitMPEG2Audio tu \<Rightarrow> Some tu | _ \<Rightarrow> None) PMPEG2Audio UnitMPEG2Audio (MPEG2Audio_Process (lib_mpeg2audio lib) b) t u"
| "processor_Process lib n1 n2 b (PMPEG4Audio t) u =
     asserted (case u of UnitMPEG4Audio tu \<Rightarrow> Some tu | _ \<Rightarrow> None) PMPEG4Audio UnitMPEG4Audio (MPEG4Audio_Process (lib_mpeg4audio lib) b) t u"
| "processor_Process lib n1 n2 b (POpus t) u =
     asserted (case u of UnitOpus tu \<Rightarrow> Some tu | _ \<Rightarrow> None) POpus UnitOpus (Opus_Process (lib_opus lib) b) t u"
| "processor_Process lib n1 n2 b (PGeneric t) u =
     asserted (case u of UnitGeneric tu \<Rightarrow> Some tu | _ \<Rightarrow> None) PGeneric UnitGeneric
       (\<lambda>(t, tu). case Generic_Process (lib_MarshalSize lib) t tu of (r, tu) \<Rightarrow> (r, (t, tu))) t u"

fun unit_GetRTPPackets :: "any_unit \<Rightarrow> rtp_packet list" where
  "unit_GetRTPPackets (UnitH264 u) = GetRTPPackets u"
| "unit_GetRTPPackets (UnitH265 u) = GetRTPPackets u"
| "unit_GetRTPPackets (UnitVP8 u) = GetRTPPackets u"
| "unit_GetRTPPackets (UnitVP9 u) = GetRTPPackets u"
| "unit_GetRTPPackets (UnitAV1 u) = GetRTPPackets u"
| "unit_GetRTPPackets (UnitMPEG2Audio u) = GetRTPPackets u"
| "unit_GetRTPPackets (UnitMPEG4Audio u) = GetRTPPackets u"
| "unit_GetRTPPackets (UnitOpus u) = GetRTPPackets u"
| "unit_GetRTPPackets (UnitGeneric u) = GetRTPPackets u"

section \<open>Streams\<close>

text \<open>
  Readers are identified by numbers.  The maps from medias and formats to their state are lists: a
  media is the position of its description, a format a position in its media.  What a stream sends is
  recorded: packets for the RTSP side, deliveries to the callbacks of the other readers, warnings.
\<close>

type_synonym reader = nat

datatype stream_out =
  WritePacketRTP nat rtp_packet | Callback reader any_unit | Warning error

record streamFormat =
  sf_proc :: any_processor
  sf_nonRTSPReaders :: "reader list"

record media =
  md_Formats :: "format list"

type_synonym streamMedia = "streamFormat list"

record stream =
  st_bytesReceived :: u64
  st_medias :: "media list"
  st_smedias :: "streamMedia list"
  st_out :: "stream_out list"
  st_closed :: bool

definition newStreamFormat :: "int \<Rightarrow> bool \<Rightarrow> int \<Rightarrow> format \<Rightarrow> streamFormat result" where
  "newStreamFormat sz gen now f =
     bindR (processor_New sz gen now f) (\<lambda>proc. Inr \<lparr>sf_proc = proc, sf_nonRTSPReaders = []\<rparr>)"

fun mapR :: "('a \<Rightarrow> 'b result) \<Rightarrow> 'a list \<Rightarrow> 'b list result" where
  "mapR f [] = Inr []"
| "mapR f (x # xs) = bindR (f x) (\<lambda>y. bindR (mapR f xs) (\<lambda>ys. Inr (y # ys)))"

definition newStreamMedia :: "int \<Rightarrow> bool \<Rightarrow> int \<Rightarrow> media \<Rightarrow> streamMedia result" where
  "newStreamMedia sz gen now medi = mapR (newStreamFormat sz gen now) (md_Formats medi)"

definition newStream :: "int \<Rightarrow> media list \<Rightarrow> bool \<Rightarrow> int \<Rightarrow> u64 \<Rightarrow> stream result" where
  "newStream udpMaxPayloadSize medias generateRTPPackets now bytesReceived =
     bindR (mapR (newStreamMedia udpMaxPayloadSize generateRTPPackets now) medias) (\<lambda>smedias.
       Inr \<lparr>st_bytesReceived = bytesReceived, st_medias = medias, st_smedias = smedias, st_out = [],
            st_closed = False\<rparr>)"

definition stream_close :: "stream \<Rightarrow> stream" where
  "stream_close s = s\<lparr>st_closed := True\<rparr>"

definition stream_medias :: "stream \<Rightarrow> media list" where
  "stream_medias s = st_medias s"

definition streamFormat_readerAdd :: "reader \<Rightarrow> streamFormat \<Rightarrow> streamFormat" where
  "streamFormat_readerAdd r sf = sf\<lparr>sf_nonRTSPReaders := List.insert r (sf_nonRTSPReaders sf)\<rparr>"

definition streamFormat_readerRemove :: "reader \<Rightarrow> streamFormat \<Rightarrow> streamFormat" where
  "streamFormat_readerRemove r sf = sf\<lparr>sf_nonRTSPReaders := removeAll r (sf_nonRTSPReaders sf)\<rparr>"

text \<open>The format at a position; a missing media or format is a nil pointer.\<close>

definition format_at :: "stream \<Rightarrow> nat \<Rightarrow> nat \<Rightarrow> streamFormat option" where
  "format_at s i j =
     (if i < length (st_smedias s) \<and> j < length (st_smedias s ! i) then Some (st_smedias s ! i ! j) else None)"

definition set_format :: "stream \<Rightarrow> nat \<Rightarrow> nat \<Rightarrow> streamFormat \<Rightarrow> stream" where
  "set_format s i j sf = s\<lparr>st_smedias := (st_smedias s)[i := (st_smedias s ! i)[j := sf]]\<rparr>"

definition stream_readerAdd :: "reader \<Rightarrow> nat \<Rightarrow> nat \<Rightarrow> stream \<Rightarrow> stream result" where
  "stream_readerAdd r i j s =
     bindR (deref (format_at s i j)) (\<lambda>sf. Inr (set_format s i j (streamFormat_readerAdd r sf)))"

definition stream_readerRemove :: "reader \<Rightarrow> stream \<Rightarrow> stream" where
  "stream_readerRemove r s = s\<lparr>st_smedias := map (map (streamFormat_readerRemove r)) (st_smedias s)\<rparr>"

definition streamFormat_writeUnit ::
  "rtplib \<Rightarrow> int \<Rightarrow> int \<Rightarrow> nat \<Rightarrow> any_unit \<Rightarrow> streamFormat \<Rightarrow>
   (error option) \<times> streamFormat \<times> (rtp_packet list) \<times> stream_out list" where
  "streamFormat_writeUnit lib now1 now2 i data sf =
     (case processor_Process lib now1 now2 (sf_nonRTSPReaders sf \<noteq> []) (sf_proc sf) data of
        (Inl Panic, (proc, _)) \<Rightarrow> (Some Panic, sf\<lparr>sf_proc := proc\<rparr>, [], [])
      | (Inl err, (proc, _)) \<Rightarrow> (None, sf\<lparr>sf_proc := proc\<rparr>, [], [Warning err])
      | (Inr _, (proc, data)) \<Rightarrow>
          (None, sf\<lparr>sf_proc := proc\<rparr>, unit_GetRTPPackets data,
           map (WritePacketRTP i) (unit_GetRTPPackets data) @
           map (\<lambda>r. Callback r data) (sf_nonRTSPReaders sf)))"

text \<open>The counter is an \<open>uint64\<close> and wraps around.\<close>

definition count_bytes :: "(rtp_packet \<Rightarrow> int) \<Rightarrow> rtp_packet list \<Rightarrow> u64 \<Rightarrow> u64" where
  "count_bytes sz pkts n = fold (\<lambda>pkt n. n + word_of_int (sz pkt)) pkts n"

definition stream_writeUnit :: "rtplib \<Rightarrow> int \<Rightarrow> int \<Rightarrow> nat \<Rightarrow> nat \<Rightarrow> any_unit \<Rightarrow> stream \<Rightarrow> stream result" where
  "stream_writeUnit lib now1 now2 i j data s =
     bindR (deref (format_at s i j)) (\<lambda>sf.
       case streamFormat_writeUnit lib now1 now2 i data sf of
         (Some e, _) \<Rightarrow> Inl e
       | (None, sf, pkts, out) \<Rightarrow>
           Inr ((set_format s i j sf)
             \<lparr>st_bytesReceived := count_bytes (lib_MarshalSize lib) pkts (st_bytesReceived s),
              st_out := st_out s @ out\<rparr>))"

section \<open>Which streams can be created\<close>

lemma mapR_Inr_iff: "(\<exists>ys. mapR f xs = Inr ys) \<longleftrightarrow> (\<forall>x \<in> set xs. \<exists>y. f x = Inr y)"
  by (induction xs) (auto simp: bindR_Inr_iff)

lemma mapR_InrD: "mapR f xs = Inr ys \<Longrightarrow> list_all2 (\<lambda>x y. f x = Inr y) xs ys"
  by (induction xs arbitrary: ys) (auto simp: bindR_Inr_iff)

fun has_own_processor :: "format \<Rightarrow> bool" where
  "has_own_processor (OtherFormat name) = False"
| "has_own_processor f = True"

lemma processor_New_Inr: "(\<exists>p. processor_New sz gen now f = Inr p) \<longleftrightarrow> \<not> gen \<or> has_own_processor f"
  by (cases f) (auto simp: newGeneric_def)

lemma newStream_Inr:
  assumes "newStream sz medias gen now n = Inr s"
  shows "st_smedias s = map (map (\<lambda>f. \<lparr>sf_proc = projr (processor_New sz gen now f), sf_nonRTSPReaders = []\<rparr>))
    (map md_Formats medias)" "st_medias s = medias" "st_out s = []"
proof -
  have format: "y = \<lparr>sf_proc = projr (processor_New sz gen now f), sf_nonRTSPReaders = []\<rparr>"
    if "newStreamFormat sz gen now f = Inr y" for f y
    using that by (auto simp: newStreamFormat_def bindR_Inr_iff)
  have media: "y = map (\<lambda>f. \<lparr>sf_proc = projr (processor_New sz gen now f), sf_nonRTSPReaders = []\<rparr>) (md_Formats m)"
    if "newStreamMedia sz gen now m = Inr y" for m y
    using mapR_InrD [OF that [unfolded newStreamMedia_def]] format
    by (auto simp: list_all2_conv_all_nth intro!: nth_equalityI)
  obtain sm where "mapR (newStreamMedia sz gen now) medias = Inr sm" "st_smedias s = sm"
      "st_medias s = medias" "st_out s = []"
    using assms by (auto simp: newStream_def bindR_Inr_iff)
  then show "st_smedias s = map (map (\<lambda>f. \<lparr>sf_proc = projr (processor_New sz gen now f), sf_nonRTSPReaders = []\<rparr>))
      (map md_Formats medias)" "st_medias s = medias" "st_out s = []"
    using media by (auto dest!: mapR_InrD simp: list_all2_conv_all_nth intro!: nth_equalityI)
qed

lemma newStream_Inr_iff:
  "(\<exists>s. newStream sz medias gen now n = Inr s) \<longleftrightarrow>
     \<not> (gen \<and> list_ex (\<lambda>m. list_ex (\<lambda>f. \<not> has_own_processor f) (md_Formats m)) medias)"
proof -
  have "(\<exists>y. newStreamMedia sz gen now m = Inr y) \<longleftrightarrow> (\<forall>f \<in> set (md_Formats m). \<not> gen \<or> has_own_processor f)" for m
    unfolding newStreamMedia_def mapR_Inr_iff
    using processor_New_Inr [of sz gen now] by (auto simp: newStreamFormat_def bindR_Inr_iff)
  moreover have "(\<exists>s. newStream sz medias gen now n = Inr s) \<longleftrightarrow>
      (\<exists>sm. mapR (newStreamMedia sz gen now) medias = Inr sm)"
    by (simp add: newStream_def bindR_Inr_iff)
  ultimately show ?thesis by (auto simp: mapR_Inr_iff list_ex_iff)
qed

text \<open>
  A stream can be created unless RTP packets have to be generated for a format that has no
  processor of its own.
\<close>

theorem newStream_accepts:
  "(\<exists>s. newStream sz medias gen now n = Inr s) \<longleftrightarrow>
     \<not> (gen \<and> list_ex (\<lambda>m. list_ex (\<lambda>f. \<not> has_own_processor f) (md_Formats m)) medias)"
  by (rule newStream_Inr_iff)

section \<open>Packets on the RTSP side\<close>

definition lib_ok :: "rtplib \<Rightarrow> bool" where
  "lib_ok lib \<longleftrightarrow>
     (\<forall>cd \<in> {lib_h264 lib, lib_h265 lib, lib_av1 lib, lib_mpeg2audio lib, lib_mpeg4audio lib}.
        encoder_ok cd \<and> cd_MarshalSize cd = lib_MarshalSize lib) \<and>
     (\<forall>cd \<in> {lib_vp8 lib, lib_vp9 lib, lib_opus lib}. encoder_ok cd \<and> cd_MarshalSize cd = lib_MarshalSize lib)"

fun fits_any :: "int \<Rightarrow> any_processor \<Rightarrow> bool" where
  "fits_any m (PH264 t) = fits m t"
| "fits_any m (PH265 t) = fits m t"
| "fits_any m (PVP8 t) = fits m t"
| "fits_any m (PVP9 t) = fits m t"
| "fits_any m (PAV1 t) = fits m t"
| "fits_any m (PMPEG2Audio t) = fits m t"
| "fits_any m (PMPEG4Audio t) = fits m t"
| "fits_any m (POpus t) = fits m t"
| "fits_any m (PGeneric t) = (t = m)"

lemma processor_New_fits: "12 < sz \<Longrightarrow> processor_New sz gen now f = Inr p \<Longrightarrow> fits_any sz p"
  by (cases f)
    (auto simp: fits_def newH264_def newH265_def newVP8_def newVP9_def newAV1_def newMPEG2Audio_def
      newMPEG4Audio_def newOpus_def newGeneric_def new_processor_def new_encoder_def split: if_splits)

definition unit_ok :: "any_unit \<Rightarrow> bool" where
  "unit_ok u \<longleftrightarrow> length (unit_GetRTPPackets u) \<le> 1"

text \<open>One processor, from the contract of its format.\<close>

lemma asserted_fits:
  assumes "asserted tunit p w process t u = (r, (t', u'))" and "unit_ok u"
    and "Q t" and "\<And>t. fits_any m (p t) = Q t" "\<And>tu. unit_GetRTPPackets (w tu) = GetRTPPackets tu"
    and unit: "\<And>tu. tunit = Some tu \<Longrightarrow> u = w tu"
    and step: "\<And>tu r t' u'. one_packet tu \<Longrightarrow> process (t, tu) = (r, (t', u')) \<Longrightarrow>
      Q t' \<and> (r = Inr () \<longrightarrow> (\<forall>pkt \<in> set (GetRTPPackets u'). sz pkt \<le> m))"
  shows "fits_any m t' \<and> (r = Inr () \<longrightarrow> (\<forall>pkt \<in> set (unit_GetRTPPackets u'). sz pkt \<le> m))"
proof (cases tunit)
  case None
  with assms show ?thesis by (auto simp: asserted_def)
next
  case (Some tu)
  obtain r1 t1 u1 where q: "process (t, tu) = (r1, (t1, u1))" by (cases "process (t, tu)") auto
  have "one_packet tu" using unit [OF Some] assms(2,5) by (simp add: unit_ok_def one_packet_def)
  with step [OF this q] assms(1,4,5) Some q show ?thesis by (auto simp: asserted_def)
qed

lemma Generic_Process_fits:
  assumes "one_packet u" "Generic_Process sz m u = (r, u')"
  shows "r = Inr () \<longrightarrow> (\<forall>pkt \<in> set (GetRTPPackets u'). sz pkt \<le> m)"
  using assms
  by (auto simp: Generic_Process_def one_packet_def GetRTPPackets_def Let_def
      split: option.splits list.splits if_splits)

lemma unit_cases:
  "(case u of UnitH264 tu \<Rightarrow> Some tu | _ \<Rightarrow> None) = Some x0 \<Longrightarrow> u = UnitH264 x0"
  "(case u of UnitH265 tu \<Rightarrow> Some tu | _ \<Rightarrow> None) = Some x1 \<Longrightarrow> u = UnitH265 x1"
  "(case u of UnitVP8 tu \<Rightarrow> Some tu | _ \<Rightarrow> None) = Some x2 \<Longrightarrow> u = UnitVP8 x2"
  "(case u of UnitVP9 tu \<Rightarrow> Some tu | _ \<Rightarrow> None) = Some x3 \<Longrightarrow> u = UnitVP9 x3"
  "(case u of UnitAV1 tu \<Rightarrow> Some tu | _ \<Rightarrow> None) = Some x4 \<Longrightarrow> u = UnitAV1 x4"
  "(case u of UnitMPEG2Audio tu \<Rightarrow> Some tu | _ \<Rightarrow> None) = Some x5 \<Longrightarrow> u = UnitMPEG2Audio x5"
  "(case u of UnitMPEG4Audio tu \<Rightarrow> Some tu | _ \<Rightarrow> None) = Some x6 \<Longrightarrow> u = UnitMPEG4Audio x6"
  "(case u of UnitOpus tu \<Rightarrow> Some tu | _ \<Rightarrow> None) = Some x7 \<Longrightarrow> u = UnitOpus x7"
  "(case u of UnitGeneric tu \<Rightarrow> Some tu | _ \<Rightarrow> None) = Some x8 \<Longrightarrow> u = UnitGeneric x8"
  by (simp_all split: any_unit.splits)

lemma processor_Process_fits:
  assumes lib: "lib_ok lib" and p: "fits_any m p" and u: "unit_ok u"
    and run: "processor_Process lib n1 n2 b p u = (r, (p', u'))"
  shows "fits_any m p' \<and> (r = Inr () \<longrightarrow> (\<forall>pkt \<in> set (unit_GetRTPPackets u'). lib_MarshalSize lib pkt \<le> m))"
proof (cases p)
  case (PH264 t)
  have "encoder_ok (lib_h264 lib)" "cd_MarshalSize (lib_h264 lib) = lib_MarshalSize lib" "fits m t"
    using lib p PH264 by (simp_all add: lib_ok_def)
  note s = h264.step [OF this(1,3), where x = "(n1, n2, b)", unfolded packets_fit_def this(2) prod.case]
  show ?thesis
    by (rule asserted_fits [where Q = "fits m", OF run [unfolded PH264 processor_Process.simps] u \<open>fits m t\<close>])
      (simp, simp, erule unit_cases, erule (1) s)
next
  case (PH265 t)
  have "encoder_ok (lib_h265 lib)" "cd_MarshalSize (lib_h265 lib) = lib_MarshalSize lib" "fits m t"
    using lib p PH265 by (simp_all add: lib_ok_def)
  note s = h265.step [OF this(1,3), where x = "(n1, n2, b)", unfolded packets_fit_def this(2) prod.case]
  show ?thesis
    by (rule asserted_fits [where Q = "fits m", OF run [unfolded PH265 processor_Process.simps] u \<open>fits m t\<close>])
      (simp, simp, erule unit_cases, erule (1) s)
next
  case (PVP8 t)
  have "encoder_ok (lib_vp8 lib)" "cd_MarshalSize (lib_vp8 lib) = lib_MarshalSize lib" "fits m t"
    using lib p PVP8 by (simp_all add: lib_ok_def)
  note s = vp8.step [OF this(1,3), where x = b, unfolded packets_fit_def this(2) prod.case]
  show ?thesis
    by (rule asserted_fits [where Q = "fits m", OF run [unfolded PVP8 processor_Process.simps] u \<open>fits m t\<close>])
      (simp, simp, erule unit_cases, erule (1) s)
next
  case (PVP9 t)
  have "encoder_ok (lib_vp9 lib)" "cd_MarshalSize (lib_vp9 lib) = lib_MarshalSize lib" "fits m t"
    using lib p PVP9 by (simp_all add: lib_ok_def)
  note s = vp9.step [OF this(1,3), where x = b, unfolded packets_fit_def this(2) prod.case]
  show ?thesis
    by (rule asserted_fits [where Q = "fits m", OF run [unfolded PVP9 processor_Process.simps] u \<open>fits m t\<close>])
      (simp, simp, erule unit_cases, erule (1) s)
next
  case (PAV1 t)
  have "encoder_ok (lib_av1 lib)" "cd_MarshalSize (lib_av1 lib) = lib_MarshalSize lib" "fits m t"
    using lib p PAV1 by (simp_all add: lib_ok_def)
  note s = av1.step [OF this(1,3), where x = "(lib_ContainsKeyFrame lib, n1, n2, b)", unfolded packets_fit_def this(2) prod.case]
  show ?thesis
    by (rule asserted_fits [where Q = "fits m", OF run [unfolded PAV1 processor_Process.simps] u \<open>fits m t\<close>])
      (simp, simp, erule unit_cases, erule (1) s)
next
  case (PMPEG2Audio t)
  have "encoder_ok (lib_mpeg2audio lib)" "cd_MarshalSize (lib_mpeg2audio lib) = lib_MarshalSize lib" "fits m t"
    using lib p PMPEG2Audio by (simp_all add: lib_ok_def)
  note s = mpeg2audio.step [OF this(1,3), where x = b, unfolded packets_fit_def this(2) prod.case]
  show ?thesis
    by (rule asserted_fits [where Q = "fits m", OF run [unfolded PMPEG2Audio processor_Process.simps] u \<open>fits m t\<close>])
      (simp, simp, erule unit_cases, erule (1) s)
next
  case (PMPEG4Audio t)
  have "encoder_ok (lib_mpeg4audio lib)" "cd_MarshalSize (lib_mpeg4audio lib) = lib_MarshalSize lib" "fits m t"
    using lib p PMPEG4Audio by (simp_all add: lib_ok_def)
  note s = mpeg4audio.step [OF this(1,3), where x = b, unfolded packets_fit_def this(2) prod.case]
  show ?thesis
    by (rule asserted_fits [where Q = "fits m", OF run [unfolded PMPEG4Audio processor_Process.simps] u \<open>fits m t\<close>])
      (simp, simp, erule unit_cases, erule (1) s)
next
  case (POpus t)
  have "encoder_ok (lib_opus lib)" "cd_MarshalSize (lib_opus lib) = lib_MarshalSize lib" "fits m t"
    using lib p POpus by (simp_all add: lib_ok_def)
  note s = opus.step [OF this(1,3), where x = b, unfolded packets_fit_def this(2) prod.case]
  show ?thesis
    by (rule asserted_fits [where Q = "fits m", OF run [unfolded POpus processor_Process.simps] u \<open>fits m t\<close>])
      (simp, simp, erule unit_cases, erule (1) s)
next
  case (PGeneric t)
  then have t: "t = m" using p by simp
  show ?thesis
    by (rule asserted_fits [where Q = "\<lambda>t. t = m", OF run [unfolded PGeneric processor_Process.simps] u t])
      (simp, simp, erule unit_cases, use t in \<open>auto dest: Generic_Process_fits split: prod.splits\<close>)
qed

text \<open>The operations of a stream, and sequences of them.\<close>

datatype stream_op = ReaderAdd reader nat nat | ReaderRemove reader | WriteUnit int int nat nat any_unit

fun stream_step :: "rtplib \<Rightarrow> stream_op \<Rightarrow> stream \<Rightarrow> stream result" where
  "stream_step lib (ReaderAdd r i j) s = stream_readerAdd r i j s"
| "stream_step lib (ReaderRemove r) s = Inr (stream_readerRemove r s)"
| "stream_step lib (WriteUnit now1 now2 i j data) s = stream_writeUnit lib now1 now2 i j data s"

fun stream_run :: "rtplib \<Rightarrow> stream_op list \<Rightarrow> stream \<Rightarrow> stream result" where
  "stream_run lib [] s = Inr s"
| "stream_run lib (op # ops) s = bindR (stream_step lib op s) (stream_run lib ops)"

definition all_formats :: "(streamFormat \<Rightarrow> bool) \<Rightarrow> stream \<Rightarrow> bool" where
  "all_formats P s \<longleftrightarrow> (\<forall>sm \<in> set (st_smedias s). \<forall>sf \<in> set sm. P sf)"

lemma all_formats_at: "all_formats P s \<Longrightarrow> format_at s i j = Some sf \<Longrightarrow> P sf"
  by (auto simp: all_formats_def format_at_def split: if_splits) (meson nth_mem)

lemma all_formats_set: "all_formats P s \<Longrightarrow> P sf \<Longrightarrow> all_formats P (set_format s i j sf)"
proof -
  assume a: "all_formats P s" and sf: "P sf"
  have "\<forall>x \<in> set ((st_smedias s ! i)[j := sf]). P x" if "i < length (st_smedias s)"
    using a sf nth_mem [OF that] set_update_subset_insert [of "st_smedias s ! i" j sf]
    by (auto simp: all_formats_def)
  then show ?thesis
    using a set_update_subset_insert [of "st_smedias s" i "(st_smedias s ! i)[j := sf]"]
    by (cases "i < length (st_smedias s)") (auto simp: all_formats_def set_format_def list_update_beyond)
qed

lemma all_formats_update [simp]:
  "all_formats P (s\<lparr>st_bytesReceived := n, st_out := out\<rparr>) = all_formats P s"
  by (simp add: all_formats_def)

lemma all_formats_remove:
  "all_formats P s \<Longrightarrow> (\<And>sf. P sf \<Longrightarrow> Q (streamFormat_readerRemove r sf)) \<Longrightarrow> all_formats Q (stream_readerRemove r s)"
  by (auto simp: all_formats_def stream_readerRemove_def)

text \<open>What \<open>streamFormat.writeUnit\<close> does, by the outcome of the processor.\<close>

lemma writeUnit_format_cases:
  assumes "streamFormat_writeUnit lib now1 now2 i data sf = (None, sf', pkts, out)"
  obtains (error) err proc u where
      "processor_Process lib now1 now2 (sf_nonRTSPReaders sf \<noteq> []) (sf_proc sf) data = (Inl err, (proc, u))"
      "sf' = sf\<lparr>sf_proc := proc\<rparr>" "pkts = []" "out = [Warning err]"
    | (ok) proc u where
      "processor_Process lib now1 now2 (sf_nonRTSPReaders sf \<noteq> []) (sf_proc sf) data = (Inr (), (proc, u))"
      "sf' = sf\<lparr>sf_proc := proc\<rparr>" "pkts = unit_GetRTPPackets u"
      "out = map (WritePacketRTP i) pkts @ map (\<lambda>r. Callback r u) (sf_nonRTSPReaders sf)"
  using assms unfolding streamFormat_writeUnit_def
  by (cases "processor_Process lib now1 now2 (sf_nonRTSPReaders sf \<noteq> []) (sf_proc sf) data")
    (auto split: sum.splits prod.splits error.splits)

lemma stream_writeUnit_Inr:
  assumes "stream_writeUnit lib now1 now2 i j data s = Inr s'"
  obtains sf sf' pkts out where "format_at s i j = Some sf"
    "streamFormat_writeUnit lib now1 now2 i data sf = (None, sf', pkts, out)"
    "s' = (set_format s i j sf')
       \<lparr>st_bytesReceived := count_bytes (lib_MarshalSize lib) pkts (st_bytesReceived s), st_out := st_out s @ out\<rparr>"
  using assms
  by (auto simp: stream_writeUnit_def bindR_Inr_iff deref_def split: option.splits prod.splits)

definition packet_fits :: "rtplib \<Rightarrow> int \<Rightarrow> stream_out \<Rightarrow> bool" where
  "packet_fits lib m out = (case out of WritePacketRTP i pkt \<Rightarrow> lib_MarshalSize lib pkt \<le> m | _ \<Rightarrow> True)"

definition stream_fits :: "rtplib \<Rightarrow> int \<Rightarrow> stream \<Rightarrow> bool" where
  "stream_fits lib m s \<longleftrightarrow> all_formats (\<lambda>sf. fits_any m (sf_proc sf)) s \<and> list_all (packet_fits lib m) (st_out s)"

definition op_ok :: "stream_op \<Rightarrow> bool" where
  "op_ok op = (case op of WriteUnit now1 now2 i j data \<Rightarrow> unit_ok data | _ \<Rightarrow> True)"

lemma newStream_fits:
  assumes "newStream sz medias gen now n = Inr s" "12 < sz"
  shows "stream_fits lib sz s"
proof -
  have "fits_any sz (projr (processor_New sz gen now f))" if "m \<in> set medias" "f \<in> set (md_Formats m)" for m f
  proof -
    have "\<exists>p. processor_New sz gen now f = Inr p"
      using assms(1) that newStream_Inr_iff [of sz medias gen now n] processor_New_Inr [of sz gen now f]
      by (auto simp: list_ex_iff)
    then show ?thesis using processor_New_fits [OF assms(2)] by fastforce
  qed
  then show ?thesis using newStream_Inr [OF assms(1)] by (auto simp: stream_fits_def all_formats_def)
qed

lemma stream_step_fits:
  assumes "lib_ok lib" "op_ok op" "stream_fits lib m s" "stream_step lib op s = Inr s'"
  shows "stream_fits lib m s'"
proof (cases op)
  case (ReaderAdd r i j)
  with assms obtain sf where "format_at s i j = Some sf" "s' = set_format s i j (streamFormat_readerAdd r sf)"
    by (auto simp: stream_readerAdd_def bindR_Inr_iff deref_def split: option.splits)
  then show ?thesis
    using assms(3) all_formats_at [of "\<lambda>sf. fits_any m (sf_proc sf)" s i j sf]
      all_formats_set [of "\<lambda>sf. fits_any m (sf_proc sf)" s "streamFormat_readerAdd r sf" i j]
    by (auto simp: stream_fits_def streamFormat_readerAdd_def set_format_def)
next
  case (ReaderRemove r)
  with assms show ?thesis
    by (auto simp: stream_fits_def stream_readerRemove_def streamFormat_readerRemove_def all_formats_def)
next
  case (WriteUnit now1 now2 i j data)
  with assms(4) obtain sf sf' pkts out where f: "format_at s i j = Some sf"
      "streamFormat_writeUnit lib now1 now2 i data sf = (None, sf', pkts, out)"
    and s': "s' = (set_format s i j sf')
      \<lparr>st_bytesReceived := count_bytes (lib_MarshalSize lib) pkts (st_bytesReceived s), st_out := st_out s @ out\<rparr>"
    by (auto elim: stream_writeUnit_Inr)
  have fit: "fits_any m (sf_proc sf)" and u: "unit_ok data"
    using f assms(2,3) all_formats_at WriteUnit by (auto simp: stream_fits_def op_ok_def)
  have "fits_any m (sf_proc sf') \<and> list_all (packet_fits lib m) out"
    using f(2)
  proof (cases rule: writeUnit_format_cases)
    case (error err proc u)
    with processor_Process_fits [OF assms(1) fit u error(1)] show ?thesis by (simp add: packet_fits_def)
  next
    case (ok proc u)
    with processor_Process_fits [OF assms(1) fit \<open>unit_ok data\<close> ok(1)] show ?thesis
      by (auto simp: packet_fits_def list_all_iff)
  qed
  then show ?thesis
    using assms(3) s' all_formats_set [of "\<lambda>sf. fits_any m (sf_proc sf)" s sf' i j]
    by (simp add: stream_fits_def)
qed

lemma stream_run_fits:
  assumes "lib_ok lib" "list_all op_ok ops" "stream_fits lib m s" "stream_run lib ops s = Inr s'"
  shows "stream_fits lib m s'"
  using assms
proof (induction ops arbitrary: s)
  case (Cons op ops)
  then obtain s1 where "stream_step lib op s = Inr s1" "stream_run lib ops s1 = Inr s'"
    by (auto simp: bindR_Inr_iff)
  with Cons stream_step_fits show ?case by fastforce
qed simp

text \<open>
  C17. Whatever readers come and go and whatever units are written, every packet that a stream hands to
  the RTSP side is at most \<open>udpMaxPayloadSize\<close> bytes long, provided that this size leaves room for a
  payload after the header of 12 bytes, that the RTP encoders respect a positive payload size that they
  are given, and that the units that sources write carry at most one packet each.
\<close>

theorem stream_packets_fit:
  assumes "lib_ok lib" and "newStream udpMaxPayloadSize medias gen now n = Inr s" and "12 < udpMaxPayloadSize"
    and "list_all op_ok ops" and "stream_run lib ops s = Inr s'"
    and "WritePacketRTP i pkt \<in> set (st_out s')"
  shows "lib_MarshalSize lib pkt \<le> udpMaxPayloadSize"
  using stream_run_fits [OF assms(1,4) newStream_fits [OF assms(2,3)] assms(5)] assms(6)
  by (auto simp: stream_fits_def list_all_iff packet_fits_def)

text \<open>A library whose encoders put the beginning of a frame into one packet, for the examples.\<close>

definition plain_size :: "rtp_packet \<Rightarrow> int" where
  "plain_size pkt = 12 + int (length (pkt_Payload pkt))"

definition plain_codec :: "('a \<Rightarrow> byte list) \<Rightarrow> (byte list \<Rightarrow> 'a) \<Rightarrow> 'a codec" where
  "plain_codec enc dec =
     \<lparr>cd_MarshalSize = plain_size,
      cd_Encode = (\<lambda>p xs. if ep_PayloadMaxSize p < 0 then Inl ''invalid size''
        else Inr [sample_packet\<lparr>pkt_Payload := take (nat (ep_PayloadMaxSize p)) (enc (fst (last xs)))\<rparr>]),
      cd_Decode = (\<lambda>pkts. Inr (dec (pkt_Payload (last pkts)), 0))\<rparr>"

definition plain_rtplib :: rtplib where
  "plain_rtplib =
     \<lparr>lib_MarshalSize = plain_size, lib_h264 = plain_codec concat (\<lambda>b. [b]), lib_h265 = plain_codec concat (\<lambda>b. [b]),
      lib_vp8 = plain_codec id id, lib_vp9 = plain_codec id id, lib_av1 = plain_codec concat (\<lambda>b. [b]),
      lib_mpeg2audio = plain_codec concat (\<lambda>b. [b]), lib_mpeg4audio = plain_codec concat (\<lambda>b. [b]),
      lib_opus = plain_codec id id, lib_ContainsKeyFrame = (\<lambda>_. False)\<rparr>"

lemma plain_codec_ok: "encoder_ok (plain_codec enc dec)"
  by (auto simp: encoder_ok_def plain_codec_def plain_size_def split: if_splits)

lemma plain_rtplib_ok: "lib_ok plain_rtplib"
  by (auto simp: lib_ok_def plain_rtplib_def plain_codec_ok) (simp_all add: plain_codec_def)

definition sample_stream :: stream where
  "sample_stream =
     \<lparr>st_bytesReceived = 0, st_medias = [\<lparr>md_Formats = [VP8 96]\<rparr>],
      st_smedias = [[\<lparr>sf_proc = PVP8 (newVP8 15 96 True), sf_nonRTSPReaders = []\<rparr>]], st_out = [], st_closed = False\<rparr>"

definition sample_frame :: any_unit where
  "sample_frame = UnitVP8 \<lparr>u_RTPPackets = None, u_NTP = 0, u_PTS = 0, u_data = [1, 2, 3, 4]\<rparr>"

lemma sample_stream_new: "newStream 15 [\<lparr>md_Formats = [VP8 96]\<rparr>] True 0 0 = Inr sample_stream"
  by (simp add: newStream_def newStreamMedia_def newStreamFormat_def sample_stream_def)

lemma sample_stream_run:
  "\<exists>s. stream_run plain_rtplib [ReaderAdd 1 0 0, WriteUnit 0 0 0 0 sample_frame, ReaderRemove 1] sample_stream = Inr s \<and>
     st_out s = [WritePacketRTP 0 (sample_packet\<lparr>pkt_Payload := [1, 2, 3]\<rparr>),
       Callback 1 (UnitVP8 \<lparr>u_RTPPackets = Some [sample_packet\<lparr>pkt_Payload := [1, 2, 3]\<rparr>], u_NTP = 0, u_PTS = 0,
         u_data = [1, 2, 3, 4]\<rparr>)]"
  by (simp add: sample_stream_def stream_readerAdd_def format_at_def set_format_def streamFormat_readerAdd_def
      stream_writeUnit_def streamFormat_writeUnit_def sample_frame_def asserted_def VP8_Process_def
      simple_Process_def encode_unit_def newVP8_def new_processor_def new_encoder_def plain_rtplib_def
      plain_codec_def stream_readerRemove_def Let_def GetRTPPackets_def)

theorem stream_packets_fit_witness:
  "lib_ok plain_rtplib \<and> newStream 15 [\<lparr>md_Formats = [VP8 96]\<rparr>] True 0 0 = Inr sample_stream \<and>
   (\<exists>s pkt. stream_run plain_rtplib [ReaderAdd 1 0 0, WriteUnit 0 0 0 0 sample_frame, ReaderRemove 1] sample_stream = Inr s \<and>
      WritePacketRTP 0 pkt \<in> set (st_out s) \<and> pkt_Payload pkt = [1, 2, 3] \<and> lib_MarshalSize plain_rtplib pkt \<le> 15)"
proof -
  obtain s where s: "stream_run plain_rtplib [ReaderAdd 1 0 0, WriteUnit 0 0 0 0 sample_frame, ReaderRemove 1]
      sample_stream = Inr s" "WritePacketRTP 0 (sample_packet\<lparr>pkt_Payload := [1, 2, 3]\<rparr>) \<in> set (st_out s)"
    using sample_stream_run by auto
  have "list_all op_ok [ReaderAdd 1 0 0, WriteUnit 0 0 0 0 sample_frame, ReaderRemove 1]"
    by (simp add: op_ok_def unit_ok_def sample_frame_def GetRTPPackets_def)
  from stream_packets_fit [OF plain_rtplib_ok sample_stream_new _ this s] s plain_rtplib_ok sample_stream_new
  show ?thesis by (intro conjI exI) simp_all
qed

section \<open>Readers\<close>

definition callbacks :: "reader \<Rightarrow> stream \<Rightarrow> any_unit list" where
  "callbacks r s = List.map_filter (\<lambda>out. case out of Callback r' u \<Rightarrow> if r' = r then Some u else None | _ \<Rightarrow> None) (st_out s)"

definition absent :: "reader \<Rightarrow> stream \<Rightarrow> bool" where
  "absent r s \<longleftrightarrow> all_formats (\<lambda>sf. r \<notin> set (sf_nonRTSPReaders sf)) s"

fun adds :: "reader \<Rightarrow> stream_op \<Rightarrow> bool" where
  "adds r (ReaderAdd r' i j) = (r' = r)"
| "adds r op = False"

lemma callbacks_append:
  "callbacks r (s\<lparr>st_bytesReceived := n, st_out := st_out s0 @ out\<rparr>) =
     callbacks r s0 @ List.map_filter (\<lambda>out. case out of Callback r' u \<Rightarrow> if r' = r then Some u else None | _ \<Rightarrow> None) out"
  by (simp add: callbacks_def map_filter_def)

lemma stream_step_absent:
  assumes "absent r s" "\<not> adds r op" "stream_step lib op s = Inr s'"
  shows "absent r s' \<and> callbacks r s' = callbacks r s"
proof (cases op)
  case (ReaderAdd r' i j)
  with assms obtain sf where "format_at s i j = Some sf" "s' = set_format s i j (streamFormat_readerAdd r' sf)" "r' \<noteq> r"
    by (auto simp: stream_readerAdd_def bindR_Inr_iff deref_def split: option.splits)
  then show ?thesis
    using assms(1) all_formats_at [of "\<lambda>sf. r \<notin> set (sf_nonRTSPReaders sf)" s i j sf]
      all_formats_set [of "\<lambda>sf. r \<notin> set (sf_nonRTSPReaders sf)" s "streamFormat_readerAdd r' sf" i j]
    by (auto simp: absent_def streamFormat_readerAdd_def callbacks_def set_format_def)
next
  case (ReaderRemove r')
  with assms show ?thesis
    by (auto simp: absent_def callbacks_def stream_readerRemove_def streamFormat_readerRemove_def all_formats_def)
next
  case (WriteUnit now1 now2 i j data)
  with assms(3) obtain sf sf' pkts out where f: "format_at s i j = Some sf"
      "streamFormat_writeUnit lib now1 now2 i data sf = (None, sf', pkts, out)"
    and s': "s' = (set_format s i j sf')
      \<lparr>st_bytesReceived := count_bytes (lib_MarshalSize lib) pkts (st_bytesReceived s), st_out := st_out s @ out\<rparr>"
    by (auto elim: stream_writeUnit_Inr)
  have "r \<notin> set (sf_nonRTSPReaders sf)"
    using f(1) assms(1) all_formats_at unfolding absent_def by metis
  with f(2) have "r \<notin> set (sf_nonRTSPReaders sf') \<and>
      List.map_filter (\<lambda>out. case out of Callback r' u \<Rightarrow> if r' = r then Some u else None | _ \<Rightarrow> None) out = []"
    by (cases rule: writeUnit_format_cases) (auto simp: map_filter_def filter_empty_conv)
  then show ?thesis
    using assms(1) s' all_formats_set [of "\<lambda>sf. r \<notin> set (sf_nonRTSPReaders sf)" s sf' i j]
    by (simp add: absent_def callbacks_append)
qed

lemma stream_run_absent:
  assumes "absent r s" "\<not> list_ex (adds r) ops" "stream_run lib ops s = Inr s'"
  shows "callbacks r s' = callbacks r s"
  using assms
proof (induction ops arbitrary: s)
  case (Cons op ops)
  then obtain s1 where "stream_step lib op s = Inr s1" "stream_run lib ops s1 = Inr s'"
    by (auto simp: bindR_Inr_iff)
  with Cons stream_step_absent [of r s op lib s1] show ?case by auto
qed simp

text \<open>
  C18. Once a reader has been removed from a stream its callbacks are not called any more, unless it is
  added again.
\<close>

theorem removed_reader_gets_nothing:
  assumes "stream_run lib ops (stream_readerRemove r s) = Inr s'" and "\<not> list_ex (adds r) ops"
  shows "callbacks r s' = callbacks r s"
proof -
  have "absent r (stream_readerRemove r s)"
    by (auto simp: absent_def stream_readerRemove_def streamFormat_readerRemove_def all_formats_def)
  with stream_run_absent [OF this assms(2,1)] show ?thesis
    by (simp add: callbacks_def stream_readerRemove_def)
qed

theorem removed_reader_gets_nothing_witness:
  "\<exists>s. stream_run plain_rtplib [WriteUnit 0 0 0 0 sample_frame]
      (stream_readerRemove 1 (sample_stream\<lparr>st_smedias := map (map (streamFormat_readerAdd 1)) (st_smedias sample_stream)\<rparr>)) =
      Inr s \<and> callbacks 1 s = []"
proof -
  let ?s0 = "sample_stream\<lparr>st_smedias := map (map (streamFormat_readerAdd 1)) (st_smedias sample_stream)\<rparr>"
  have "\<exists>s. stream_run plain_rtplib [WriteUnit 0 0 0 0 sample_frame] (stream_readerRemove 1 ?s0) = Inr s"
    by (simp add: sample_stream_def stream_readerRemove_def streamFormat_readerRemove_def format_at_def
        streamFormat_readerAdd_def stream_writeUnit_def streamFormat_writeUnit_def sample_frame_def asserted_def
        VP8_Process_def simple_Process_def encode_unit_def newVP8_def new_processor_def new_encoder_def
        plain_rtplib_def plain_codec_def Let_def)
  moreover have "callbacks 1 ?s0 = []" by (simp add: sample_stream_def callbacks_def map_filter_def)
  ultimately show ?thesis using removed_reader_gets_nothing [of plain_rtplib _ 1 ?s0] by fastforce
qed

end
