(* ===== verification/PathConf.thy ===== *)
theory PathConf
  imports Complex_Main Mtx_Prelude "HOL-Library.Sublist" "HOL-Library.List_Lexorder" "HOL-Library.Char_ord"
begin

text \<open>
  The configuration of a path (\<open>internal/conf/path.go\<close>).  The struct is a chain of records that
  extend one another, in the order of its fields; \<open>checkAndFillMissing\<close> validates it and fills in
  the defaults.  A compiled regular expression is represented by its source text.  The functions of
  Go's library that parse text (\<open>regexp\<close>, \<open>net/url\<close>, \<open>net\<close>) and the URL parser of gortsplib are the
  fields of a record that the definitions take as a parameter; nothing is assumed of them, so the
  lemmas hold whatever they accept.  A \<open>float64\<close> of a configuration is finite and modelled as a
  rational number.
\<close>

section \<open>Libraries\<close>

record gourl =
  u_Scheme :: string
  u_User :: "(string \<times> string) option"

record golib =
  regexp_compiles :: "string \<Rightarrow> bool"
  regexp_submatch :: "string \<Rightarrow> string \<Rightarrow> string list option"
  gourl_Parse :: "string \<Rightarrow> gourl option"
  rtspurl_Parse_ok :: "string \<Rightarrow> bool"
  SplitHostPort :: "string \<Rightarrow> (string \<times> string) option"
  ParseIP :: "string \<Rightarrow> string option"
  ParseCIDR :: "string \<Rightarrow> string option"

abbreviation HasPrefix :: "string \<Rightarrow> string \<Rightarrow> bool" where
  "HasPrefix s p \<equiv> prefix p s"

section \<open>Path names\<close>

definition path_char :: "char \<Rightarrow> bool" where
  "path_char c \<longleftrightarrow>
     (let n = (of_char c :: nat) in
      48 \<le> n \<and> n \<le> 57 \<or> 97 \<le> n \<and> n \<le> 122 \<or> 65 \<le> n \<and> n \<le> 90) \<or>
     c \<in> set ''_-/.~''"

definition IsValidPathName :: "string \<Rightarrow> unit result" where
  "IsValidPathName name =
     (if name = '''' then Inl (Err ''cannot be empty'')
      else if hd name = CHR ''/'' then Inl (Err ''can't begin with a slash'')
      else if last name = CHR ''/'' then Inl (Err ''can't end with a slash'')
      else if \<not> list_all path_char name
      then Inl (Err ''can contain only alphanumeric characters, underscore, dot, tilde, minus or slash'')
      else Inr ())"

section \<open>The configuration of a path\<close>

datatype transport = TransportUDP | TransportUDPMulticast | TransportTCP

record PathConf_source =
  pc_Regexp :: "string option"
  pc_Source :: string
  pc_SourceProtocol :: "transport option"
  pc_SourceAnyPortEnable :: bool
  pc_SourceFingerprint :: string
  pc_SourceOnDemand :: bool
  pc_SourceOnDemandStartTimeout :: duration
  pc_SourceOnDemandCloseAfter :: duration
  pc_SourceRedirect :: string
  pc_DisablePublisherOverride :: bool
  pc_Fallback :: string

record PathConf_rpicamera = PathConf_source +
  pc_RPICameraCamID :: int
  pc_RPICameraWidth :: int
  pc_RPICameraHeight :: int
  pc_RPICameraHFlip :: bool
  pc_RPICameraVFlip :: bool
  pc_RPICameraBrightness :: rat
  pc_RPICameraContrast :: rat
  pc_RPICameraSaturation :: rat
  pc_RPICameraSharpness :: rat
  pc_RPICameraExposure :: string
  pc_RPICameraAWB :: string
  pc_RPICameraDenoise :: string
  pc_RPICameraShutter :: int
  pc_RPICameraMetering :: string
  pc_RPICameraGain :: rat
  pc_RPICameraEV :: rat

record PathConf_rpicamera2 = PathConf_rpicamera +
  pc_RPICameraROI :: string
  pc_RPICameraTuningFile :: string
  pc_RPICameraMode :: string
  pc_RPICameraFPS :: int
  pc_RPICameraIDRPeriod :: int
  pc_RPICameraBitrate :: int
  pc_RPICameraProfile :: string
  pc_RPICameraLevel :: string
  pc_RPICameraAfMode :: string
  pc_RPICameraAfRange :: string
  pc_RPICameraAfSpeed :: string
  pc_RPICameraLensPosition :: rat
  pc_RPICameraAfWindow :: string
  pc_RPICameraTextOverlayEnable :: bool
  pc_RPICameraTextOverlay :: string

record PathConf = PathConf_rpicamera2 +
  pc_PublishUser :: string
  pc_PublishPass :: string
  pc_PublishIPs :: "string list"
  pc_ReadUser :: string
  pc_ReadPass :: string
  pc_ReadIPs :: "string list"
  pc_RunOnInit :: string
  pc_RunOnInitRestart :: bool
  pc_RunOnDemand :: string
  pc_RunOnDemandRestart :: bool
  pc_RunOnDemandStartTimeout :: duration
  pc_RunOnDemandCloseAfter :: duration
  pc_RunOnReady :: string
  pc_RunOnReadyRestart :: bool
  pc_RunOnRead :: string
  pc_RunOnReadRestart :: bool

text \<open>The checks of the name; a name that starts with a tilde is a regular expression.\<close>

definition check_path_name :: "golib \<Rightarrow> string \<Rightarrow> PathConf \<Rightarrow> PathConf result" where
  "check_path_name lib name pconf =
     (if name = '''' \<or> hd name \<noteq> CHR ''~''
      then (case IsValidPathName name of
              Inl (Err e) \<Rightarrow> Inl (Err (''invalid path name '' @ quoted name @ '': '' @ e))
            | Inl e \<Rightarrow> Inl e
            | Inr _ \<Rightarrow> Inr pconf)
      else if regexp_compiles lib (tl name) then Inr (pconf\<lparr>pc_Regexp := Some (tl name)\<rparr>)
      else Inl (Err (''invalid regular expression: '' @ tl name)))"

definition check_url_user :: "gourl \<Rightarrow> unit result" where
  "check_url_user u =
     (case u_User u of
        None \<Rightarrow> Inr ()
      | Some (user, pass) \<Rightarrow>
          rejectR (user \<noteq> '''' \<and> pass = '''' \<or> user = '''' \<and> pass \<noteq> '''')
            ''username and password must be both provided'')"

definition no_regexp_source :: "PathConf \<Rightarrow> string \<Rightarrow> unit result" where
  "no_regexp_source pconf kind =
     rejectR (pc_Regexp pconf \<noteq> None)
       (''a path with a regular expression (or path '' @ quoted ''all'' @ '') cannot have '' @ kind @
        ''. use another path'')"

text \<open>The defaults of the Raspberry Pi camera.\<close>

definition fill_rpicamera :: "PathConf \<Rightarrow> PathConf" where
  "fill_rpicamera p =
     p\<lparr>pc_RPICameraWidth := dflt 1920 (pc_RPICameraWidth p),
       pc_RPICameraHeight := dflt 1080 (pc_RPICameraHeight p),
       pc_RPICameraContrast := dflt 1 (pc_RPICameraContrast p),
       pc_RPICameraSaturation := dflt 1 (pc_RPICameraSaturation p),
       pc_RPICameraSharpness := dflt 1 (pc_RPICameraSharpness p),
       pc_RPICameraFPS := dflt 30 (pc_RPICameraFPS p),
       pc_RPICameraIDRPeriod := dflt 60 (pc_RPICameraIDRPeriod p),
       pc_RPICameraBitrate := dflt 1000000 (pc_RPICameraBitrate p),
       pc_RPICameraProfile := dflts ''main'' (pc_RPICameraProfile p),
       pc_RPICameraLevel := dflts ''4.1'' (pc_RPICameraLevel p),
       pc_RPICameraTextOverlay := dflts ''%Y-%m-%d %H:%M:%S - MediaMTX'' (pc_RPICameraTextOverlay p)\<rparr>"

text \<open>
  The other paths of the configuration, as \<open>range conf.Paths\<close> visits them.  Different names belong
  to different structs, so the comparison of pointers is one of names.
\<close>

type_synonym path_confs = "(string \<times> PathConf option) list"

definition same_camera :: "path_confs \<Rightarrow> string \<Rightarrow> int \<Rightarrow> string option" where
  "same_camera paths name camID =
     map_option fst (List.find (\<lambda>(otherName, otherPath).
       otherName \<noteq> name \<and>
       (case otherPath of
          None \<Rightarrow> False
        | Some q \<Rightarrow> pc_Source q = ''rpiCamera'' \<and> pc_RPICameraCamID q = camID)) paths)"

text \<open>The switch over the source.\<close>

definition check_source :: "golib \<Rightarrow> path_confs \<Rightarrow> string \<Rightarrow> PathConf \<Rightarrow> unit result" where
  "check_source lib paths name pconf =
     (let src = pc_Source pconf in
      if src = ''publisher'' then Inr ()
      else if HasPrefix src ''rtsp://'' \<or> HasPrefix src ''rtsps://''
      then bindR (no_regexp_source pconf ''a RTSP source'') (\<lambda>_.
           rejectR (\<not> rtspurl_Parse_ok lib src) (quoted src @ '' is not a valid RTSP URL''))
      else if HasPrefix src ''rtmp://'' \<or> HasPrefix src ''rtmps://''
      then bindR (no_regexp_source pconf ''a RTMP source'') (\<lambda>_.
           case gourl_Parse lib src of
             None \<Rightarrow> Inl (Err (quoted src @ '' is not a valid RTMP URL''))
           | Some u \<Rightarrow> bindR (check_url_user u) (\<lambda>_. Inr ()))
      else if HasPrefix src ''http://'' \<or> HasPrefix src ''https://''
      then bindR (no_regexp_source pconf ''a HLS source'') (\<lambda>_.
           case gourl_Parse lib src of
             None \<Rightarrow> Inl (Err (quoted src @ '' is not a valid HLS URL''))
           | Some u \<Rightarrow>
               bindR (rejectR (u_Scheme u \<noteq> ''http'' \<and> u_Scheme u \<noteq> ''https'')
                       (quoted src @ '' is not a valid HLS URL'')) (\<lambda>_.
               bindR (check_url_user u) (\<lambda>_. Inr ())))
      else if HasPrefix src ''udp://''
      then bindR (no_regexp_source pconf ''a HLS source'') (\<lambda>_.
           case SplitHostPort lib (drop 6 src) of
             None \<Rightarrow> Inl (Err (quoted src @ '' is not a valid UDP URL''))
           | Some (host, _) \<Rightarrow>
               bindR (rejectR (ParseIP lib host = None) (quoted host @ '' is not a valid IP''))
                 (\<lambda>_. Inr ()))
      else if src = ''redirect''
      then bindR (rejectR (pc_SourceRedirect pconf = '''') ''source redirect must be filled'') (\<lambda>_.
           bindR (rejectR (\<not> rtspurl_Parse_ok lib (pc_SourceRedirect pconf))
                   (quoted (pc_SourceRedirect pconf) @ '' is not a valid RTSP URL''))
             (\<lambda>_. Inr ()))
      else if src = ''rpiCamera''
      then bindR (no_regexp_source pconf (quoted ''rpiCamera'' @ '' as source'')) (\<lambda>_.
           case same_camera paths name (pc_RPICameraCamID pconf) of
             Some otherName \<Rightarrow>
               Inl (Err (quoted ''rpiCamera'' @ '' with same camera ID '' @
                 show_int (pc_RPICameraCamID pconf) @ '' is used as source in two paths, '' @
                 quoted name @ '' and '' @ quoted otherName))
           | None \<Rightarrow> Inr ())
      else Inl (Err (''invalid source: '' @ quoted src)))"

text \<open>The case of the camera also fills in its defaults.\<close>

definition check_path_source ::
  "golib \<Rightarrow> path_confs \<Rightarrow> string \<Rightarrow> PathConf \<Rightarrow> PathConf result" where
  "check_path_source lib paths name pconf =
     bindR (check_source lib paths name pconf) (\<lambda>_.
       Inr (if pc_Source pconf = ''rpiCamera'' then fill_rpicamera pconf else pconf))"

text \<open>The checks of the credentials and of the commands.\<close>

definition half_filled :: "string \<Rightarrow> string \<Rightarrow> bool" where
  "half_filled user pass \<longleftrightarrow> user \<noteq> '''' \<and> pass = '''' \<or> user = '''' \<and> pass \<noteq> ''''"

definition check_path_auth :: "string \<Rightarrow> PathConf \<Rightarrow> unit result" where
  "check_path_auth externalAuthenticationURL p =
     bindR (rejectR (half_filled (pc_PublishUser p) (pc_PublishPass p))
       ''read username and password must be both filled'') (\<lambda>_.
     bindR (rejectR (pc_PublishUser p \<noteq> '''' \<and> pc_Source p \<noteq> ''publisher'')
       (quoted ''publishUser'' @ '' is useless when source is not '' @ quoted ''publisher'' @
        '', since the stream is not provided by a publisher, but by a fixed source'')) (\<lambda>_.
     bindR (rejectR (pc_PublishUser p \<noteq> '''' \<and> externalAuthenticationURL \<noteq> '''')
       (quoted ''publishUser'' @ '' can't be used with '' @ quoted ''externalAuthenticationURL'')) (\<lambda>_.
     bindR (rejectR (pc_PublishIPs p \<noteq> [] \<and> pc_Source p \<noteq> ''publisher'')
       (quoted ''publishIPs'' @ '' is useless when source is not '' @ quoted ''publisher'' @
        '', since the stream is not provided by a publisher, but by a fixed source'')) (\<lambda>_.
     bindR (rejectR (pc_PublishIPs p \<noteq> [] \<and> externalAuthenticationURL \<noteq> '''')
       (quoted ''publishIPs'' @ '' can't be used with '' @ quoted ''externalAuthenticationURL'')) (\<lambda>_.
     bindR (rejectR (half_filled (pc_ReadUser p) (pc_ReadPass p))
       ''read username and password must be both filled'') (\<lambda>_.
     bindR (rejectR (pc_ReadUser p \<noteq> '''' \<and> externalAuthenticationURL \<noteq> '''')
       (quoted ''readUser'' @ '' can't be used with '' @ quoted ''externalAuthenticationURL'')) (\<lambda>_.
     rejectR (pc_ReadIPs p \<noteq> [] \<and> externalAuthenticationURL \<noteq> '''')
       (quoted ''readIPs'' @ '' can't be used with '' @ quoted ''externalAuthenticationURL''))))))))"

definition check_fallback :: "golib \<Rightarrow> string \<Rightarrow> unit result" where
  "check_fallback lib fallback =
     (if fallback = '''' then Inr ()
      else if HasPrefix fallback ''/''
      then (case IsValidPathName (drop 1 fallback) of
              Inl (Err e) \<Rightarrow> Inl (Err (quoted fallback @ '': '' @ e))
            | Inl e \<Rightarrow> Inl e
            | Inr _ \<Rightarrow> Inr ())
      else rejectR (\<not> rtspurl_Parse_ok lib fallback) (quoted fallback @ '' is not a valid RTSP URL''))"

definition fill_source :: "PathConf \<Rightarrow> PathConf" where
  "fill_source p = p\<lparr>pc_Source := dflts ''publisher'' (pc_Source p)\<rparr>"

definition PathConf_checkAndFillMissing ::
  "golib \<Rightarrow> string \<Rightarrow> path_confs \<Rightarrow> string \<Rightarrow> PathConf \<Rightarrow> PathConf result" where
  "PathConf_checkAndFillMissing lib externalAuthenticationURL paths name pconf =
     bindR (check_path_name lib name pconf) (\<lambda>p.
     bindR (check_path_source lib paths name (fill_source p)) (\<lambda>p.
     bindR (rejectR (pc_SourceOnDemand p \<and> pc_Source p = ''publisher'')
       (quoted ''sourceOnDemand'' @ '' is useless when source is '' @ quoted ''publisher'')) (\<lambda>_.
     let p = p\<lparr>pc_SourceOnDemandStartTimeout := dflt (10 * second) (pc_SourceOnDemandStartTimeout p),
               pc_SourceOnDemandCloseAfter := dflt (10 * second) (pc_SourceOnDemandCloseAfter p)\<rparr> in
     bindR (check_fallback lib (pc_Fallback p)) (\<lambda>_.
     bindR (check_path_auth externalAuthenticationURL p) (\<lambda>_.
     bindR (rejectR (pc_RunOnInit p \<noteq> '''' \<and> pc_Regexp p \<noteq> None)
       (''a path with a regular expression does not support option '' @ quoted ''runOnInit'' @
        ''; use another path'')) (\<lambda>_.
     bindR (rejectR (pc_RunOnDemand p \<noteq> '''' \<and> pc_Source p \<noteq> ''publisher'')
       (quoted ''runOnDemand'' @ '' can be used only when source is '' @ quoted ''publisher'')) (\<lambda>_.
     Inr (p\<lparr>pc_RunOnDemandStartTimeout := dflt (10 * second) (pc_RunOnDemandStartTimeout p),
            pc_RunOnDemandCloseAfter := dflt (10 * second) (pc_RunOnDemandCloseAfter p)\<rparr>))))))))"

section \<open>Queries\<close>

definition HasStaticSource :: "PathConf \<Rightarrow> bool" where
  "HasStaticSource p \<longleftrightarrow>
     HasPrefix (pc_Source p) ''rtsp://'' \<or> HasPrefix (pc_Source p) ''rtsps://'' \<or>
     HasPrefix (pc_Source p) ''rtmp://'' \<or> HasPrefix (pc_Source p) ''rtmps://'' \<or>
     HasPrefix (pc_Source p) ''http://'' \<or> HasPrefix (pc_Source p) ''https://'' \<or>
     HasPrefix (pc_Source p) ''udp://'' \<or> pc_Source p = ''rpiCamera''"

definition HasOnDemandStaticSource :: "PathConf \<Rightarrow> bool" where
  "HasOnDemandStaticSource p \<longleftrightarrow> HasStaticSource p \<and> pc_SourceOnDemand p"

definition HasOnDemandPublisher :: "PathConf \<Rightarrow> bool" where
  "HasOnDemandPublisher p \<longleftrightarrow> pc_RunOnDemand p \<noteq> ''''"

text \<open>
  \<open>Equal\<close> compares all fields (\<open>reflect.DeepEqual\<close>).  \<open>Clone\<close> goes through JSON, which leaves out the
  regular expression (its tag is \<open>json:"-"\<close>), sorts the addresses (\<open>IPsOrCIDRs.MarshalJSON\<close>) and keeps
  the other fields.  An address or network is represented by its text.
\<close>

definition PathConf_Equal :: "PathConf \<Rightarrow> PathConf \<Rightarrow> bool" where
  "PathConf_Equal p q \<longleftrightarrow> p = q"

definition PathConf_Clone :: "PathConf \<Rightarrow> PathConf" where
  "PathConf_Clone p =
     p\<lparr>pc_Regexp := None, pc_PublishIPs := sort (pc_PublishIPs p), pc_ReadIPs := sort (pc_ReadIPs p)\<rparr>"

section \<open>What the checks ensure\<close>

definition pathconf_valid :: "PathConf \<Rightarrow> bool" where
  "pathconf_valid p \<longleftrightarrow>
     (pc_Source p = ''publisher'' \<or> pc_Source p = ''redirect'' \<or> HasStaticSource p) \<and>
     (HasStaticSource p \<longrightarrow> pc_Regexp p = None) \<and>
     (pc_SourceOnDemand p \<longrightarrow> pc_Source p \<noteq> ''publisher'') \<and>
     (HasOnDemandPublisher p \<longrightarrow> pc_Source p = ''publisher'') \<and>
     (pc_RunOnInit p \<noteq> '''' \<longrightarrow> pc_Regexp p = None) \<and>
     (pc_PublishUser p \<noteq> '''' \<or> pc_PublishIPs p \<noteq> [] \<longrightarrow> pc_Source p = ''publisher'') \<and>
     (pc_PublishUser p = '''' \<longleftrightarrow> pc_PublishPass p = '''') \<and>
     (pc_ReadUser p = '''' \<longleftrightarrow> pc_ReadPass p = '''') \<and>
     pc_SourceOnDemandStartTimeout p \<noteq> 0 \<and> pc_SourceOnDemandCloseAfter p \<noteq> 0 \<and>
     pc_RunOnDemandStartTimeout p \<noteq> 0 \<and> pc_RunOnDemandCloseAfter p \<noteq> 0"

lemma not_static [simp]:
  "pc_Source p = ''publisher'' \<Longrightarrow> \<not> HasStaticSource p"
  "pc_Source p = ''redirect'' \<Longrightarrow> \<not> HasStaticSource p"
  by (simp_all add: HasStaticSource_def)

lemma no_regexp_source_Inr [simp]: "no_regexp_source p kind = Inr u \<longleftrightarrow> pc_Regexp p = None"
  by (simp add: no_regexp_source_def)

lemma check_source_Inr:
  assumes "check_source lib paths name p = Inr ()"
  shows "pc_Source p = ''publisher'' \<or> pc_Source p = ''redirect'' \<or> HasStaticSource p \<and> pc_Regexp p = None"
  using assms
  by (auto simp: check_source_def Let_def bindR_Inr_iff HasStaticSource_def split: if_splits)

lemma check_path_source_Inr:
  assumes "check_path_source lib paths name p = Inr p'"
  shows "check_source lib paths name p = Inr ()"
    and "p' = (if pc_Source p = ''rpiCamera'' then fill_rpicamera p else p)"
  using assms by (auto simp: check_path_source_def bindR_Inr_iff)

lemma fill_rpicamera_simps [simp]:
  "pc_Source (fill_rpicamera p) = pc_Source p" "pc_Regexp (fill_rpicamera p) = pc_Regexp p"
  "fill_rpicamera (fill_rpicamera p) = fill_rpicamera p"
  by (simp_all add: fill_rpicamera_def)

lemma fill_rpicamera_timeouts:
  "fill_rpicamera (p\<lparr>pc_SourceOnDemandStartTimeout := a, pc_SourceOnDemandCloseAfter := b,
     pc_RunOnDemandStartTimeout := c, pc_RunOnDemandCloseAfter := d\<rparr>) =
   (fill_rpicamera p)\<lparr>pc_SourceOnDemandStartTimeout := a, pc_SourceOnDemandCloseAfter := b,
     pc_RunOnDemandStartTimeout := c, pc_RunOnDemandCloseAfter := d\<rparr>"
  by (cases p) (simp add: fill_rpicamera_def)

lemma check_source_cong:
  "pc_Source q = pc_Source p \<Longrightarrow> pc_Regexp q = pc_Regexp p \<Longrightarrow> pc_SourceRedirect q = pc_SourceRedirect p \<Longrightarrow>
   pc_RPICameraCamID q = pc_RPICameraCamID p \<Longrightarrow> check_source lib paths name q = check_source lib paths name p"
  by (simp add: check_source_def Let_def no_regexp_source_def cong: option.case_cong)

lemma check_path_name_Inr:
  assumes "check_path_name lib name p = Inr p'"
  shows "p' = p\<lparr>pc_Regexp := pc_Regexp p'\<rparr> \<and> (pc_Regexp p' = pc_Regexp p \<or> pc_Regexp p' \<noteq> None) \<and>
    (\<forall>q. pc_Regexp q = pc_Regexp p' \<longrightarrow> check_path_name lib name q = Inr q)"
  using assms
  by (auto simp: check_path_name_def split: if_splits sum.splits error.splits)

lemma check_path_auth_Inr:
  assumes "check_path_auth ext p = Inr ()"
  shows "(pc_PublishUser p = '''' \<longleftrightarrow> pc_PublishPass p = '''') \<and> (pc_ReadUser p = '''' \<longleftrightarrow> pc_ReadPass p = '''') \<and>
    (pc_PublishUser p \<noteq> '''' \<or> pc_PublishIPs p \<noteq> [] \<longrightarrow> pc_Source p = ''publisher'') \<and>
    (ext \<noteq> '''' \<longrightarrow> pc_PublishUser p = '''' \<and> pc_PublishIPs p = [] \<and> pc_ReadUser p = '''' \<and> pc_ReadIPs p = [])"
  using assms by (auto simp: check_path_auth_def bindR_Inr_iff half_filled_def)

lemma check_path_auth_cong:
  "pc_PublishUser q = pc_PublishUser p \<Longrightarrow> pc_PublishPass q = pc_PublishPass p \<Longrightarrow>
   pc_PublishIPs q = pc_PublishIPs p \<Longrightarrow> pc_ReadUser q = pc_ReadUser p \<Longrightarrow> pc_ReadPass q = pc_ReadPass p \<Longrightarrow>
   pc_ReadIPs q = pc_ReadIPs p \<Longrightarrow> pc_Source q = pc_Source p \<Longrightarrow> check_path_auth ext q = check_path_auth ext p"
  by (simp add: check_path_auth_def)

text \<open>The steps of a successful check.\<close>

lemma checkAndFillMissing_steps:
  assumes "PathConf_checkAndFillMissing lib ext paths name p = Inr p'"
  obtains p1 p2 where "check_path_name lib name p = Inr p1"
    "check_path_source lib paths name (fill_source p1) = Inr p2"
    "\<not> (pc_SourceOnDemand p2 \<and> pc_Source p2 = ''publisher'')"
    "check_fallback lib (pc_Fallback p2) = Inr ()" "check_path_auth ext p2 = Inr ()"
    "\<not> (pc_RunOnInit p2 \<noteq> '''' \<and> pc_Regexp p2 \<noteq> None)"
    "\<not> (pc_RunOnDemand p2 \<noteq> '''' \<and> pc_Source p2 \<noteq> ''publisher'')"
    "p' = p2\<lparr>pc_SourceOnDemandStartTimeout := dflt (10 * second) (pc_SourceOnDemandStartTimeout p2),
             pc_SourceOnDemandCloseAfter := dflt (10 * second) (pc_SourceOnDemandCloseAfter p2),
             pc_RunOnDemandStartTimeout := dflt (10 * second) (pc_RunOnDemandStartTimeout p2),
             pc_RunOnDemandCloseAfter := dflt (10 * second) (pc_RunOnDemandCloseAfter p2)\<rparr>"
proof -
  have cong: "check_path_auth ext (q\<lparr>pc_SourceOnDemandStartTimeout := a, pc_SourceOnDemandCloseAfter := b\<rparr>) =
      check_path_auth ext q" for q a b
    by (rule check_path_auth_cong) simp_all
  from assms that show thesis
    by (auto simp: PathConf_checkAndFillMissing_def bindR_Inr_iff Let_def cong)
qed

lemma second_nonzero [simp]: "second \<noteq> 0"
  by (simp add: second_def)

lemma checkAndFillMissing_valid:
  assumes "PathConf_checkAndFillMissing lib ext paths name p = Inr p'"
  shows "pathconf_valid p'"
  using assms
proof (rule checkAndFillMissing_steps)
  fix p1 p2
  assume src: "check_path_source lib paths name (fill_source p1) = Inr p2"
    and auth: "check_path_auth ext p2 = Inr ()"
    and rest: "\<not> (pc_SourceOnDemand p2 \<and> pc_Source p2 = ''publisher'')"
      "\<not> (pc_RunOnInit p2 \<noteq> '''' \<and> pc_Regexp p2 \<noteq> None)"
      "\<not> (pc_RunOnDemand p2 \<noteq> '''' \<and> pc_Source p2 \<noteq> ''publisher'')"
      "p' = p2\<lparr>pc_SourceOnDemandStartTimeout := dflt (10 * second) (pc_SourceOnDemandStartTimeout p2),
             pc_SourceOnDemandCloseAfter := dflt (10 * second) (pc_SourceOnDemandCloseAfter p2),
             pc_RunOnDemandStartTimeout := dflt (10 * second) (pc_RunOnDemandStartTimeout p2),
             pc_RunOnDemandCloseAfter := dflt (10 * second) (pc_RunOnDemandCloseAfter p2)\<rparr>"
  have s: "pc_Source p2 = ''publisher'' \<or> pc_Source p2 = ''redirect'' \<or>
      HasStaticSource p2 \<and> pc_Regexp p2 = None"
    using check_source_Inr [OF check_path_source_Inr(1) [OF src]] check_path_source_Inr(2) [OF src]
    by (auto simp: HasStaticSource_def)
  have h: "HasStaticSource p' = HasStaticSource p2" using rest(4) by (simp add: HasStaticSource_def)
  show ?thesis
    using s h rest check_path_auth_Inr [OF auth]
    by (auto simp: pathconf_valid_def HasOnDemandPublisher_def)
qed

lemma checkAndFillMissing_idem:
  assumes "PathConf_checkAndFillMissing lib ext paths name p = Inr p'"
  shows "PathConf_checkAndFillMissing lib ext paths name p' = Inr p'"
  using assms
proof (rule checkAndFillMissing_steps)
  fix p1 p2
  assume name: "check_path_name lib name p = Inr p1"
    and src: "check_path_source lib paths name (fill_source p1) = Inr p2"
    and fallback: "check_fallback lib (pc_Fallback p2) = Inr ()"
    and auth: "check_path_auth ext p2 = Inr ()"
    and rest: "\<not> (pc_SourceOnDemand p2 \<and> pc_Source p2 = ''publisher'')"
      "\<not> (pc_RunOnInit p2 \<noteq> '''' \<and> pc_Regexp p2 \<noteq> None)"
      "\<not> (pc_RunOnDemand p2 \<noteq> '''' \<and> pc_Source p2 \<noteq> ''publisher'')"
      "p' = p2\<lparr>pc_SourceOnDemandStartTimeout := dflt (10 * second) (pc_SourceOnDemandStartTimeout p2),
             pc_SourceOnDemandCloseAfter := dflt (10 * second) (pc_SourceOnDemandCloseAfter p2),
             pc_RunOnDemandStartTimeout := dflt (10 * second) (pc_RunOnDemandStartTimeout p2),
             pc_RunOnDemandCloseAfter := dflt (10 * second) (pc_RunOnDemandCloseAfter p2)\<rparr>"
  note p2 = check_path_source_Inr(2) [OF src]
  have same: "pc_Source p' = pc_Source (fill_source p1)" "pc_Regexp p' = pc_Regexp p1"
      "pc_Regexp p1 = pc_Regexp (fill_source p1)"
      "pc_SourceRedirect p' = pc_SourceRedirect (fill_source p1)"
      "pc_RPICameraCamID p' = pc_RPICameraCamID (fill_source p1)"
    using p2 rest(4) by (simp_all add: fill_source_def fill_rpicamera_def)
  have "fill_rpicamera p' = p'" if "pc_Source p' = ''rpiCamera''"
    using that p2 same(1) rest(4) fill_rpicamera_timeouts by simp
  moreover have "check_source lib paths name p' = Inr ()"
    using check_path_source_Inr(1) [OF src] check_source_cong [of p' "fill_source p1"] same by simp
  ultimately have c: "check_path_source lib paths name p' = Inr p'"
    by (simp add: check_path_source_def)
  have f: "fill_source p' = p'" using same(1) by (simp add: fill_source_def)
  have n: "check_path_name lib name p' = Inr p'" using check_path_name_Inr [OF name] same(2) by blast
  have a: "check_path_auth ext p' = Inr ()" using auth rest(4) by (simp add: check_path_auth_def)
  have b: "check_fallback lib (pc_Fallback p') = Inr ()" using fallback rest(4) by simp
  have t: "p'\<lparr>pc_SourceOnDemandStartTimeout := dflt (10 * second) (pc_SourceOnDemandStartTimeout p'),
      pc_SourceOnDemandCloseAfter := dflt (10 * second) (pc_SourceOnDemandCloseAfter p')\<rparr> = p'"
    "p'\<lparr>pc_RunOnDemandStartTimeout := dflt (10 * second) (pc_RunOnDemandStartTimeout p'),
      pc_RunOnDemandCloseAfter := dflt (10 * second) (pc_RunOnDemandCloseAfter p')\<rparr> = p'"
    using rest(4) by simp_all
  have g: "\<not> (pc_SourceOnDemand p' \<and> pc_Source p' = ''publisher'')"
    "\<not> (pc_RunOnInit p' \<noteq> '''' \<and> pc_Regexp p' \<noteq> None)"
    "\<not> (pc_RunOnDemand p' \<noteq> '''' \<and> pc_Source p' \<noteq> ''publisher'')"
    using rest by simp_all
  show ?thesis
    using g by (simp add: PathConf_checkAndFillMissing_def bindR_Inr_iff n f c a b t Let_def)
qed

end
