(* ===== verification/Path.thy ===== *)
theory Path
  imports Stream PathConf "HOL-Library.Monad_Syntax"
begin

text \<open>
  A path (\<open>internal/core/path.go\<close>) with the state of its source (\<open>source.go\<close>, \<open>start\<close> and \<open>stop\<close> of
  \<open>source_static.go\<close>).  The goroutine \<open>run\<close> is a loop around a \<open>select\<close>; the model is the function that
  handles one case of the \<open>select\<close>, over the events \<open>path_event\<close>.  What the goroutine sends to others
  (answers to requests, calls to its parent, to publishers, readers, the source and to external
  commands) is appended to \<open>pa_out\<close> in the order of the code.

  Operations that may panic (a type assertion, \<open>panic("should not happen")\<close>) return an option; \<open>None\<close>
  is the panic.  A timer is \<open>None\<close> when it cannot fire (\<open>newEmptyTimer\<close>, or it has fired) and otherwise
  carries the duration it was started with.  The iteration over the map of readers, which Go leaves
  unordered, follows the order in which they were added.
\<close>

section \<open>State\<close>

datatype pathOnDemandState =
  pathOnDemandStateInitial | pathOnDemandStateWaitingReady | pathOnDemandStateReady | pathOnDemandStateClosing

text \<open>A source: a static one with its field \<open>running\<close>, a redirect or a publisher.\<close>

type_synonym publisher = nat

datatype source = SourceStatic bool | SourceRedirect | SourcePublisher publisher

datatype path_error = pathErrNoOnePublishing string | PathError string | StreamError error

type_synonym 'a path_result = "path_error + 'a"

text \<open>Requests are identified by numbers, which stand for the channels they are answered on.\<close>

type_synonym req_id = nat

record req_url =
  ru_Scheme :: string
  ru_User :: "(string \<times> string) option"
  ru_Host :: string

record describe_req =
  dr_id :: req_id
  dr_url :: req_url

record readerAdd_req =
  ra_id :: req_id
  ra_author :: reader

datatype describe_ok = DescribeStream stream | DescribeRedirect string

datatype cmd = OnInitCmd | OnDemandCmd | OnReadyCmd

record path_item =
  it_ConfName :: string
  it_Conf :: PathConf
  it_Source :: "source option"
  it_SourceReady :: bool
  it_Tracks :: "string list"
  it_BytesReceived :: u64
  it_Readers :: "reader list"

datatype path_out =
    DescribeRes req_id "describe_ok path_result"
  | ReaderAddRes req_id "stream path_result"
  | PublisherAddRes req_id "unit path_result"
  | PublisherStartRes req_id "stream path_result"
  | SetReadyRes "stream path_result" | SetNotReadyRes
  | Done req_id
  | APIItem req_id path_item
  | ParentSourceReady | ParentSourceNotReady | ParentPathClose
  | ReaderClose reader | PublisherClose publisher | StreamClose
  | SourceStart | SourceStop | SourceReload PathConf
  | CmdStart cmd string bool "(string \<times> string) list" | CmdClose cmd

record path =
  pa_rtspAddress :: string
  pa_udpMaxPayloadSize :: int
  pa_confName :: string
  pa_conf :: PathConf
  pa_name :: string
  pa_matches :: "string list"
  pa_source :: "source option"
  pa_bytesReceived :: u64
  pa_stream :: "stream option"
  pa_readers :: "reader list"
  pa_describeRequestsOnHold :: "describe_req list"
  pa_readerAddRequestsOnHold :: "readerAdd_req list"
  pa_onInitCmd :: bool
  pa_onDemandCmd :: bool
  pa_onReadyCmd :: bool
  pa_onDemandStaticSourceState :: pathOnDemandState
  pa_onDemandStaticSourceReadyTimer :: "duration option"
  pa_onDemandStaticSourceCloseTimer :: "duration option"
  pa_onDemandPublisherState :: pathOnDemandState
  pa_onDemandPublisherReadyTimer :: "duration option"
  pa_onDemandPublisherCloseTimer :: "duration option"
  pa_out :: "path_out list"

text \<open>Library functions beyond those of the configuration.\<close>

record pathlib = golib +
  url_String :: "req_url \<Rightarrow> string \<Rightarrow> string"
  format_String :: "format \<Rightarrow> string"

definition newPath :: "string \<Rightarrow> int \<Rightarrow> string \<Rightarrow> PathConf \<Rightarrow> string \<Rightarrow> string list \<Rightarrow> path" where
  "newPath rtspAddress udpMaxPayloadSize confName cnf name matches =
     \<lparr>pa_rtspAddress = rtspAddress, pa_udpMaxPayloadSize = udpMaxPayloadSize, pa_confName = confName,
      pa_conf = cnf, pa_name = name, pa_matches = matches, pa_source = None, pa_bytesReceived = 0,
      pa_stream = None, pa_readers = [], pa_describeRequestsOnHold = [], pa_readerAddRequestsOnHold = [],
      pa_onInitCmd = False, pa_onDemandCmd = False, pa_onReadyCmd = False,
      pa_onDemandStaticSourceState = pathOnDemandStateInitial,
      pa_onDemandStaticSourceReadyTimer = None, pa_onDemandStaticSourceCloseTimer = None,
      pa_onDemandPublisherState = pathOnDemandStateInitial,
      pa_onDemandPublisherReadyTimer = None, pa_onDemandPublisherCloseTimer = None, pa_out = []\<rparr>"

definition emit :: "path_out \<Rightarrow> path \<Rightarrow> path" where
  "emit out pa = pa\<lparr>pa_out := pa_out pa @ [out]\<rparr>"

section \<open>Descriptions\<close>

fun Join :: "string list \<Rightarrow> string \<Rightarrow> string" where
  "Join [] sep = ''''"
| "Join [s] sep = s"
| "Join (s # ss) sep = s @ sep @ Join ss sep"

definition mediaDescription :: "pathlib \<Rightarrow> media \<Rightarrow> string" where
  "mediaDescription lib medi = Join (map (format_String lib) (md_Formats medi)) ''/''"

definition mediasDescription :: "pathlib \<Rightarrow> media list \<Rightarrow> string list" where
  "mediasDescription lib medias = map (mediaDescription lib) medias"

definition sourceMediaInfo :: "pathlib \<Rightarrow> media list \<Rightarrow> string" where
  "sourceMediaInfo lib medias =
     show_nat (length medias) @ '' '' @ (if length medias = 1 then ''track'' else ''tracks'') @ '' ('' @
     Join (mediasDescription lib medias) '', '' @ '')''"

definition externalCmdEnv :: "pathlib \<Rightarrow> path \<Rightarrow> (string \<times> string) list" where
  "externalCmdEnv lib pa =
     [(''RTSP_PATH'', pa_name pa),
      (''RTSP_PORT'', case SplitHostPort lib (pa_rtspAddress pa) of None \<Rightarrow> '''' | Some (_, port) \<Rightarrow> port)] @
     map (\<lambda>(i, ma). (''G'' @ show_nat (i + 1), ma)) (enumerate 0 (tl (pa_matches pa)))"

definition shouldClose :: "path \<Rightarrow> bool" where
  "shouldClose pa \<longleftrightarrow>
     pc_Regexp (pa_conf pa) \<noteq> None \<and> pa_source pa = None \<and> pa_readers pa = [] \<and>
     pa_describeRequestsOnHold pa = [] \<and> pa_readerAddRequestsOnHold pa = []"

section \<open>The source\<close>

text \<open>\<open>pa.source.(*sourceStatic).start()\<close> and \<open>.stop()\<close>: the assertion, and the panic of \<open>sourceStatic\<close>.\<close>

definition sourceStatic_start :: "path \<Rightarrow> path option" where
  "sourceStatic_start pa =
     (case pa_source pa of
        Some (SourceStatic running) \<Rightarrow>
          if running then None else Some (emit SourceStart (pa\<lparr>pa_source := Some (SourceStatic True)\<rparr>))
      | _ \<Rightarrow> None)"

definition sourceStatic_stop :: "path \<Rightarrow> path option" where
  "sourceStatic_stop pa =
     (case pa_source pa of
        Some (SourceStatic running) \<Rightarrow>
          if running then Some (emit SourceStop (pa\<lparr>pa_source := Some (SourceStatic False)\<rparr>)) else None
      | _ \<Rightarrow> None)"

definition onDemandStaticSourceStart :: "path \<Rightarrow> path option" where
  "onDemandStaticSourceStart pa = do {
     pa \<leftarrow> sourceStatic_start pa;
     Some (pa\<lparr>pa_onDemandStaticSourceReadyTimer := Some (pc_SourceOnDemandStartTimeout (pa_conf pa)),
              pa_onDemandStaticSourceState := pathOnDemandStateWaitingReady\<rparr>)
   }"

definition onDemandStaticSourceScheduleClose :: "path \<Rightarrow> path" where
  "onDemandStaticSourceScheduleClose pa =
     pa\<lparr>pa_onDemandStaticSourceCloseTimer := Some (pc_SourceOnDemandCloseAfter (pa_conf pa)),
        pa_onDemandStaticSourceState := pathOnDemandStateClosing\<rparr>"

definition onDemandStaticSourceStop :: "path \<Rightarrow> path option" where
  "onDemandStaticSourceStop pa =
     (let pa = (if pa_onDemandStaticSourceState pa = pathOnDemandStateClosing
                then pa\<lparr>pa_onDemandStaticSourceCloseTimer := None\<rparr> else pa) in
      sourceStatic_stop (pa\<lparr>pa_onDemandStaticSourceState := pathOnDemandStateInitial\<rparr>))"

definition onDemandPublisherStart :: "pathlib \<Rightarrow> path \<Rightarrow> path" where
  "onDemandPublisherStart lib pa =
     (emit (CmdStart OnDemandCmd (pc_RunOnDemand (pa_conf pa)) (pc_RunOnDemandRestart (pa_conf pa))
             (externalCmdEnv lib pa)) pa)
     \<lparr>pa_onDemandCmd := True,
      pa_onDemandPublisherReadyTimer := Some (pc_RunOnDemandStartTimeout (pa_conf pa)),
      pa_onDemandPublisherState := pathOnDemandStateWaitingReady\<rparr>"

definition onDemandPublisherScheduleClose :: "path \<Rightarrow> path" where
  "onDemandPublisherScheduleClose pa =
     pa\<lparr>pa_onDemandPublisherCloseTimer := Some (pc_RunOnDemandCloseAfter (pa_conf pa)),
        pa_onDemandPublisherState := pathOnDemandStateClosing\<rparr>"

definition sourceSetReady :: "pathlib \<Rightarrow> int \<Rightarrow> media list \<Rightarrow> bool \<Rightarrow> path \<Rightarrow> (error + path)" where
  "sourceSetReady lib now medias allocateEncoder pa =
     (case newStream (pa_udpMaxPayloadSize pa) medias allocateEncoder now (pa_bytesReceived pa) of
        Inl err \<Rightarrow> Inl err
      | Inr stream \<Rightarrow>
          let pa = pa\<lparr>pa_stream := Some stream\<rparr>;
              pa = (if pc_RunOnReady (pa_conf pa) \<noteq> ''''
                    then (emit (CmdStart OnReadyCmd (pc_RunOnReady (pa_conf pa)) (pc_RunOnReadyRestart (pa_conf pa))
                            (externalCmdEnv lib pa)) pa)\<lparr>pa_onReadyCmd := True\<rparr>
                    else pa) in
          Inr (emit ParentSourceReady pa))"

definition doReaderRemove :: "reader \<Rightarrow> path \<Rightarrow> path" where
  "doReaderRemove r pa = pa\<lparr>pa_readers := removeAll r (pa_readers pa)\<rparr>"

definition sourceSetNotReady :: "path \<Rightarrow> path" where
  "sourceSetNotReady pa =
     (let pa = emit ParentSourceNotReady pa;
          pa = fold (\<lambda>r pa. emit (ReaderClose r) (doReaderRemove r pa)) (pa_readers pa) pa;
          pa = (if pa_onReadyCmd pa then (emit (CmdClose OnReadyCmd) pa)\<lparr>pa_onReadyCmd := False\<rparr> else pa) in
      if pa_stream pa \<noteq> None then (emit StreamClose pa)\<lparr>pa_stream := None\<rparr> else pa)"

text \<open>
  \<open>onDemandPublisherStop\<close> and \<open>doPublisherRemove\<close> call each other.  The former resets the state first,
  so that the latter does not call back.
\<close>

function onDemandPublisherStop :: "path \<Rightarrow> path option" and doPublisherRemove :: "path \<Rightarrow> path option" where
  "onDemandPublisherStop pa =
     (let pa = (if pa_onDemandPublisherState pa = pathOnDemandStateClosing
                then pa\<lparr>pa_onDemandPublisherCloseTimer := None\<rparr> else pa);
          pa = pa\<lparr>pa_onDemandPublisherState := pathOnDemandStateInitial\<rparr> in
      do {
        pa \<leftarrow> (case pa_source pa of
                 None \<Rightarrow> Some pa
               | Some (SourcePublisher p) \<Rightarrow> doPublisherRemove (emit (PublisherClose p) pa)
               | _ \<Rightarrow> None);
        Some (if pa_onDemandCmd pa then (emit (CmdClose OnDemandCmd) pa)\<lparr>pa_onDemandCmd := False\<rparr> else pa)
      })"
| "doPublisherRemove pa = do {
     pa \<leftarrow> (if pa_stream pa \<noteq> None
           then if HasOnDemandPublisher (pa_conf pa) \<and> pa_onDemandPublisherState pa \<noteq> pathOnDemandStateInitial
                then onDemandPublisherStop pa
                else Some (sourceSetNotReady pa)
           else Some pa);
     Some (pa\<lparr>pa_source := None\<rparr>)
   }"
  by pat_completeness auto
termination
  by (relation "measure (\<lambda>call. case call of
        Inl pa \<Rightarrow> if pa_onDemandPublisherState pa = pathOnDemandStateInitial then 1 else 3
      | Inr pa \<Rightarrow> if pa_onDemandPublisherState pa = pathOnDemandStateInitial then 0 else 4)")
    (auto simp: emit_def)

declare onDemandPublisherStop.simps [simp del] doPublisherRemove.simps [simp del]

section \<open>Requests\<close>

text \<open>A reader keeps an on-demand source open.\<close>

definition keep_open :: "path \<Rightarrow> path" where
  "keep_open pa =
     (if HasOnDemandStaticSource (pa_conf pa)
      then if pa_onDemandStaticSourceState pa = pathOnDemandStateClosing
           then pa\<lparr>pa_onDemandStaticSourceState := pathOnDemandStateReady,
                   pa_onDemandStaticSourceCloseTimer := None\<rparr>
           else pa
      else if HasOnDemandPublisher (pa_conf pa)
      then if pa_onDemandPublisherState pa = pathOnDemandStateClosing
           then pa\<lparr>pa_onDemandPublisherState := pathOnDemandStateReady,
                   pa_onDemandPublisherCloseTimer := None\<rparr>
           else pa
      else pa)"

definition handleReaderAddPost :: "readerAdd_req \<Rightarrow> path \<Rightarrow> path option" where
  "handleReaderAddPost req pa =
     (let pa = keep_open (pa\<lparr>pa_readers := List.insert (ra_author req) (pa_readers pa)\<rparr>) in
      do {
        stream \<leftarrow> pa_stream pa;
        Some (emit (ReaderAddRes (ra_id req) (Inr stream)) pa)
      })"

text \<open>
  \<open>pa.stream\<close> may be nil in principle; the answer to a reader then carries a nil stream, which every
  reader dereferences.  The model treats it as a panic; the invariant below excludes it.
\<close>

definition answer_describes :: "describe_ok path_result \<Rightarrow> path \<Rightarrow> path" where
  "answer_describes res pa =
     (fold (\<lambda>req. emit (DescribeRes (dr_id req) res)) (pa_describeRequestsOnHold pa) pa)
     \<lparr>pa_describeRequestsOnHold := []\<rparr>"

definition reject_readers :: "path_error \<Rightarrow> path \<Rightarrow> path" where
  "reject_readers err pa =
     (fold (\<lambda>req. emit (ReaderAddRes (ra_id req) (Inl err))) (pa_readerAddRequestsOnHold pa) pa)
     \<lparr>pa_readerAddRequestsOnHold := []\<rparr>"

fun accept_readers :: "readerAdd_req list \<Rightarrow> path \<Rightarrow> path option" where
  "accept_readers [] pa = Some pa"
| "accept_readers (req # reqs) pa = do { pa \<leftarrow> handleReaderAddPost req pa; accept_readers reqs pa }"

text \<open>The requests on hold are served as soon as there is a stream.\<close>

definition serve_on_hold :: "path \<Rightarrow> path option" where
  "serve_on_hold pa = do {
     stream \<leftarrow> pa_stream pa;
     let pa = answer_describes (Inr (DescribeStream stream)) pa;
     pa \<leftarrow> accept_readers (pa_readerAddRequestsOnHold pa) pa;
     Some (pa\<lparr>pa_readerAddRequestsOnHold := []\<rparr>)
   }"

definition fail_on_hold :: "path_error \<Rightarrow> path \<Rightarrow> path" where
  "fail_on_hold err pa = reject_readers err (answer_describes (Inl err) pa)"

definition timed_out :: "path \<Rightarrow> path_error" where
  "timed_out pa = PathError (''source of path '' @ quoted (pa_name pa) @ '' has timed out'')"

definition terminated :: path_error where
  "terminated = PathError ''terminated''"

definition hold_describe :: "describe_req \<Rightarrow> path \<Rightarrow> path" where
  "hold_describe req pa = pa\<lparr>pa_describeRequestsOnHold := pa_describeRequestsOnHold pa @ [req]\<rparr>"

definition hold_reader :: "readerAdd_req \<Rightarrow> path \<Rightarrow> path" where
  "hold_reader req pa = pa\<lparr>pa_readerAddRequestsOnHold := pa_readerAddRequestsOnHold pa @ [req]\<rparr>"

definition handleDescribe :: "pathlib \<Rightarrow> describe_req \<Rightarrow> path \<Rightarrow> path option" where
  "handleDescribe lib req pa =
     (if pa_source pa = Some SourceRedirect
      then Some (emit (DescribeRes (dr_id req) (Inr (DescribeRedirect (pc_SourceRedirect (pa_conf pa))))) pa)
      else case pa_stream pa of
        Some stream \<Rightarrow> Some (emit (DescribeRes (dr_id req) (Inr (DescribeStream stream))) pa)
      | None \<Rightarrow>
          if HasOnDemandStaticSource (pa_conf pa)
          then do {
            pa \<leftarrow> (if pa_onDemandStaticSourceState pa = pathOnDemandStateInitial
                  then onDemandStaticSourceStart pa else Some pa);
            Some (hold_describe req pa)
          }
          else if HasOnDemandPublisher (pa_conf pa)
          then Some (hold_describe req
            (if pa_onDemandPublisherState pa = pathOnDemandStateInitial
             then onDemandPublisherStart lib pa else pa))
          else if pc_Fallback (pa_conf pa) \<noteq> ''''
          then Some (emit (DescribeRes (dr_id req) (Inr (DescribeRedirect
            (if HasPrefix (pc_Fallback (pa_conf pa)) ''/''
             then url_String lib (dr_url req) (pc_Fallback (pa_conf pa))
             else pc_Fallback (pa_conf pa))))) pa)
          else Some (emit (DescribeRes (dr_id req) (Inl (pathErrNoOnePublishing (pa_name pa)))) pa))"

definition handlePublisherRemove :: "req_id \<Rightarrow> publisher \<Rightarrow> path \<Rightarrow> path option" where
  "handlePublisherRemove req author pa = do {
     pa \<leftarrow> (if pa_source pa = Some (SourcePublisher author) then doPublisherRemove pa else Some pa);
     Some (emit (Done req) pa)
   }"

definition handlePublisherAdd :: "req_id \<Rightarrow> publisher \<Rightarrow> path \<Rightarrow> path option" where
  "handlePublisherAdd req author pa =
     (if pc_Source (pa_conf pa) \<noteq> ''publisher''
      then Some (emit (PublisherAddRes req (Inl (PathError
        (''can't publish to path '' @ quoted (pa_name pa) @ '' since '' @ quoted ''source'' @ '' is not '' @
         quoted ''publisher'')))) pa)
      else if pa_source pa \<noteq> None \<and> pc_DisablePublisherOverride (pa_conf pa)
      then Some (emit (PublisherAddRes req (Inl (PathError
        (''someone is already publishing to path '' @ quoted (pa_name pa))))) pa)
      else do {
        pa \<leftarrow> (case pa_source pa of
                 None \<Rightarrow> Some pa
               | Some (SourcePublisher p) \<Rightarrow> doPublisherRemove (emit (PublisherClose p) pa)
               | _ \<Rightarrow> None);
        Some (emit (PublisherAddRes req (Inr ())) (pa\<lparr>pa_source := Some (SourcePublisher author)\<rparr>))
      })"

definition handlePublisherStart ::
  "pathlib \<Rightarrow> int \<Rightarrow> req_id \<Rightarrow> publisher \<Rightarrow> media list \<Rightarrow> bool \<Rightarrow> path \<Rightarrow> path option" where
  "handlePublisherStart lib now req author medias generateRTPPackets pa =
     (if pa_source pa \<noteq> Some (SourcePublisher author)
      then Some (emit (PublisherStartRes req (Inl (PathError
        ''publisher is not assigned to this path anymore''))) pa)
      else case sourceSetReady lib now medias generateRTPPackets pa of
        Inl err \<Rightarrow> Some (emit (PublisherStartRes req (Inl (StreamError err))) pa)
      | Inr pa \<Rightarrow> do {
          pa \<leftarrow> (if HasOnDemandPublisher (pa_conf pa)
                then serve_on_hold (onDemandPublisherScheduleClose (pa\<lparr>pa_onDemandPublisherReadyTimer := None\<rparr>))
                else Some pa);
          stream \<leftarrow> pa_stream pa;
          Some (emit (PublisherStartRes req (Inr stream)) pa)
        })"

definition handlePublisherStop :: "req_id \<Rightarrow> publisher \<Rightarrow> path \<Rightarrow> path option" where
  "handlePublisherStop req author pa = do {
     pa \<leftarrow> (if pa_source pa = Some (SourcePublisher author) \<and> pa_stream pa \<noteq> None
           then if HasOnDemandPublisher (pa_conf pa) \<and> pa_onDemandPublisherState pa \<noteq> pathOnDemandStateInitial
                then onDemandPublisherStop pa
                else Some (sourceSetNotReady pa)
           else Some pa);
     Some (emit (Done req) pa)
   }"

definition handleReaderRemove :: "req_id \<Rightarrow> reader \<Rightarrow> path \<Rightarrow> path" where
  "handleReaderRemove req author pa =
     (let pa = emit (Done req) (if author \<in> set (pa_readers pa) then doReaderRemove author pa else pa) in
      if pa_readers pa = []
      then if HasOnDemandStaticSource (pa_conf pa)
           then if pa_onDemandStaticSourceState pa = pathOnDemandStateReady
                then onDemandStaticSourceScheduleClose pa else pa
           else if HasOnDemandPublisher (pa_conf pa)
           then if pa_onDemandPublisherState pa = pathOnDemandStateReady
                then onDemandPublisherScheduleClose pa else pa
           else pa
      else pa)"

definition handleReaderAdd :: "pathlib \<Rightarrow> readerAdd_req \<Rightarrow> path \<Rightarrow> path option" where
  "handleReaderAdd lib req pa =
     (if pa_stream pa \<noteq> None then handleReaderAddPost req pa
      else if HasOnDemandStaticSource (pa_conf pa)
      then do {
        pa \<leftarrow> (if pa_onDemandStaticSourceState pa = pathOnDemandStateInitial
              then onDemandStaticSourceStart pa else Some pa);
        Some (hold_reader req pa)
      }
      else if HasOnDemandPublisher (pa_conf pa)
      then Some (hold_reader req
        (if pa_onDemandPublisherState pa = pathOnDemandStateInitial
         then onDemandPublisherStart lib pa else pa))
      else Some (emit (ReaderAddRes (ra_id req) (Inl (pathErrNoOnePublishing (pa_name pa)))) pa))"

definition handleAPIPathsList :: "pathlib \<Rightarrow> req_id \<Rightarrow> path \<Rightarrow> path" where
  "handleAPIPathsList lib req pa =
     emit (APIItem req
       \<lparr>it_ConfName = pa_confName pa, it_Conf = pa_conf pa, it_Source = pa_source pa,
        it_SourceReady = (pa_stream pa \<noteq> None),
        it_Tracks = (case pa_stream pa of None \<Rightarrow> [] | Some stream \<Rightarrow> mediasDescription lib (stream_medias stream)),
        it_BytesReceived = pa_bytesReceived pa, it_Readers = pa_readers pa\<rparr>) pa"

section \<open>The goroutine\<close>

datatype path_event =
    StaticSourceReadyTimer | StaticSourceCloseTimer | PublisherReadyTimer | PublisherCloseTimer
  | ReloadConf PathConf
  | SourceStaticSetReady int "media list" bool
  | SourceStaticSetNotReady
  | Describe describe_req
  | PublisherRemove req_id publisher
  | PublisherAdd req_id publisher
  | PublisherStart int req_id publisher "media list" bool
  | PublisherStop req_id publisher
  | PathReaderAdd readerAdd_req
  | PathReaderRemove req_id reader
  | APIPathsList req_id
  | BytesReceived u64
  | CtxDone

text \<open>The beginning of \<open>run\<close>.\<close>

definition path_init :: "pathlib \<Rightarrow> path \<Rightarrow> path option" where
  "path_init lib pa = do {
     pa \<leftarrow> (if pc_Source (pa_conf pa) = ''redirect'' then Some (pa\<lparr>pa_source := Some SourceRedirect\<rparr>)
           else if HasStaticSource (pa_conf pa)
           then let pa = pa\<lparr>pa_source := Some (SourceStatic False)\<rparr> in
             (if pc_SourceOnDemand (pa_conf pa) then Some pa else sourceStatic_start pa)
           else Some pa);
     Some (if pc_RunOnInit (pa_conf pa) \<noteq> ''''
           then (emit (CmdStart OnInitCmd (pc_RunOnInit (pa_conf pa)) (pc_RunOnInitRestart (pa_conf pa))
                   (externalCmdEnv lib pa)) pa)\<lparr>pa_onInitCmd := True\<rparr>
           else pa)
   }"

text \<open>
  The cases of the \<open>select\<close>.  The second component says whether the loop goes on; \<open>check_close\<close> is the
  \<open>if pa.shouldClose()\<close> that follows some of them.  The bytes of a stream are counted by the goroutine of
  the source, through the pointer that it shares with the path.
\<close>

definition go_on :: "path \<Rightarrow> (path \<times> bool) option" where
  "go_on pa = Some (pa, True)"

definition check_close :: "path \<Rightarrow> (path \<times> bool) option" where
  "check_close pa = Some (pa, \<not> shouldClose pa)"

definition set_ready :: "pathlib \<Rightarrow> int \<Rightarrow> media list \<Rightarrow> bool \<Rightarrow> path \<Rightarrow> path option" where
  "set_ready lib now medias generateRTPPackets pa =
     (case sourceSetReady lib now medias generateRTPPackets pa of
        Inl err \<Rightarrow> Some (emit (SetReadyRes (Inl (StreamError err))) pa)
      | Inr pa \<Rightarrow> do {
          pa \<leftarrow> (if HasOnDemandStaticSource (pa_conf pa)
                then serve_on_hold
                  (onDemandStaticSourceScheduleClose (pa\<lparr>pa_onDemandStaticSourceReadyTimer := None\<rparr>))
                else Some pa);
          stream \<leftarrow> pa_stream pa;
          Some (emit (SetReadyRes (Inr stream)) pa)
        })"

definition set_not_ready :: "path \<Rightarrow> path option" where
  "set_not_ready pa =
     (let pa = emit SetNotReadyRes (sourceSetNotReady pa) in
      if HasOnDemandStaticSource (pa_conf pa) \<and> pa_onDemandStaticSourceState pa \<noteq> pathOnDemandStateInitial
      then onDemandStaticSourceStop pa else Some pa)"

definition reload_conf :: "PathConf \<Rightarrow> path \<Rightarrow> path option" where
  "reload_conf newConf pa = do {
     pa \<leftarrow> (if HasStaticSource (pa_conf pa)
           then (case pa_source pa of Some (SourceStatic _) \<Rightarrow> Some (emit (SourceReload newConf) pa) | _ \<Rightarrow> None)
           else Some pa);
     Some (pa\<lparr>pa_conf := newConf\<rparr>)
   }"

fun path_select :: "pathlib \<Rightarrow> path_event \<Rightarrow> path \<Rightarrow> (path \<times> bool) option" where
  "path_select lib StaticSourceReadyTimer pa =
     (let pa = pa\<lparr>pa_onDemandStaticSourceReadyTimer := None\<rparr> in
      onDemandStaticSourceStop (fail_on_hold (timed_out pa) pa) \<bind> check_close)"
| "path_select lib StaticSourceCloseTimer pa =
     (let pa = pa\<lparr>pa_onDemandStaticSourceCloseTimer := None\<rparr> in
      onDemandStaticSourceStop (sourceSetNotReady pa) \<bind> check_close)"
| "path_select lib PublisherReadyTimer pa =
     (let pa = pa\<lparr>pa_onDemandPublisherReadyTimer := None\<rparr> in
      onDemandPublisherStop (fail_on_hold (timed_out pa) pa) \<bind> check_close)"
| "path_select lib PublisherCloseTimer pa =
     (let pa = pa\<lparr>pa_onDemandPublisherCloseTimer := None\<rparr> in
      onDemandPublisherStop pa \<bind> check_close)"
| "path_select lib (ReloadConf newConf) pa = reload_conf newConf pa \<bind> go_on"
| "path_select lib (SourceStaticSetReady now medias gen) pa = set_ready lib now medias gen pa \<bind> go_on"
| "path_select lib SourceStaticSetNotReady pa = set_not_ready pa \<bind> check_close"
| "path_select lib (Describe req) pa = handleDescribe lib req pa \<bind> check_close"
| "path_select lib (PublisherRemove req author) pa = handlePublisherRemove req author pa \<bind> check_close"
| "path_select lib (PublisherAdd req author) pa = handlePublisherAdd req author pa \<bind> go_on"
| "path_select lib (PublisherStart now req author medias gen) pa =
     handlePublisherStart lib now req author medias gen pa \<bind> go_on"
| "path_select lib (PublisherStop req author) pa = handlePublisherStop req author pa \<bind> check_close"
| "path_select lib (PathReaderAdd req) pa = handleReaderAdd lib req pa \<bind> check_close"
| "path_select lib (PathReaderRemove req author) pa = go_on (handleReaderRemove req author pa)"
| "path_select lib (APIPathsList req) pa = go_on (handleAPIPathsList lib req pa)"
| "path_select lib (BytesReceived n) pa = go_on (pa\<lparr>pa_bytesReceived := pa_bytesReceived pa + n\<rparr>)"
| "path_select lib CtxDone pa = Some (pa, False)"

text \<open>What \<open>run\<close> does after the loop.  The requests on hold are answered but stay in their slices.\<close>

definition close_source :: "path \<Rightarrow> path option" where
  "close_source pa =
     (case pa_source pa of
        Some (SourceStatic True) \<Rightarrow> sourceStatic_stop pa
      | Some (SourcePublisher p) \<Rightarrow> Some (emit (PublisherClose p) pa)
      | _ \<Rightarrow> Some pa)"

definition path_exit :: "path \<Rightarrow> path option" where
  "path_exit pa =
     (let pa = emit ParentPathClose pa;
          pa = pa\<lparr>pa_onDemandStaticSourceReadyTimer := None, pa_onDemandStaticSourceCloseTimer := None,
                  pa_onDemandPublisherReadyTimer := None, pa_onDemandPublisherCloseTimer := None\<rparr>;
          pa = (if pa_onInitCmd pa then emit (CmdClose OnInitCmd) pa else pa);
          pa = fold (\<lambda>req. emit (DescribeRes (dr_id req) (Inl terminated))) (pa_describeRequestsOnHold pa) pa;
          pa = fold (\<lambda>req. emit (ReaderAddRes (ra_id req) (Inl terminated))) (pa_readerAddRequestsOnHold pa) pa;
          pa = (if pa_stream pa \<noteq> None then sourceSetNotReady pa else pa) in
      do {
        pa \<leftarrow> close_source pa;
        Some (if pa_onDemandCmd pa then emit (CmdClose OnDemandCmd) pa else pa)
      })"

text \<open>
  The goroutine as a whole.  Once its context is done, the functions that send to its channels
  (\<open>describe\<close>, \<open>publisherAdd\<close>, ...) take the other branch of their \<open>select\<close> and answer themselves.
\<close>

datatype run_state = Running path | Stopped path

fun path_call_stopped :: "path_event \<Rightarrow> path \<Rightarrow> path" where
  "path_call_stopped (SourceStaticSetReady now medias gen) pa = emit (SetReadyRes (Inl terminated)) pa"
| "path_call_stopped SourceStaticSetNotReady pa = emit SetNotReadyRes pa"
| "path_call_stopped (Describe req) pa = emit (DescribeRes (dr_id req) (Inl terminated)) pa"
| "path_call_stopped (PublisherRemove req author) pa = emit (Done req) pa"
| "path_call_stopped (PublisherAdd req author) pa = emit (PublisherAddRes req (Inl terminated)) pa"
| "path_call_stopped (PublisherStart now req author medias gen) pa =
     emit (PublisherStartRes req (Inl terminated)) pa"
| "path_call_stopped (PublisherStop req author) pa = emit (Done req) pa"
| "path_call_stopped (PathReaderAdd req) pa = emit (ReaderAddRes (ra_id req) (Inl terminated)) pa"
| "path_call_stopped (PathReaderRemove req author) pa = emit (Done req) pa"
| "path_call_stopped (APIPathsList req) pa = emit (Done req) pa"
| "path_call_stopped _ pa = pa"

fun path_step :: "pathlib \<Rightarrow> path_event \<Rightarrow> run_state \<Rightarrow> run_state option" where
  "path_step lib ev (Running pa) = do {
     (pa, continue) \<leftarrow> path_select lib ev pa;
     (if continue then Some (Running pa) else map_option Stopped (path_exit pa))
   }"
| "path_step lib ev (Stopped pa) = Some (Stopped (path_call_stopped ev pa))"

section \<open>Which events can happen\<close>

text \<open>
  A configuration that replaces another one without recreating the path agrees with it on everything
  the path looks at: \<open>pathConfCanBeUpdated\<close> only lets parameters of the camera change.
\<close>

definition conf_compatible :: "PathConf \<Rightarrow> PathConf \<Rightarrow> bool" where
  "conf_compatible old new \<longleftrightarrow>
     pathconf_valid new \<and> pc_Regexp new = pc_Regexp old \<and> pc_Source new = pc_Source old \<and>
     pc_SourceOnDemand new = pc_SourceOnDemand old \<and> pc_RunOnDemand new = pc_RunOnDemand old"

text \<open>
  A timer fires when it is armed.  A static source reports only while it runs, and reports that it is
  ready and that it is not ready in turn (\<open>run\<close> of every implementation calls \<open>SetNotReady\<close> on its way
  out if and only if \<open>SetReady\<close> has succeeded).  A publisher starts when it has not started yet.
\<close>

fun path_enabled :: "path_event \<Rightarrow> path \<Rightarrow> bool" where
  "path_enabled StaticSourceReadyTimer pa = (pa_onDemandStaticSourceReadyTimer pa \<noteq> None)"
| "path_enabled StaticSourceCloseTimer pa = (pa_onDemandStaticSourceCloseTimer pa \<noteq> None)"
| "path_enabled PublisherReadyTimer pa = (pa_onDemandPublisherReadyTimer pa \<noteq> None)"
| "path_enabled PublisherCloseTimer pa = (pa_onDemandPublisherCloseTimer pa \<noteq> None)"
| "path_enabled (ReloadConf newConf) pa = conf_compatible (pa_conf pa) newConf"
| "path_enabled (SourceStaticSetReady now medias gen) pa =
     (pa_source pa = Some (SourceStatic True) \<and> pa_stream pa = None)"
| "path_enabled SourceStaticSetNotReady pa =
     (pa_source pa = Some (SourceStatic True) \<and> pa_stream pa \<noteq> None)"
| "path_enabled (PublisherStart now req author medias gen) pa =
     (pa_source pa = Some (SourcePublisher author) \<longrightarrow> pa_stream pa = None)"
| "path_enabled _ pa = True"

fun event_enabled :: "path_event \<Rightarrow> run_state \<Rightarrow> bool" where
  "event_enabled ev (Running pa) = path_enabled ev pa"
| "event_enabled ev (Stopped pa) = True"

section \<open>The invariant\<close>

text \<open>
  The state machine of an on-demand source (static, or a publisher started by a command): what its
  state says about its two timers and about whether there are a stream, readers and requests on hold.
\<close>

fun on_demand_inv ::
  "pathOnDemandState \<Rightarrow> duration option \<Rightarrow> duration option \<Rightarrow> bool \<Rightarrow> bool \<Rightarrow> bool \<Rightarrow> bool" where
  "on_demand_inv pathOnDemandStateInitial readyTimer closeTimer stream readers onHold \<longleftrightarrow>
     readyTimer = None \<and> closeTimer = None \<and> \<not> stream \<and> \<not> readers \<and> \<not> onHold"
| "on_demand_inv pathOnDemandStateWaitingReady readyTimer closeTimer stream readers onHold \<longleftrightarrow>
     readyTimer \<noteq> None \<and> closeTimer = None \<and> \<not> stream \<and> \<not> readers"
| "on_demand_inv pathOnDemandStateReady readyTimer closeTimer stream readers onHold \<longleftrightarrow>
     readyTimer = None \<and> closeTimer = None \<and> stream \<and> readers \<and> \<not> onHold"
| "on_demand_inv pathOnDemandStateClosing readyTimer closeTimer stream readers onHold \<longleftrightarrow>
     readyTimer = None \<and> closeTimer \<noteq> None \<and> stream \<and> \<not> readers \<and> \<not> onHold"

definition on_hold :: "path \<Rightarrow> bool" where
  "on_hold pa \<longleftrightarrow> pa_describeRequestsOnHold pa \<noteq> [] \<or> pa_readerAddRequestsOnHold pa \<noteq> []"

definition static_idle :: "path \<Rightarrow> bool" where
  "static_idle pa \<longleftrightarrow> pa_onDemandStaticSourceState pa = pathOnDemandStateInitial \<and>
     pa_onDemandStaticSourceReadyTimer pa = None \<and> pa_onDemandStaticSourceCloseTimer pa = None"

definition publisher_idle :: "path \<Rightarrow> bool" where
  "publisher_idle pa \<longleftrightarrow> pa_onDemandPublisherState pa = pathOnDemandStateInitial \<and>
     pa_onDemandPublisherReadyTimer pa = None \<and> pa_onDemandPublisherCloseTimer pa = None \<and> \<not> pa_onDemandCmd pa"

definition static_inv :: "path \<Rightarrow> bool" where
  "static_inv pa \<longleftrightarrow>
     pa_source pa = Some (SourceStatic (pa_onDemandStaticSourceState pa \<noteq> pathOnDemandStateInitial)) \<and>
     on_demand_inv (pa_onDemandStaticSourceState pa) (pa_onDemandStaticSourceReadyTimer pa)
       (pa_onDemandStaticSourceCloseTimer pa) (pa_stream pa \<noteq> None) (pa_readers pa \<noteq> []) (on_hold pa)"

definition publisher_source :: "path \<Rightarrow> bool" where
  "publisher_source pa \<longleftrightarrow>
     pa_source pa = None \<and> pa_stream pa = None \<or> (\<exists>p. pa_source pa = Some (SourcePublisher p))"

definition publisher_inv :: "path \<Rightarrow> bool" where
  "publisher_inv pa \<longleftrightarrow> publisher_source pa \<and>
     on_demand_inv (pa_onDemandPublisherState pa) (pa_onDemandPublisherReadyTimer pa)
       (pa_onDemandPublisherCloseTimer pa) (pa_stream pa \<noteq> None) (pa_readers pa \<noteq> []) (on_hold pa) \<and>
     (pa_onDemandPublisherState pa = pathOnDemandStateInitial \<longrightarrow> \<not> pa_onDemandCmd pa) \<and>
     (pa_onDemandPublisherState pa = pathOnDemandStateWaitingReady \<longrightarrow> pa_onDemandCmd pa)"

text \<open>The sources of the other paths.\<close>

definition plain_source :: "path \<Rightarrow> bool" where
  "plain_source pa \<longleftrightarrow>
     (if pc_Source (pa_conf pa) = ''redirect'' then pa_source pa = Some SourceRedirect \<and> pa_stream pa = None
      else if HasStaticSource (pa_conf pa) then pa_source pa = Some (SourceStatic True)
      else publisher_source pa)"

definition base_inv :: "path \<Rightarrow> bool" where
  "base_inv pa \<longleftrightarrow>
     pathconf_valid (pa_conf pa) \<and> distinct (pa_readers pa) \<and>
     (pa_stream pa = None \<longrightarrow> pa_readers pa = [] \<and> \<not> pa_onReadyCmd pa)"

definition path_inv :: "path \<Rightarrow> bool" where
  "path_inv pa \<longleftrightarrow> base_inv pa \<and>
     (if HasOnDemandStaticSource (pa_conf pa) then static_inv pa \<and> publisher_idle pa
      else if HasOnDemandPublisher (pa_conf pa) then static_idle pa \<and> publisher_inv pa
      else plain_source pa \<and> static_idle pa \<and> publisher_idle pa \<and> \<not> on_hold pa)"

end
