(* ===== verification/PathManager.thy ===== *)
theory PathManager
  imports Path "HOL-Library.AList"
begin

text \<open>
  The path manager (\<open>internal/core/path_manager.go\<close>): the table of the paths by name, the index of the
  paths by configuration, and the loop that creates paths for requests, removes them when they close
  and applies a new configuration.  A path is a pointer, represented by a number with the two fields
  of the path that the manager looks at.  Maps are association lists, so that the order in which the
  code iterates over them, which Go leaves open, is the order of the list.  What the manager sends and
  calls is recorded in \<open>pm_out\<close>.
\<close>

section \<open>Updates of a configuration\<close>

definition pathConfCanBeUpdated :: "PathConf \<Rightarrow> PathConf \<Rightarrow> bool" where
  "pathConfCanBeUpdated oldPathConf newPathConf =
     (let copy = (PathConf_Clone oldPathConf)
        \<lparr>pc_RPICameraBrightness := pc_RPICameraBrightness newPathConf,
         pc_RPICameraContrast := pc_RPICameraContrast newPathConf,
         pc_RPICameraSaturation := pc_RPICameraSaturation newPathConf,
         pc_RPICameraSharpness := pc_RPICameraSharpness newPathConf,
         pc_RPICameraExposure := pc_RPICameraExposure newPathConf,
         pc_RPICameraAWB := pc_RPICameraAWB newPathConf,
         pc_RPICameraDenoise := pc_RPICameraDenoise newPathConf,
         pc_RPICameraShutter := pc_RPICameraShutter newPathConf,
         pc_RPICameraMetering := pc_RPICameraMetering newPathConf,
         pc_RPICameraGain := pc_RPICameraGain newPathConf,
         pc_RPICameraEV := pc_RPICameraEV newPathConf,
         pc_RPICameraFPS := pc_RPICameraFPS newPathConf\<rparr> in
      PathConf_Equal newPathConf copy)"

section \<open>State\<close>

record path_ref =
  pr_id :: nat
  pr_name :: string
  pr_confName :: string

datatype pm_error = PmError string | AuthError string

type_synonym 'a pm_result = "pm_error + 'a"

type_synonym authenticateFunc = "string list \<Rightarrow> string \<Rightarrow> string \<Rightarrow> pm_error option"

datatype pm_out =
    PmDescribeRes req_id "path_ref pm_result"
  | PmReaderAddRes req_id "path_ref pm_result"
  | PmPublisherAddRes req_id "path_ref pm_result"
  | PmAPIPathsListRes req_id "(string \<times> path_ref) list"
  | PathNew path_ref PathConf "string list"
  | PathReloadConf path_ref PathConf
  | PathCloseWait path_ref
  | HLSPathSourceReady path_ref | HLSPathSourceNotReady path_ref

record pathManager =
  pm_pathConfs :: "(string \<times> PathConf) list"
  pm_hlsServer :: bool
  pm_paths :: "(string \<times> path_ref) list"
  pm_pathsByConf :: "(string \<times> path_ref list) list"
  pm_next :: nat
  pm_out :: "pm_out list"

definition pm_emit :: "pm_out \<Rightarrow> pathManager \<Rightarrow> pathManager" where
  "pm_emit out pm = pm\<lparr>pm_out := pm_out pm @ [out]\<rparr>"

section \<open>Operations\<close>

text \<open>The paths of a configuration; a missing key of the map is the empty set.\<close>

definition paths_of :: "pathManager \<Rightarrow> string \<Rightarrow> path_ref list" where
  "paths_of pm confName = (case map_of (pm_pathsByConf pm) confName of None \<Rightarrow> [] | Some rs \<Rightarrow> rs)"

definition createPath :: "string \<Rightarrow> PathConf \<Rightarrow> string \<Rightarrow> string list \<Rightarrow> pathManager \<Rightarrow> pathManager" where
  "createPath pathConfName pathConf name matches pm =
     (let pa = \<lparr>pr_id = pm_next pm, pr_name = name, pr_confName = pathConfName\<rparr> in
      (pm_emit (PathNew pa pathConf matches) pm)
      \<lparr>pm_next := pm_next pm + 1,
       pm_paths := AList.update name pa (pm_paths pm),
       pm_pathsByConf := AList.update pathConfName (paths_of pm pathConfName @ [pa]) (pm_pathsByConf pm)\<rparr>)"

definition removePath :: "path_ref \<Rightarrow> pathManager \<Rightarrow> pathManager" where
  "removePath pa pm =
     (let rs = removeAll pa (paths_of pm (pr_confName pa)) in
      pm\<lparr>pm_pathsByConf :=
           (if rs = [] then AList.delete (pr_confName pa) (pm_pathsByConf pm)
            else AList.update (pr_confName pa) rs (pm_pathsByConf pm)),
         pm_paths := AList.delete (pr_name pa) (pm_paths pm)\<rparr>)"

text \<open>The first configuration whose regular expression matches.\<close>

fun find_regexp :: "golib \<Rightarrow> string \<Rightarrow> (string \<times> PathConf) list \<Rightarrow> (string \<times> PathConf \<times> string list) option" where
  "find_regexp lib name [] = None"
| "find_regexp lib name ((pathConfName, pathConf) # cs) =
     (case pc_Regexp pathConf of
        None \<Rightarrow> find_regexp lib name cs
      | Some re \<Rightarrow>
          (case regexp_submatch lib re name of
             None \<Rightarrow> find_regexp lib name cs
           | Some m \<Rightarrow> Some (pathConfName, pathConf, m)))"

fun error_text :: "error \<Rightarrow> string" where
  "error_text (Err e) = e"
| "error_text EOF = ''EOF''"
| "error_text UnexpectedEOF = ''unexpected EOF''"
| "error_text NoProgress = ''multiple Read calls return no data or error''"
| "error_text Panic = ''''"

definition findPathConf :: "golib \<Rightarrow> string \<Rightarrow> pathManager \<Rightarrow> (string \<times> PathConf \<times> string list) pm_result" where
  "findPathConf lib name pm =
     (case IsValidPathName name of
        Inl err \<Rightarrow> Inl (PmError (''invalid path name: '' @ error_text err @ '' ('' @ name @ '')''))
      | Inr _ \<Rightarrow>
          (case map_of (pm_pathConfs pm) name of
             Some pathConf \<Rightarrow> Inr (name, pathConf, [])
           | None \<Rightarrow>
               (case find_regexp lib name (pm_pathConfs pm) of
                  Some found \<Rightarrow> Inr found
                | None \<Rightarrow> Inl (PmError (''path '' @ quoted name @ '' is not configured'')))))"

section \<open>Requests\<close>

text \<open>
  The three kinds of requests take the same way: find the configuration, authenticate, create the
  path if it does not exist.  \<open>cred\<close> selects the addresses, user and password that apply.
\<close>

definition read_cred :: "PathConf \<Rightarrow> string list \<times> string \<times> string" where
  "read_cred c = (pc_ReadIPs c, pc_ReadUser c, pc_ReadPass c)"

definition publish_cred :: "PathConf \<Rightarrow> string list \<times> string \<times> string" where
  "publish_cred c = (pc_PublishIPs c, pc_PublishUser c, pc_PublishPass c)"

definition authenticate :: "authenticateFunc option \<Rightarrow> string list \<times> string \<times> string \<Rightarrow> pm_error option" where
  "authenticate auth = (\<lambda>(ips, user, pass). case auth of None \<Rightarrow> None | Some f \<Rightarrow> f ips user pass)"

definition ensure_path :: "string \<Rightarrow> PathConf \<Rightarrow> string \<Rightarrow> string list \<Rightarrow> pathManager \<Rightarrow> pathManager" where
  "ensure_path confName cnf name matches pm =
     (if map_of (pm_paths pm) name = None then createPath confName cnf name matches pm else pm)"

definition get_path ::
  "golib \<Rightarrow> (PathConf \<Rightarrow> string list \<times> string \<times> string) \<Rightarrow> authenticateFunc option \<Rightarrow> string \<Rightarrow> pathManager \<Rightarrow>
   path_ref pm_result \<times> pathManager" where
  "get_path lib cred auth name pm =
     (case findPathConf lib name pm of
        Inl err \<Rightarrow> (Inl err, pm)
      | Inr (confName, cnf, matches) \<Rightarrow>
          (case authenticate auth (cred cnf) of
             Some err \<Rightarrow> (Inl err, pm)
           | None \<Rightarrow>
               let pm = ensure_path confName cnf name matches pm in
               (Inr (the (map_of (pm_paths pm) name)), pm)))"

text \<open>\<open>the\<close> is safe here: \<open>ensure_path\<close> has just put the name into the table (lemma \<open>ensure_path_table\<close>).\<close>

definition handle_describe :: "golib \<Rightarrow> req_id \<Rightarrow> string \<Rightarrow> authenticateFunc option \<Rightarrow> pathManager \<Rightarrow> pathManager" where
  "handle_describe lib req name auth pm =
     (let (res, pm) = get_path lib read_cred auth name pm in pm_emit (PmDescribeRes req res) pm)"

definition handle_readerAdd :: "golib \<Rightarrow> req_id \<Rightarrow> string \<Rightarrow> authenticateFunc option \<Rightarrow> pathManager \<Rightarrow> pathManager" where
  "handle_readerAdd lib req name auth pm =
     (let (res, pm) = get_path lib read_cred auth name pm in pm_emit (PmReaderAddRes req res) pm)"

definition handle_publisherAdd :: "golib \<Rightarrow> req_id \<Rightarrow> string \<Rightarrow> authenticateFunc \<Rightarrow> pathManager \<Rightarrow> pathManager" where
  "handle_publisherAdd lib req name auth pm =
     (let (res, pm) = get_path lib publish_cred (Some auth) name pm in pm_emit (PmPublisherAddRes req res) pm)"

section \<open>Reload\<close>

definition remove_and_close :: "path_ref \<Rightarrow> pathManager \<Rightarrow> pathManager" where
  "remove_and_close pa pm = pm_emit (PathCloseWait pa) (removePath pa pm)"

definition reload_conf_entry :: "(string \<times> PathConf) list \<Rightarrow> string \<times> PathConf \<Rightarrow> pathManager \<Rightarrow> pathManager" where
  "reload_conf_entry newPathConfs = (\<lambda>(confName, pathConf) pm.
     case map_of newPathConfs confName of
       Some newPathConf \<Rightarrow>
         if PathConf_Equal newPathConf pathConf then pm
         else if pathConfCanBeUpdated pathConf newPathConf
         then fold (\<lambda>pa. pm_emit (PathReloadConf pa newPathConf)) (paths_of pm confName) pm
         else fold remove_and_close (paths_of pm confName) pm
     | None \<Rightarrow> fold remove_and_close (paths_of pm confName) pm)"

definition add_static_path :: "string \<times> PathConf \<Rightarrow> pathManager \<Rightarrow> pathManager" where
  "add_static_path = (\<lambda>(pathConfName, pathConf) pm.
     if map_of (pm_paths pm) pathConfName = None \<and> pc_Regexp pathConf = None
     then createPath pathConfName pathConf pathConfName [] pm else pm)"

definition handle_confReload :: "(string \<times> PathConf) list \<Rightarrow> pathManager \<Rightarrow> pathManager" where
  "handle_confReload newPathConfs pm =
     (let pm = fold (reload_conf_entry newPathConfs) (pm_pathConfs pm) pm;
          pm = pm\<lparr>pm_pathConfs := newPathConfs\<rparr> in
      fold add_static_path (pm_pathConfs pm) pm)"

definition newPathManager :: "(string \<times> PathConf) list \<Rightarrow> pathManager" where
  "newPathManager pathConfs =
     fold (\<lambda>(name, c) pm. if pc_Regexp c = None then createPath name c name [] pm else pm) pathConfs
       \<lparr>pm_pathConfs = pathConfs, pm_hlsServer = False, pm_paths = [], pm_pathsByConf = [], pm_next = 0, pm_out = []\<rparr>"

section \<open>The loop\<close>

datatype pm_event =
    PmConfReload "(string \<times> PathConf) list"
  | PmPathClose path_ref
  | PmPathSourceReady path_ref | PmPathSourceNotReady path_ref
  | PmDescribe req_id string "authenticateFunc option"
  | PmReaderAdd req_id string "authenticateFunc option"
  | PmPublisherAdd req_id string authenticateFunc
  | PmHLSServerSet bool
  | PmAPIPathsList req_id

fun pm_select :: "golib \<Rightarrow> pm_event \<Rightarrow> pathManager \<Rightarrow> pathManager" where
  "pm_select lib (PmConfReload newPathConfs) pm = handle_confReload newPathConfs pm"
| "pm_select lib (PmPathClose pa) pm = (if map_of (pm_paths pm) (pr_name pa) \<noteq> Some pa then pm else removePath pa pm)"
| "pm_select lib (PmPathSourceReady pa) pm = (if pm_hlsServer pm then pm_emit (HLSPathSourceReady pa) pm else pm)"
| "pm_select lib (PmPathSourceNotReady pa) pm = (if pm_hlsServer pm then pm_emit (HLSPathSourceNotReady pa) pm else pm)"
| "pm_select lib (PmDescribe req name auth) pm = handle_describe lib req name auth pm"
| "pm_select lib (PmReaderAdd req name auth) pm = handle_readerAdd lib req name auth pm"
| "pm_select lib (PmPublisherAdd req name auth) pm = handle_publisherAdd lib req name auth pm"
| "pm_select lib (PmHLSServerSet s) pm = pm\<lparr>pm_hlsServer := s\<rparr>"
| "pm_select lib (PmAPIPathsList req) pm = pm_emit (PmAPIPathsListRes req (pm_paths pm)) pm"

end
