(* ===== verification/Machine.thy ===== *)
theory Machine
  imports Main "HOL-Library.Multiset"
begin

text \<open>
  Event-driven state machines, the shape of the goroutines of the server: a function that handles one
  event and may panic (\<open>None\<close>), and a predicate that says which events can happen.  The locales turn
  facts about one event into facts about sequences of events; the components interpret them.
\<close>

section \<open>Sequences of events\<close>

text \<open>
  \<open>run\<close> handles the events in order, and is \<open>None\<close> as soon as one of them panics.  A sequence is feasible
  if every event can happen in the state that the events before it lead to (after a panic, nothing
  is required of the rest).
\<close>

fun run :: "('e \<Rightarrow> 's \<Rightarrow> 's option) \<Rightarrow> 'e list \<Rightarrow> 's \<Rightarrow> 's option" where
  "run step [] s = Some s"
| "run step (e # es) s = Option.bind (step e s) (run step es)"

fun feasible :: "('e \<Rightarrow> 's \<Rightarrow> bool) \<Rightarrow> ('e \<Rightarrow> 's \<Rightarrow> 's option) \<Rightarrow> 'e list \<Rightarrow> 's \<Rightarrow> bool" where
  "feasible enabled step [] s = True"
| "feasible enabled step (e # es) s =
     (enabled e s \<and> (case step e s of None \<Rightarrow> True | Some s' \<Rightarrow> feasible enabled step es s'))"

lemma run_append: "run step (es @ es') s = Option.bind (run step es s) (run step es')"
  by (induction es arbitrary: s) (auto split: bind_splits)

text \<open>A machine with an invariant under which no possible event panics.\<close>

locale machine =
  fixes enabled :: "'e \<Rightarrow> 's \<Rightarrow> bool" and step :: "'e \<Rightarrow> 's \<Rightarrow> 's option" and Inv :: "'s \<Rightarrow> bool"
  assumes progress: "Inv s \<Longrightarrow> enabled e s \<Longrightarrow> \<exists>s'. step e s = Some s' \<and> Inv s'"
begin

lemma run_inv:
  assumes "Inv s" "feasible enabled step es s"
  shows "\<exists>s'. run step es s = Some s' \<and> Inv s'"
  using assms
proof (induction es arbitrary: s)
  case (Cons e es)
  then obtain s1 where "step e s = Some s1" "Inv s1" using progress by fastforce
  with Cons show ?case by simp
qed simp

lemma step_inv: "Inv s \<Longrightarrow> enabled e s \<Longrightarrow> step e s = Some s' \<Longrightarrow> Inv s'"
  using progress by fastforce

lemma not_stuck:
  assumes "Inv s" "feasible enabled step es s" "run step es s = Some s'" "enabled e s'"
  shows "step e s' \<noteq> None"
  using run_inv [OF assms(1,2)] assms(3,4) progress by fastforce

end

text \<open>A quantity of the state that every event changes by an amount of its own.\<close>

locale accounting = machine +
  fixes stock :: "'s \<Rightarrow> 'a multiset" and input :: "'e \<Rightarrow> 'a multiset"
  assumes balance: "Inv s \<Longrightarrow> enabled e s \<Longrightarrow> step e s = Some s' \<Longrightarrow> stock s' = stock s + input e"
begin

lemma run_balance:
  assumes "Inv s" "feasible enabled step es s" "run step es s = Some s'"
  shows "stock s' = stock s + sum_list (map input es)"
  using assms
proof (induction es arbitrary: s)
  case (Cons e es)
  then obtain s1 where "step e s = Some s1" "Inv s1" "feasible enabled step es s1" "run step es s1 = Some s'"
    using progress by fastforce
  with Cons balance show ?case by (simp add: add.assoc)
qed simp

end

section \<open>Switches\<close>

text \<open>
  An output that is switched on and off: reading the outputs in order, it is only switched on when it
  is off and only off when it is on.  The result is its final state, or \<open>None\<close> if that was violated.
\<close>

fun switch :: "('o \<Rightarrow> bool) \<Rightarrow> ('o \<Rightarrow> bool) \<Rightarrow> 'o list \<Rightarrow> bool \<Rightarrow> bool option" where
  "switch on off [] b = Some b"
| "switch on off (x # xs) b =
     (if on x then if b then None else switch on off xs True
      else if off x then if b then switch on off xs False else None
      else switch on off xs b)"

lemma switch_append: "switch on off (xs @ ys) b = Option.bind (switch on off xs b) (switch on off ys)"
  by (induction xs arbitrary: b) simp_all

lemma switch_neutral: "\<forall>x \<in> set xs. \<not> on x \<and> \<not> off x \<Longrightarrow> switch on off xs b = Some b"
  by (induction xs) simp_all

end
