(* ===== verification/PathManagerInv.thy ===== *)
theory PathManagerInv
  imports PathManager Machine
begin

text \<open>
  The table of the paths and the index by configuration stay consistent, and what a reload does to
  every path.
\<close>

section \<open>The table and the index\<close>

abbreviation table :: "pathManager \<Rightarrow> string \<Rightarrow> path_ref option" where
  "table pm \<equiv> map_of (pm_paths pm)"

text \<open>
  A path is in the set of a configuration if and only if it is the path of its name and belongs to
  this configuration; no set is empty, and pointers are pairwise different.
\<close>

definition index_inv :: "pathManager \<Rightarrow> bool" where
  "index_inv pm \<longleftrightarrow>
     (\<forall>c r. r \<in> set (paths_of pm c) \<longleftrightarrow> table pm (pr_name r) = Some r \<and> pr_confName r = c) \<and>
     (\<forall>c. distinct (paths_of pm c)) \<and>
     (\<forall>c. map_of (pm_pathsByConf pm) c \<noteq> Some []) \<and>
     (\<forall>n r. table pm n = Some r \<longrightarrow> pr_name r = n \<and> pr_id r < pm_next pm) \<and>
     (\<forall>n r n' r'. table pm n = Some r \<longrightarrow> table pm n' = Some r' \<longrightarrow> pr_id r = pr_id r' \<longrightarrow> n = n')"

lemma index_invI:
  assumes "\<And>r c. r \<in> set (paths_of pm c) \<longleftrightarrow> table pm (pr_name r) = Some r \<and> pr_confName r = c"
    and "\<And>r c. distinct (paths_of pm c)" "\<And>r c. map_of (pm_pathsByConf pm) c \<noteq> Some []"
    and "\<And>n r. table pm n = Some r \<Longrightarrow> pr_name r = n \<and> pr_id r < pm_next pm"
    and "\<And>n r n' r'. table pm n = Some r \<Longrightarrow> table pm n' = Some r' \<Longrightarrow> pr_id r = pr_id r' \<Longrightarrow> n = n'"
  shows "index_inv pm"
  using assms unfolding index_inv_def by blast

lemma index_invD:
  assumes "index_inv pm"
  shows "r \<in> set (paths_of pm c) \<longleftrightarrow> table pm (pr_name r) = Some r \<and> pr_confName r = c"
    and "distinct (paths_of pm c)" "map_of (pm_pathsByConf pm) c \<noteq> Some []"
    and "table pm n = Some r \<Longrightarrow> pr_name r = n" "table pm n = Some r \<Longrightarrow> pr_id r < pm_next pm"
    and "table pm n = Some r \<Longrightarrow> table pm n' = Some r' \<Longrightarrow> pr_id r = pr_id r' \<Longrightarrow> n = n'"
  using assms unfolding index_inv_def by blast+

definition pm_inv :: "pathManager \<Rightarrow> bool" where
  "pm_inv pm \<longleftrightarrow> index_inv pm \<and> distinct (map fst (pm_pathConfs pm)) \<and>
     (\<forall>n r. table pm n = Some r \<longrightarrow> pr_confName r \<in> fst ` set (pm_pathConfs pm))"

lemma paths_of_update:
  "paths_of (pm\<lparr>pm_pathsByConf := AList.update c rs (pm_pathsByConf pm)\<rparr>) = (paths_of pm)(c := rs)"
  "paths_of (pm\<lparr>pm_pathsByConf := AList.delete c (pm_pathsByConf pm)\<rparr>) = (paths_of pm)(c := [])"
  by (auto simp: paths_of_def update_conv' delete_conv')

lemma pm_emit_simps [simp]:
  "pm_pathConfs (pm_emit out pm) = pm_pathConfs pm" "pm_hlsServer (pm_emit out pm) = pm_hlsServer pm"
  "pm_paths (pm_emit out pm) = pm_paths pm" "pm_pathsByConf (pm_emit out pm) = pm_pathsByConf pm"
  "pm_next (pm_emit out pm) = pm_next pm" "pm_out (pm_emit out pm) = pm_out pm @ [out]"
  "paths_of (pm_emit out pm) = paths_of pm" "index_inv (pm_emit out pm) = index_inv pm"
  "pm_inv (pm_emit out pm) = pm_inv pm"
  by (simp_all add: pm_emit_def paths_of_def [abs_def] index_inv_def pm_inv_def)

lemma index_inv_out [simp]: "index_inv (pm\<lparr>pm_out := out\<rparr>) = index_inv pm"
  by (simp add: index_inv_def paths_of_def)

lemma createPath_simps [simp]:
  "pm_pathConfs (createPath c cnf n ms pm) = pm_pathConfs pm"
  "table (createPath c cnf n ms pm) = (table pm)(n \<mapsto> \<lparr>pr_id = pm_next pm, pr_name = n, pr_confName = c\<rparr>)"
  "paths_of (createPath c cnf n ms pm) =
     (paths_of pm)(c := paths_of pm c @ [\<lparr>pr_id = pm_next pm, pr_name = n, pr_confName = c\<rparr>])"
  "map_of (pm_pathsByConf (createPath c cnf n ms pm)) =
     (map_of (pm_pathsByConf pm))(c \<mapsto> paths_of pm c @ [\<lparr>pr_id = pm_next pm, pr_name = n, pr_confName = c\<rparr>])"
  "pm_next (createPath c cnf n ms pm) = pm_next pm + 1"
  "pm_out (createPath c cnf n ms pm) =
     pm_out pm @ [PathNew \<lparr>pr_id = pm_next pm, pr_name = n, pr_confName = c\<rparr> cnf ms]"
  by (auto simp: createPath_def Let_def paths_of_def update_conv' fun_eq_iff)

lemma createPath_index:
  assumes "index_inv pm" "table pm n = None"
  shows "index_inv (createPath c cnf n ms pm)"
proof -
  define p where "p = \<lparr>pr_id = pm_next pm, pr_name = n, pr_confName = c\<rparr>"
  have p: "pr_id p = pm_next pm" "pr_name p = n" "pr_confName p = c" by (simp_all add: p_def)
  note i = index_invD [OF assms(1)]
  show ?thesis
  proof (rule index_invI, unfold createPath_simps p_def [symmetric])
    fix r d
    show "r \<in> set (((paths_of pm)(c := paths_of pm c @ [p])) d) \<longleftrightarrow>
        ((table pm)(n \<mapsto> p)) (pr_name r) = Some r \<and> pr_confName r = d"
      using i(1) [of r d] assms(2) p by (cases "r = p"; cases "pr_name r = n"; cases "d = c") auto
    show "distinct (((paths_of pm)(c := paths_of pm c @ [p])) d)"
      using i(2) [of d] i(1) [of p d] assms(2) p by auto
    show "((map_of (pm_pathsByConf pm))(c \<mapsto> paths_of pm c @ [p])) d \<noteq> Some []"
      using i(3) [of d] by simp
  next
    fix m r
    assume "((table pm)(n \<mapsto> p)) m = Some r"
    then show "pr_name r = m \<and> pr_id r < pm_next pm + 1" using i(4,5) [of m r] p by (auto split: if_splits)
  next
    fix m r m' r'
    assume "((table pm)(n \<mapsto> p)) m = Some r" "((table pm)(n \<mapsto> p)) m' = Some r'" "pr_id r = pr_id r'"
    then show "m = m'" using i(6) [of m r m' r'] i(5) [of m r] i(5) [of m' r'] p by (auto split: if_splits)
  qed
qed

lemma removePath_simps [simp]:
  "pm_pathConfs (removePath pa pm) = pm_pathConfs pm" "pm_next (removePath pa pm) = pm_next pm"
  "table (removePath pa pm) = (table pm)(pr_name pa := None)" "pm_out (removePath pa pm) = pm_out pm"
  "paths_of (removePath pa pm) = (paths_of pm)(pr_confName pa := removeAll pa (paths_of pm (pr_confName pa)))"
  by (auto simp: removePath_def Let_def paths_of_def update_conv' delete_conv' fun_eq_iff)

lemma removePath_index:
  assumes "index_inv pm" "table pm (pr_name pa) = Some pa"
  shows "index_inv (removePath pa pm)"
proof -
  note i = index_invD [OF assms(1)]
  have by_conf: "map_of (pm_pathsByConf (removePath pa pm)) c \<noteq> Some []" for c
    using i(3) [of c] by (auto simp: removePath_def Let_def update_conv' delete_conv')
  show ?thesis
  proof (rule index_invI, unfold removePath_simps)
    fix r d
    show "r \<in> set (((paths_of pm)(pr_confName pa := removeAll pa (paths_of pm (pr_confName pa)))) d) \<longleftrightarrow>
        ((table pm)(pr_name pa := None)) (pr_name r) = Some r \<and> pr_confName r = d"
      using i(1) [of r d] assms(2) by (cases "r = pa"; cases "pr_name r = pr_name pa"; cases "d = pr_confName pa") auto
    show "distinct (((paths_of pm)(pr_confName pa := removeAll pa (paths_of pm (pr_confName pa)))) d)"
      using i(2) [of d] by (auto simp: distinct_removeAll)
  next
    fix m r
    assume "((table pm)(pr_name pa := None)) m = Some r"
    then show "pr_name r = m \<and> pr_id r < pm_next pm" using i(4,5) [of m r] by (simp split: if_splits)
  next
    fix m r m' r'
    assume "((table pm)(pr_name pa := None)) m = Some r" "((table pm)(pr_name pa := None)) m' = Some r'" "pr_id r = pr_id r'"
    then have "table pm m = Some r" "table pm m' = Some r'" by (simp_all split: if_splits)
    with \<open>pr_id r = pr_id r'\<close> show "m = m'" by (rule i(6) [rotated 2])
  qed (rule by_conf)
qed

section \<open>Requests\<close>

lemma ensure_path_table: "\<exists>r. table (ensure_path c cnf n ms pm) n = Some r"
  by (auto simp: ensure_path_def)

lemma find_regexp_Some:
  "find_regexp lib name cs = Some (c, cnf, ms) \<Longrightarrow>
   (c, cnf) \<in> set cs \<and> (\<exists>re. pc_Regexp cnf = Some re \<and> regexp_submatch lib re name = Some ms)"
  by (induction cs) (auto split: option.splits)

lemma findPathConf_Inr:
  assumes "findPathConf lib name pm = Inr (c, cnf, ms)"
  shows "IsValidPathName name = Inr () \<and> (c, cnf) \<in> set (pm_pathConfs pm) \<and>
    (c = name \<or> (\<exists>re. pc_Regexp cnf = Some re \<and> regexp_submatch lib re name = Some ms))"
  using assms
  by (auto simp: findPathConf_def dest: map_of_SomeD find_regexp_Some split: sum.splits option.splits)

lemma ensure_path_inv:
  assumes "pm_inv pm" "(c, cnf) \<in> set (pm_pathConfs pm)"
  shows "pm_inv (ensure_path c cnf n ms pm)"
proof -
  have "c \<in> fst ` set (pm_pathConfs pm)" using assms(2) by force
  with assms(1) createPath_index [of pm n c cnf ms] show ?thesis
    by (auto simp: pm_inv_def ensure_path_def split: if_splits)
qed

lemma get_path_inv:
  assumes "pm_inv pm"
  shows "pm_inv (snd (get_path lib cred auth name pm))"
  using assms ensure_path_inv findPathConf_Inr
  by (fastforce simp: get_path_def Let_def split: sum.splits option.splits)

section \<open>Reload\<close>

datatype fate = Kept | Updated PathConf | Gone

text \<open>
  A configuration that differs from the old one at most in the parameters of the camera that can be
  changed while it runs: the brightness, the contrast, the saturation, the sharpness, the exposure, the
  white balance, the denoising, the shutter, the metering, the gain, the exposure compensation and the
  frame rate.  The code compares with a copy of the old configuration that has gone through JSON.
  Therefore a configuration with a regular expression never passes, and the lists of addresses pass if
  the new ones are the old ones in ascending order.
\<close>

definition camera_tuned :: "PathConf \<Rightarrow> PathConf \<Rightarrow> bool" where
  "camera_tuned old new \<longleftrightarrow> pc_Regexp new = None \<and>
     pc_PublishIPs new = sort (pc_PublishIPs old) \<and> pc_ReadIPs new = sort (pc_ReadIPs old) \<and>
     pc_Source new = pc_Source old \<and> pc_SourceProtocol new = pc_SourceProtocol old \<and>
     pc_SourceAnyPortEnable new = pc_SourceAnyPortEnable old \<and>
     pc_SourceFingerprint new = pc_SourceFingerprint old \<and>
     pc_SourceOnDemand new = pc_SourceOnDemand old \<and>
     pc_SourceOnDemandStartTimeout new = pc_SourceOnDemandStartTimeout old \<and>
     pc_SourceOnDemandCloseAfter new = pc_SourceOnDemandCloseAfter old \<and>
     pc_SourceRedirect new = pc_SourceRedirect old \<and>
     pc_DisablePublisherOverride new = pc_DisablePublisherOverride old \<and>
     pc_Fallback new = pc_Fallback old \<and> pc_RPICameraCamID new = pc_RPICameraCamID old \<and>
     pc_RPICameraWidth new = pc_RPICameraWidth old \<and> pc_RPICameraHeight new = pc_RPICameraHeight old \<and>
     pc_RPICameraHFlip new = pc_RPICameraHFlip old \<and> pc_RPICameraVFlip new = pc_RPICameraVFlip old \<and>
     pc_RPICameraROI new = pc_RPICameraROI old \<and>
     pc_RPICameraTuningFile new = pc_RPICameraTuningFile old \<and>
     pc_RPICameraMode new = pc_RPICameraMode old \<and>
     pc_RPICameraIDRPeriod new = pc_RPICameraIDRPeriod old \<and>
     pc_RPICameraBitrate new = pc_RPICameraBitrate old \<and>
     pc_RPICameraProfile new = pc_RPICameraProfile old \<and>
     pc_RPICameraLevel new = pc_RPICameraLevel old \<and> pc_RPICameraAfMode new = pc_RPICameraAfMode old \<and>
     pc_RPICameraAfRange new = pc_RPICameraAfRange old \<and>
     pc_RPICameraAfSpeed new = pc_RPICameraAfSpeed old \<and>
     pc_RPICameraLensPosition new = pc_RPICameraLensPosition old \<and>
     pc_RPICameraAfWindow new = pc_RPICameraAfWindow old \<and>
     pc_RPICameraTextOverlayEnable new = pc_RPICameraTextOverlayEnable old \<and>
     pc_RPICameraTextOverlay new = pc_RPICameraTextOverlay old \<and>
     pc_PublishUser new = pc_PublishUser old \<and> pc_PublishPass new = pc_PublishPass old \<and>
     pc_ReadUser new = pc_ReadUser old \<and> pc_ReadPass new = pc_ReadPass old \<and>
     pc_RunOnInit new = pc_RunOnInit old \<and> pc_RunOnInitRestart new = pc_RunOnInitRestart old \<and>
     pc_RunOnDemand new = pc_RunOnDemand old \<and> pc_RunOnDemandRestart new = pc_RunOnDemandRestart old \<and>
     pc_RunOnDemandStartTimeout new = pc_RunOnDemandStartTimeout old \<and>
     pc_RunOnDemandCloseAfter new = pc_RunOnDemandCloseAfter old \<and>
     pc_RunOnReady new = pc_RunOnReady old \<and> pc_RunOnReadyRestart new = pc_RunOnReadyRestart old \<and>
     pc_RunOnRead new = pc_RunOnRead old \<and> pc_RunOnReadRestart new = pc_RunOnReadRestart old"

lemma CanBeUpdated_iff: "pathConfCanBeUpdated old new \<longleftrightarrow> camera_tuned old new"
  by (cases old; cases new) (auto simp: pathConfCanBeUpdated_def camera_tuned_def PathConf_Clone_def PathConf_Equal_def)

text \<open>What becomes of the paths of a configuration.\<close>

definition conf_fate :: "(string \<times> PathConf) list \<Rightarrow> string \<times> PathConf \<Rightarrow> fate" where
  "conf_fate newPathConfs = (\<lambda>(confName, pathConf).
     case map_of newPathConfs confName of
       None \<Rightarrow> Gone
     | Some newPathConf \<Rightarrow>
         if newPathConf = pathConf then Kept
         else if camera_tuned pathConf newPathConf then Updated newPathConf else Gone)"

text \<open>A table without the paths that satisfy a predicate.\<close>

definition without :: "(path_ref \<Rightarrow> bool) \<Rightarrow> (string \<Rightarrow> path_ref option) \<Rightarrow> string \<Rightarrow> path_ref option" where
  "without P m n = (case m n of None \<Rightarrow> None | Some r \<Rightarrow> if P r then None else Some r)"

lemma without_Some: "without P m n = Some r \<longleftrightarrow> m n = Some r \<and> \<not> P r"
  by (auto simp: without_def split: option.splits)

lemma without_without: "without P (without Q m) = without (\<lambda>r. P r \<or> Q r) m"
  by (auto simp: without_def fun_eq_iff split: option.splits)

lemma without_none: "(\<And>n r. m n = Some r \<Longrightarrow> \<not> P r) \<Longrightarrow> without P m = m"
  by (rule ext) (simp add: without_def split: option.splits)

lemma without_cong: "(\<And>n r. m n = Some r \<Longrightarrow> P r = Q r) \<Longrightarrow> without P m = without Q m"
  by (rule ext) (simp add: without_def split: option.splits)

lemma remove_and_close_simps:
  assumes "index_inv pm" "table pm (pr_name r) = Some r"
  shows "index_inv (remove_and_close r pm)" "table (remove_and_close r pm) = without (\<lambda>r'. r' = r) (table pm)"
    "pm_out (remove_and_close r pm) = pm_out pm @ [PathCloseWait r]"
    "pm_pathConfs (remove_and_close r pm) = pm_pathConfs pm" "pm_next (remove_and_close r pm) = pm_next pm"
proof -
  have "((table pm)(pr_name r := None)) n = without (\<lambda>r'. r' = r) (table pm) n" for n
  proof (cases "n = pr_name r")
    case True
    with assms(2) show ?thesis by (simp add: without_def)
  next
    case False
    with index_invD(4) [OF assms(1), of n r] have "table pm n \<noteq> Some r" by blast
    with False show ?thesis by (simp add: without_def split: option.split)
  qed
  then show "table (remove_and_close r pm) = without (\<lambda>r'. r' = r) (table pm)"
    by (simp add: remove_and_close_def fun_eq_iff)
qed (use removePath_index [OF assms] in \<open>simp_all add: remove_and_close_def\<close>)

lemma close_all_others:
  "\<forall>r \<in> set rs. pr_confName r \<noteq> c \<Longrightarrow> paths_of (fold remove_and_close rs pm) c = paths_of pm c"
  by (induction rs arbitrary: pm) (auto simp: remove_and_close_def)

lemma close_all:
  assumes "index_inv pm" "distinct rs" "\<forall>r \<in> set rs. table pm (pr_name r) = Some r"
  shows "index_inv (fold remove_and_close rs pm) \<and>
    table (fold remove_and_close rs pm) = without (\<lambda>r. r \<in> set rs) (table pm) \<and>
    pm_out (fold remove_and_close rs pm) = pm_out pm @ map PathCloseWait rs \<and>
    pm_pathConfs (fold remove_and_close rs pm) = pm_pathConfs pm \<and> pm_next (fold remove_and_close rs pm) = pm_next pm"
  using assms
proof (induction rs arbitrary: pm)
  case (Cons r rs)
  from Cons.prems(3) have "table pm (pr_name r) = Some r" by simp
  note rc = remove_and_close_simps [OF Cons.prems(1) this]
  have "\<forall>r' \<in> set rs. table (remove_and_close r pm) (pr_name r') = Some r'"
    unfolding rc(2) without_Some using Cons.prems(2,3) by auto
  from Cons.IH [OF rc(1) _ this] Cons.prems(2) show ?case
    by (simp add: rc without_without disj_commute)
qed (simp add: without_none)

lemma fold_pm_emit: "fold (\<lambda>x. pm_emit (g x)) xs pm = pm\<lparr>pm_out := pm_out pm @ map g xs\<rparr>"
  by (induction xs arbitrary: pm) (simp_all add: pm_emit_def)

definition entry_out :: "fate \<Rightarrow> path_ref list \<Rightarrow> pm_out list" where
  "entry_out f rs = (case f of Kept \<Rightarrow> [] | Updated c \<Rightarrow> map (\<lambda>r. PathReloadConf r c) rs | Gone \<Rightarrow> map PathCloseWait rs)"

lemma reload_entry:
  assumes "index_inv pm"
  shows "index_inv (reload_conf_entry new e pm) \<and>
    table (reload_conf_entry new e pm) =
      without (\<lambda>r. pr_confName r = fst e \<and> conf_fate new e = Gone) (table pm) \<and>
    pm_out (reload_conf_entry new e pm) = pm_out pm @ entry_out (conf_fate new e) (paths_of pm (fst e)) \<and>
    pm_pathConfs (reload_conf_entry new e pm) = pm_pathConfs pm \<and> pm_next (reload_conf_entry new e pm) = pm_next pm"
proof -
  obtain c cnf where e: "e = (c, cnf)" by fastforce
  let ?rs = "paths_of pm c"
  have rs: "distinct ?rs" "\<forall>r \<in> set ?rs. table pm (pr_name r) = Some r" using index_invD(1,2) [OF assms] by blast+
  have mem: "r \<in> set ?rs \<longleftrightarrow> pr_confName r = c" if "table pm n = Some r" for n r
    using index_invD(1) [OF assms, of r c] index_invD(4) [OF assms that] that by simp
  note gone = close_all [OF assms rs]
  consider "conf_fate new e = Kept" | d where "conf_fate new e = Updated d" | "conf_fate new e = Gone"
    by (cases "conf_fate new e")
  then show ?thesis
  proof cases
    case 1
    then have "reload_conf_entry new e pm = pm"
      by (auto simp: e conf_fate_def reload_conf_entry_def PathConf_Equal_def CanBeUpdated_iff split: option.splits if_splits)
    with 1 assms show ?thesis by (simp add: entry_out_def without_none)
  next
    case 2
    then have "reload_conf_entry new e pm = pm\<lparr>pm_out := pm_out pm @ map (\<lambda>r. PathReloadConf r d) ?rs\<rparr>"
      by (auto simp: e conf_fate_def reload_conf_entry_def PathConf_Equal_def CanBeUpdated_iff fold_pm_emit split: option.splits if_splits)
    with 2 assms show ?thesis by (simp add: e entry_out_def without_none)
  next
    case 3
    then have "reload_conf_entry new e pm = fold remove_and_close ?rs pm"
      by (auto simp: e conf_fate_def reload_conf_entry_def PathConf_Equal_def CanBeUpdated_iff split: option.splits if_splits)
    moreover have "without (\<lambda>r. r \<in> set ?rs) (table pm) = without (\<lambda>r. pr_confName r = c) (table pm)"
      by (rule without_cong) (rule mem)
    ultimately show ?thesis using 3 gone by (simp add: e entry_out_def)
  qed
qed

lemma reload_entry_others:
  assumes "index_inv pm" "c \<noteq> fst e"
  shows "paths_of (reload_conf_entry new e pm) c = paths_of pm c"
proof -
  obtain d cnf where e: "e = (d, cnf)" by fastforce
  have "\<forall>r \<in> set (paths_of pm d). pr_confName r \<noteq> c" using index_invD(1) [OF assms(1)] assms(2) e by auto
  from close_all_others [OF this, of pm] show ?thesis
    by (auto simp: e reload_conf_entry_def fold_pm_emit paths_of_def split: option.splits)
qed

definition gone :: "(string \<times> PathConf) list \<Rightarrow> (string \<times> PathConf) list \<Rightarrow> path_ref \<Rightarrow> bool" where
  "gone new old r \<longleftrightarrow> (\<exists>e \<in> set old. pr_confName r = fst e \<and> conf_fate new e = Gone)"

lemma fold_reload:
  assumes "index_inv pm" "distinct (map fst es)"
  shows "index_inv (fold (reload_conf_entry new) es pm) \<and>
    table (fold (reload_conf_entry new) es pm) = without (gone new es) (table pm) \<and>
    pm_out (fold (reload_conf_entry new) es pm) =
      pm_out pm @ concat (map (\<lambda>e. entry_out (conf_fate new e) (paths_of pm (fst e))) es) \<and>
    pm_pathConfs (fold (reload_conf_entry new) es pm) = pm_pathConfs pm \<and>
    pm_next (fold (reload_conf_entry new) es pm) = pm_next pm"
  using assms
proof (induction es arbitrary: pm)
  case (Cons e es)
  note en = reload_entry [OF Cons.prems(1), of new e]
  have "gone new (e # es) = (\<lambda>r. gone new es r \<or> pr_confName r = fst e \<and> conf_fate new e = Gone)"
    by (auto simp: gone_def fun_eq_iff)
  moreover have "map (\<lambda>e'. entry_out (conf_fate new e') (paths_of (reload_conf_entry new e pm) (fst e'))) es =
      map (\<lambda>e'. entry_out (conf_fate new e') (paths_of pm (fst e'))) es"
  proof (rule map_cong [OF refl])
    fix e' assume "e' \<in> set es"
    then have "fst e' \<in> fst ` set es" by (rule imageI)
    moreover have "fst e \<notin> fst ` set es" using Cons.prems(2) by simp
    ultimately have "fst e' \<noteq> fst e" by metis
    then show "entry_out (conf_fate new e') (paths_of (reload_conf_entry new e pm) (fst e')) =
        entry_out (conf_fate new e') (paths_of pm (fst e'))"
      by (simp add: reload_entry_others [OF Cons.prems(1)])
  qed
  ultimately show ?case using Cons.IH [of "reload_conf_entry new e pm"] en Cons.prems(2)
    by (simp add: without_without del: map_eq_conv)
qed (simp add: without_none gone_def)

text \<open>Paths are added, never replaced.\<close>

definition grown :: "pathManager \<Rightarrow> (string \<times> PathConf) list \<Rightarrow> pathManager \<Rightarrow> bool" where
  "grown pm cs pm' \<longleftrightarrow> index_inv pm' \<and> pm_pathConfs pm' = pm_pathConfs pm \<and> pm_next pm \<le> pm_next pm' \<and>
     (\<forall>n r. table pm n = Some r \<longrightarrow> table pm' n = Some r) \<and>
     (\<forall>n r. table pm' n = Some r \<longrightarrow> table pm n = Some r \<or> pr_confName r = n \<and> n \<in> fst ` set cs \<and> pm_next pm \<le> pr_id r) \<and>
     (\<forall>n c. (n, c) \<in> set cs \<longrightarrow> pc_Regexp c = None \<longrightarrow> table pm' n \<noteq> None) \<and>
     (\<exists>outs. pm_out pm' = pm_out pm @ outs \<and> (\<forall>out \<in> set outs. \<exists>r c. out = PathNew r c []))"

lemma grownD:
  assumes "grown pm cs pm'"
  shows "index_inv pm'" "pm_pathConfs pm' = pm_pathConfs pm" "pm_next pm \<le> pm_next pm'"
    "table pm n = Some r \<Longrightarrow> table pm' n = Some r"
    "table pm' n = Some r \<Longrightarrow> table pm n = Some r \<or> pr_confName r = n \<and> n \<in> fst ` set cs \<and> pm_next pm \<le> pr_id r"
    "(n, c) \<in> set cs \<Longrightarrow> pc_Regexp c = None \<Longrightarrow> table pm' n \<noteq> None"
    "\<exists>outs. pm_out pm' = pm_out pm @ outs \<and> (\<forall>out \<in> set outs. \<exists>r c. out = PathNew r c [])"
  using assms unfolding grown_def by blast+

lemma add_static_path_grown:
  assumes "index_inv pm"
  shows "grown pm [e] (add_static_path e pm)"
proof -
  obtain n c where e: "e = (n, c)" by fastforce
  show ?thesis
  proof (cases "table pm n = None \<and> pc_Regexp c = None")
    case False
    then have "add_static_path e pm = pm" by (auto simp: add_static_path_def e)
    with False assms show ?thesis by (auto simp: grown_def e)
  next
    case True
    then have "add_static_path e pm = createPath n c n [] pm" by (simp add: add_static_path_def e)
    with True createPath_index [OF assms, of n n c "[]"] show ?thesis by (auto simp: grown_def e)
  qed
qed

lemma grown_trans:
  assumes a: "grown pm [e] pm1" and b: "grown pm1 cs pm2"
  shows "grown pm (e # cs) pm2"
proof -
  obtain outs outs' where "pm_out pm1 = pm_out pm @ outs" "\<forall>out \<in> set outs. \<exists>r c. out = PathNew r c []"
      "pm_out pm2 = pm_out pm1 @ outs'" "\<forall>out \<in> set outs'. \<exists>r c. out = PathNew r c []"
    using grownD(7) [OF a] grownD(7) [OF b] by blast
  then have "\<exists>outs. pm_out pm2 = pm_out pm @ outs \<and> (\<forall>out \<in> set outs. \<exists>r c. out = PathNew r c [])"
    by (intro exI [of _ "outs @ outs'"]) auto
  moreover have "table pm n = Some r \<or> pr_confName r = n \<and> n \<in> fst ` set (e # cs) \<and> pm_next pm \<le> pr_id r"
    if "table pm2 n = Some r" for n r
    using grownD(5) [OF b that] grownD(5) [OF a, of n r] grownD(3) [OF a] by auto
  moreover have "table pm2 n \<noteq> None" if "(n, c) \<in> set (e # cs)" "pc_Regexp c = None" for n c
    using that grownD(6) [OF b, of n c] grownD(6) [OF a, of n c] grownD(4) [OF b] by auto
  ultimately show ?thesis
    unfolding grown_def using grownD(1-4) [OF b] grownD(2-4) [OF a] by auto
qed

lemma add_static: "index_inv pm \<Longrightarrow> grown pm cs (fold add_static_path cs pm)"
proof (induction cs arbitrary: pm)
  case (Cons e cs)
  note a = add_static_path_grown [OF Cons.prems, of e]
  from grown_trans [OF a Cons.IH [OF grownD(1) [OF a]]] show ?case by simp
qed (simp add: grown_def)

section \<open>Every event keeps the invariant\<close>

definition reload_entries :: "(string \<times> PathConf) list \<Rightarrow> pathManager \<Rightarrow> pathManager" where
  "reload_entries new pm = (fold (reload_conf_entry new) (pm_pathConfs pm) pm)\<lparr>pm_pathConfs := new\<rparr>"

lemma paths_of_confs [simp]: "paths_of (pm\<lparr>pm_pathConfs := cs\<rparr>) = paths_of pm"
  by (simp add: paths_of_def [abs_def])

lemma index_inv_confs [simp]: "index_inv (pm\<lparr>pm_pathConfs := cs\<rparr>) = index_inv pm"
  by (simp add: index_inv_def)

lemma handle_confReload_eq: "handle_confReload new pm = fold add_static_path new (reload_entries new pm)"
  by (simp add: handle_confReload_def reload_entries_def Let_def)

lemma reload_entries_facts:
  assumes "pm_inv pm"
  shows "index_inv (reload_entries new pm)" "pm_pathConfs (reload_entries new pm) = new"
    "table (reload_entries new pm) = without (gone new (pm_pathConfs pm)) (table pm)"
    "pm_out (reload_entries new pm) =
       pm_out pm @ concat (map (\<lambda>e. entry_out (conf_fate new e) (paths_of pm (fst e))) (pm_pathConfs pm))"
    "pm_next (reload_entries new pm) = pm_next pm"
proof -
  have "index_inv pm" "distinct (map fst (pm_pathConfs pm))" using assms by (simp_all add: pm_inv_def)
  note f = fold_reload [OF this, of new]
  then show "index_inv (reload_entries new pm)" "pm_pathConfs (reload_entries new pm) = new"
    "table (reload_entries new pm) = without (gone new (pm_pathConfs pm)) (table pm)"
    "pm_out (reload_entries new pm) =
       pm_out pm @ concat (map (\<lambda>e. entry_out (conf_fate new e) (paths_of pm (fst e))) (pm_pathConfs pm))"
    "pm_next (reload_entries new pm) = pm_next pm"
    by (simp_all add: reload_entries_def)
qed

lemma conf_fate_not_Gone: "conf_fate new e \<noteq> Gone \<Longrightarrow> fst e \<in> fst ` set new"
  by (cases e) (force simp: conf_fate_def dest: map_of_SomeD split: option.splits)

lemma conf_of:
  assumes "pm_inv pm" "table pm n = Some r"
  obtains cnf where "(pr_confName r, cnf) \<in> set (pm_pathConfs pm)" "map_of (pm_pathConfs pm) (pr_confName r) = Some cnf"
  using assms by (force simp: pm_inv_def)

lemma handle_confReload_inv:
  assumes "pm_inv pm" "distinct (map fst new)"
  shows "pm_inv (handle_confReload new pm)"
proof -
  note f = reload_entries_facts [OF assms(1), of new]
  note g = add_static [OF f(1), of new]
  have "pr_confName r \<in> fst ` set new" if t: "table (handle_confReload new pm) n = Some r" for n r
    using grownD(5) [OF g t [unfolded handle_confReload_eq]]
  proof
    assume "table (reload_entries new pm) n = Some r"
    then have r: "table pm n = Some r" "\<not> gone new (pm_pathConfs pm) r" by (simp_all add: f(3) without_Some)
    obtain cnf where "(pr_confName r, cnf) \<in> set (pm_pathConfs pm)" using conf_of [OF assms(1) r(1)] by blast
    with r(2) have "conf_fate new (pr_confName r, cnf) \<noteq> Gone" unfolding gone_def by force
    from conf_fate_not_Gone [OF this] show ?thesis by simp
  qed simp
  with grownD(1,2) [OF g] assms(2) f(2) show ?thesis by (simp add: pm_inv_def handle_confReload_eq)
qed

definition pm_empty :: "(string \<times> PathConf) list \<Rightarrow> pathManager" where
  "pm_empty cs =
     \<lparr>pm_pathConfs = cs, pm_hlsServer = False, pm_paths = [], pm_pathsByConf = [], pm_next = 0, pm_out = []\<rparr>"

lemma new_fold:
  assumes "distinct (map fst cs)" "\<forall>n \<in> fst ` set cs. table pm n = None"
  shows "fold (\<lambda>(name, c) pm. if pc_Regexp c = None then createPath name c name [] pm else pm) cs pm =
    fold add_static_path cs pm"
  using assms
proof (induction cs arbitrary: pm)
  case (Cons e cs)
  obtain n c where e: "e = (n, c)" by fastforce
  have "\<forall>m \<in> fst ` set cs. table (add_static_path e pm) m = None"
    using Cons.prems by (auto simp: e add_static_path_def)
  moreover have "(case e of (name, c) \<Rightarrow> \<lambda>pm. if pc_Regexp c = None then createPath name c name [] pm else pm) pm = add_static_path e pm"
    using Cons.prems(2) by (simp add: e add_static_path_def)
  ultimately show ?case using Cons.IH [of "add_static_path e pm"] Cons.prems(1) by simp
qed simp

lemma newPathManager_eq: "distinct (map fst cs) \<Longrightarrow> newPathManager cs = fold add_static_path cs (pm_empty cs)"
  unfolding newPathManager_def pm_empty_def by (rule new_fold) simp_all

lemma newPathManager_inv:
  assumes "distinct (map fst cs)"
  shows "pm_inv (newPathManager cs)"
proof -
  have "index_inv (pm_empty cs)" by (simp add: index_inv_def pm_empty_def paths_of_def)
  note g = add_static [OF this, of cs]
  show ?thesis
    unfolding newPathManager_eq [OF assms] pm_inv_def
    using grownD(1,2) [OF g] grownD(5) [OF g] assms by (auto simp: pm_empty_def)
qed

fun pm_enabled :: "pm_event \<Rightarrow> pathManager \<Rightarrow> bool" where
  "pm_enabled (PmConfReload new) pm \<longleftrightarrow> distinct (map fst new)"
| "pm_enabled _ pm \<longleftrightarrow> True"

lemma removePath_inv:
  assumes "pm_inv pm" "table pm (pr_name pa) = Some pa"
  shows "pm_inv (removePath pa pm)"
  using assms removePath_index [of pm pa] by (auto simp: pm_inv_def split: if_splits)

lemma pm_hls_inv [simp]: "pm_inv (pm\<lparr>pm_hlsServer := s\<rparr>) = pm_inv pm"
  by (simp add: pm_inv_def index_inv_def paths_of_def)

lemma pm_select_inv:
  assumes "pm_inv pm" "pm_enabled ev pm"
  shows "pm_inv (pm_select lib ev pm)"
proof (cases ev)
  case (PmDescribe req name auth)
  with get_path_inv [OF assms(1), of lib read_cred auth name] show ?thesis
    by (simp add: handle_describe_def case_prod_beta Let_def)
next
  case (PmReaderAdd req name auth)
  with get_path_inv [OF assms(1), of lib read_cred auth name] show ?thesis
    by (simp add: handle_readerAdd_def case_prod_beta Let_def)
next
  case (PmPublisherAdd req name auth)
  with get_path_inv [OF assms(1), of lib publish_cred "Some auth" name] show ?thesis
    by (simp add: handle_publisherAdd_def case_prod_beta Let_def)
qed (use assms handle_confReload_inv removePath_inv in simp_all)

definition pm_step :: "golib \<Rightarrow> pm_event \<Rightarrow> pathManager \<Rightarrow> pathManager option" where
  "pm_step lib ev pm = Some (pm_select lib ev pm)"

interpretation pm_machine: machine pm_enabled "pm_step lib" pm_inv for lib
  by unfold_locales (simp add: pm_step_def pm_select_inv)

end
