(* ===== verification/PathOps.thy ===== *)
theory PathOps
  imports Path
begin

text \<open>
  Closed forms of the operations of a path, and the case distinctions over its kinds and its invariant.
\<close>

section \<open>What the operations compute\<close>

lemma fold_emit: "fold (\<lambda>x. emit (g x)) xs pa = pa\<lparr>pa_out := pa_out pa @ map g xs\<rparr>"
  by (induction xs arbitrary: pa) (simp_all add: emit_def)

lemma fold_reader_close:
  "fold (\<lambda>r pa. emit (ReaderClose r) (doReaderRemove r pa)) xs pa =
     pa\<lparr>pa_readers := filter (\<lambda>r. r \<notin> set xs) (pa_readers pa), pa_out := pa_out pa @ map ReaderClose xs\<rparr>"
proof (induction xs arbitrary: pa)
  case (Cons x xs)
  have "filter (\<lambda>r. r \<notin> set xs) (removeAll x rs) = filter (\<lambda>r. r \<notin> set (x # xs)) rs" for rs
    by (auto simp: removeAll_filter_not_eq intro: filter_cong)
  with Cons show ?case by (simp add: emit_def doReaderRemove_def)
qed simp

definition not_ready_out :: "path \<Rightarrow> path_out list" where
  "not_ready_out pa =
     [ParentSourceNotReady] @ map ReaderClose (pa_readers pa) @ (if pa_onReadyCmd pa then [CmdClose OnReadyCmd] else []) @
     (if pa_stream pa \<noteq> None then [StreamClose] else [])"

lemma sourceSetNotReady_eq:
  "sourceSetNotReady pa =
     pa\<lparr>pa_readers := [], pa_onReadyCmd := False, pa_stream := None, pa_out := pa_out pa @ not_ready_out pa\<rparr>"
proof -
  have "filter (\<lambda>r. r \<notin> set (pa_readers pa)) (pa_readers pa) = []" by (simp add: filter_empty_conv)
  then show ?thesis
    unfolding sourceSetNotReady_def Let_def fold_reader_close
    by (cases pa) (simp add: not_ready_out_def emit_def)
qed

text \<open>Stopping an on-demand publisher, when the source of the path is none or a publisher.\<close>

definition stop_cmd_out :: "path \<Rightarrow> path_out list" where
  "stop_cmd_out pa = (if pa_onDemandCmd pa then [CmdClose OnDemandCmd] else [])"

definition source_close_out :: "path \<Rightarrow> path_out list" where
  "source_close_out pa = (case pa_source pa of Some (SourcePublisher p) \<Rightarrow> [PublisherClose p] | _ \<Rightarrow> [])"

definition unset_out :: "path \<Rightarrow> path_out list" where
  "unset_out pa = (if pa_stream pa \<noteq> None then not_ready_out pa else [])"

lemma doPublisherRemove_initial:
  assumes "pa_onDemandPublisherState pa = pathOnDemandStateInitial"
  shows "doPublisherRemove pa = Some ((if pa_stream pa \<noteq> None then sourceSetNotReady pa else pa)\<lparr>pa_source := None\<rparr>)"
  using assms by (simp add: doPublisherRemove.simps)

lemma onDemandPublisherStop_eq:
  assumes "pa_source pa = None \<and> pa_stream pa = None \<or> (\<exists>p. pa_source pa = Some (SourcePublisher p))"
    and "pa_stream pa = None \<longrightarrow> pa_readers pa = [] \<and> \<not> pa_onReadyCmd pa"
  shows "onDemandPublisherStop pa =
    Some (pa\<lparr>pa_source := None, pa_stream := None, pa_readers := [], pa_onReadyCmd := False, pa_onDemandCmd := False,
      pa_onDemandPublisherState := pathOnDemandStateInitial,
      pa_onDemandPublisherCloseTimer :=
        (if pa_onDemandPublisherState pa = pathOnDemandStateClosing then None else pa_onDemandPublisherCloseTimer pa),
      pa_out := pa_out pa @ source_close_out pa @ unset_out pa @ stop_cmd_out pa\<rparr>)"
  using assms
  by (cases pa; cases "pa_stream pa"; cases "pa_onDemandCmd pa")
    (auto simp: onDemandPublisherStop.simps Let_def doPublisherRemove_initial emit_def sourceSetNotReady_eq
      not_ready_out_def source_close_out_def unset_out_def stop_cmd_out_def)

lemma accept_readers_eq:
  assumes "pa_stream pa = Some s"
  shows "accept_readers reqs pa =
    Some ((if reqs = [] then pa else keep_open pa)
      \<lparr>pa_readers := fold List.insert (map ra_author reqs) (pa_readers pa),
       pa_out := pa_out pa @ map (\<lambda>req. ReaderAddRes (ra_id req) (Inr s)) reqs\<rparr>)"
  using assms
proof (induction reqs arbitrary: pa)
  case (Cons req reqs)
  let ?pa = "emit (ReaderAddRes (ra_id req) (Inr s)) (keep_open (pa\<lparr>pa_readers := List.insert (ra_author req) (pa_readers pa)\<rparr>))"
  have h: "handleReaderAddPost req pa = Some ?pa" "pa_stream ?pa = Some s"
    using Cons.prems by (simp_all add: handleReaderAddPost_def keep_open_def emit_def Let_def)
  show ?case
    using Cons.IH [OF h(2)] h(1) by (simp add: keep_open_def emit_def)
qed simp

definition served :: "stream \<Rightarrow> path \<Rightarrow> path" where
  "served s pa =
     (if pa_readerAddRequestsOnHold pa = [] then pa else keep_open pa)
      \<lparr>pa_readers := fold List.insert (map ra_author (pa_readerAddRequestsOnHold pa)) (pa_readers pa),
       pa_describeRequestsOnHold := [], pa_readerAddRequestsOnHold := [],
       pa_out := pa_out pa @
         map (\<lambda>req. DescribeRes (dr_id req) (Inr (DescribeStream s))) (pa_describeRequestsOnHold pa) @
         map (\<lambda>req. ReaderAddRes (ra_id req) (Inr s)) (pa_readerAddRequestsOnHold pa)\<rparr>"

lemma serve_on_hold_eq:
  assumes "pa_stream pa = Some s"
  shows "serve_on_hold pa = Some (served s pa)" and "pa_stream (served s pa) = Some s"
  using assms
  by (simp_all add: serve_on_hold_def served_def answer_describes_def fold_emit accept_readers_eq keep_open_def)

lemma fail_on_hold_eq:
  "fail_on_hold err pa =
     pa\<lparr>pa_describeRequestsOnHold := [], pa_readerAddRequestsOnHold := [],
        pa_out := pa_out pa @ map (\<lambda>req. DescribeRes (dr_id req) (Inl err)) (pa_describeRequestsOnHold pa) @
          map (\<lambda>req. ReaderAddRes (ra_id req) (Inl err)) (pa_readerAddRequestsOnHold pa)\<rparr>"
  by (simp add: fail_on_hold_def answer_describes_def reject_readers_def fold_emit)

section \<open>Configurations\<close>

text \<open>The five kinds of paths.\<close>

lemma conf_cases:
  assumes "pathconf_valid c"
  obtains (redirect) "pc_Source c = ''redirect''" "\<not> HasStaticSource c" "\<not> HasOnDemandStaticSource c" "\<not> HasOnDemandPublisher c"
    | (static) "HasStaticSource c" "\<not> pc_SourceOnDemand c" "\<not> HasOnDemandStaticSource c" "\<not> HasOnDemandPublisher c"
        "pc_Source c \<noteq> ''publisher''" "pc_Source c \<noteq> ''redirect''"
    | (static_od) "HasStaticSource c" "pc_SourceOnDemand c" "HasOnDemandStaticSource c" "\<not> HasOnDemandPublisher c"
        "pc_Source c \<noteq> ''publisher''" "pc_Source c \<noteq> ''redirect''"
    | (publisher) "pc_Source c = ''publisher''" "\<not> HasStaticSource c" "\<not> HasOnDemandStaticSource c" "\<not> HasOnDemandPublisher c"
    | (publisher_od) "pc_Source c = ''publisher''" "\<not> HasStaticSource c" "\<not> HasOnDemandStaticSource c" "HasOnDemandPublisher c"
proof -
  have tri: "pc_Source c = ''publisher'' \<or> pc_Source c = ''redirect'' \<or> HasStaticSource c"
    and pub: "HasOnDemandPublisher c \<Longrightarrow> pc_Source c = ''publisher''"
    and od: "HasOnDemandStaticSource c \<longleftrightarrow> HasStaticSource c \<and> pc_SourceOnDemand c"
    using assms unfolding pathconf_valid_def HasOnDemandStaticSource_def by blast+
  have differ: "''redirect'' \<noteq> ''publisher''" by simp
  have excl: "pc_Source c \<noteq> ''publisher''" "pc_Source c \<noteq> ''redirect''" if "HasStaticSource c"
    using not_static [of c] that by blast+
  show thesis
  proof (cases "HasStaticSource c")
    case True
    with excl pub od static static_od show thesis by blast
  next
    case False
    with tri consider "pc_Source c = ''publisher''" | "pc_Source c = ''redirect''" "pc_Source c \<noteq> ''publisher''"
      using differ by metis
    then show thesis using False pub od redirect publisher publisher_od by cases blast+
  qed
qed

lemmas path_inv_parts = static_inv_def publisher_inv_def publisher_source_def
  static_idle_def publisher_idle_def on_hold_def base_inv_def

lemmas path_inv_defs = path_inv_def plain_source_def path_inv_parts

section \<open>The parts of the invariant\<close>

lemma emit_simps [simp]:
  "pa_conf (emit out pa) = pa_conf pa" "pa_source (emit out pa) = pa_source pa"
  "pa_stream (emit out pa) = pa_stream pa" "pa_readers (emit out pa) = pa_readers pa"
  "pa_describeRequestsOnHold (emit out pa) = pa_describeRequestsOnHold pa"
  "pa_readerAddRequestsOnHold (emit out pa) = pa_readerAddRequestsOnHold pa"
  "pa_onDemandCmd (emit out pa) = pa_onDemandCmd pa" "pa_onReadyCmd (emit out pa) = pa_onReadyCmd pa"
  "pa_onDemandStaticSourceState (emit out pa) = pa_onDemandStaticSourceState pa"
  "pa_onDemandStaticSourceReadyTimer (emit out pa) = pa_onDemandStaticSourceReadyTimer pa"
  "pa_onDemandStaticSourceCloseTimer (emit out pa) = pa_onDemandStaticSourceCloseTimer pa"
  "pa_onDemandPublisherState (emit out pa) = pa_onDemandPublisherState pa"
  "pa_onDemandPublisherReadyTimer (emit out pa) = pa_onDemandPublisherReadyTimer pa"
  "pa_onDemandPublisherCloseTimer (emit out pa) = pa_onDemandPublisherCloseTimer pa"
  "pa_name (emit out pa) = pa_name pa" "pa_onInitCmd (emit out pa) = pa_onInitCmd pa"
  "pa_out (emit out pa) = pa_out pa @ [out]"
  by (simp_all add: emit_def)

lemma path_inv_emit [simp]: "path_inv (emit out pa) = path_inv pa"
  unfolding path_inv_defs emit_simps ..

lemma path_inv_valid: "path_inv pa \<Longrightarrow> pathconf_valid (pa_conf pa)"
  by (simp add: path_inv_def base_inv_def)

lemma path_inv_base: "path_inv pa \<Longrightarrow> base_inv pa"
  by (simp add: path_inv_def)

lemma path_inv_cases [consumes 1, case_names static publisher plain]:
  assumes "path_inv pa"
    and "HasOnDemandStaticSource (pa_conf pa) \<Longrightarrow> base_inv pa \<Longrightarrow> static_inv pa \<Longrightarrow> publisher_idle pa \<Longrightarrow> thesis"
    and "\<not> HasOnDemandStaticSource (pa_conf pa) \<Longrightarrow> HasOnDemandPublisher (pa_conf pa) \<Longrightarrow>
      base_inv pa \<Longrightarrow> static_idle pa \<Longrightarrow> publisher_inv pa \<Longrightarrow> thesis"
    and "\<not> HasOnDemandStaticSource (pa_conf pa) \<Longrightarrow> \<not> HasOnDemandPublisher (pa_conf pa) \<Longrightarrow>
      base_inv pa \<Longrightarrow> plain_source pa \<Longrightarrow> static_idle pa \<Longrightarrow> publisher_idle pa \<Longrightarrow> \<not> on_hold pa \<Longrightarrow> thesis"
  shows thesis
  using assms unfolding path_inv_def by meson

lemma plain_source_cong:
  "pa_conf pa' = pa_conf pa \<Longrightarrow> pa_source pa' = pa_source pa \<Longrightarrow> pa_stream pa' = pa_stream pa \<Longrightarrow>
   plain_source pa' = plain_source pa"
  unfolding plain_source_def publisher_source_def by simp

lemma plain_source_emit [simp]: "plain_source (emit out pa) = plain_source pa"
  by (rule plain_source_cong) simp_all

end
