(* ===== verification/PathInv.thy ===== *)
theory PathInv
  imports PathOps Machine
begin

text \<open>
  The invariant of a path: every event that can happen preserves it, and no handler panics.
\<close>

section \<open>Every handler keeps the invariant\<close>

lemma path_inv_staticI:
  "HasOnDemandStaticSource (pa_conf pa) \<Longrightarrow> base_inv pa \<Longrightarrow> static_inv pa \<Longrightarrow> publisher_idle pa \<Longrightarrow> path_inv pa"
  by (simp add: path_inv_def)

lemma path_inv_publisherI:
  "\<not> HasOnDemandStaticSource (pa_conf pa) \<Longrightarrow> HasOnDemandPublisher (pa_conf pa) \<Longrightarrow>
   base_inv pa \<Longrightarrow> static_idle pa \<Longrightarrow> publisher_inv pa \<Longrightarrow> path_inv pa"
  by (simp add: path_inv_def)

lemma path_inv_plainI:
  "\<not> HasOnDemandStaticSource (pa_conf pa) \<Longrightarrow> \<not> HasOnDemandPublisher (pa_conf pa) \<Longrightarrow>
   base_inv pa \<Longrightarrow> plain_source pa \<Longrightarrow> static_idle pa \<Longrightarrow> publisher_idle pa \<Longrightarrow> \<not> on_hold pa \<Longrightarrow> path_inv pa"
  by (simp add: path_inv_def)

lemma path_init_inv:
  assumes "pathconf_valid cnf"
  shows "\<exists>pa. path_init lib (newPath rtsp sz confName cnf name matches) = Some pa \<and> path_inv pa"
  using assms
  by (cases rule: conf_cases)
    (use assms in \<open>simp_all add: path_init_def newPath_def sourceStatic_start_def emit_def path_inv_defs\<close>)

lemma onDemandStaticSourceStart_inv:
  assumes "path_inv pa" "HasOnDemandStaticSource (pa_conf pa)" "pa_stream pa = None"
  shows "\<exists>pa'. (if pa_onDemandStaticSourceState pa = pathOnDemandStateInitial
      then onDemandStaticSourceStart pa else Some pa) = Some pa' \<and> path_inv pa' \<and>
    pa_conf pa' = pa_conf pa \<and> pa_onDemandStaticSourceState pa' = pathOnDemandStateWaitingReady"
proof -
  from assms have i: "base_inv pa" "static_inv pa" "publisher_idle pa" by (simp_all add: path_inv_def)
  show ?thesis
  proof (cases "pa_onDemandStaticSourceState pa")
    case pathOnDemandStateInitial
    with i show ?thesis
      by (auto intro!: path_inv_staticI
          simp: onDemandStaticSourceStart_def sourceStatic_start_def path_inv_parts assms(2))
  next
    case pathOnDemandStateWaitingReady
    with assms(1) show ?thesis by simp
  qed (use i assms(3) in \<open>simp_all add: static_inv_def\<close>)
qed

lemma onDemandPublisherStart_inv:
  assumes "path_inv pa" "\<not> HasOnDemandStaticSource (pa_conf pa)" "HasOnDemandPublisher (pa_conf pa)" "pa_stream pa = None"
    and "pa' = (if pa_onDemandPublisherState pa = pathOnDemandStateInitial
      then onDemandPublisherStart lib pa else pa)"
  shows "path_inv pa' \<and> pa_conf pa' = pa_conf pa \<and> pa_onDemandPublisherState pa' = pathOnDemandStateWaitingReady"
proof -
  from assms have i: "base_inv pa" "static_idle pa" "publisher_inv pa" by (simp_all add: path_inv_def)
  show ?thesis
  proof (cases "pa_onDemandPublisherState pa")
    case pathOnDemandStateInitial
    then have "path_inv (onDemandPublisherStart lib pa)"
      using i assms(2-4)
      by (intro path_inv_publisherI) (simp_all add: onDemandPublisherStart_def path_inv_parts)
    with pathOnDemandStateInitial show ?thesis by (simp add: assms(5) onDemandPublisherStart_def)
  next
    case pathOnDemandStateWaitingReady
    with assms(1,5) show ?thesis by simp
  qed (use i assms(4) in \<open>simp_all add: publisher_inv_def\<close>)
qed

lemma hold_inv:
  assumes "path_inv pa"
    and "HasOnDemandStaticSource (pa_conf pa) \<and> pa_onDemandStaticSourceState pa = pathOnDemandStateWaitingReady \<or>
      \<not> HasOnDemandStaticSource (pa_conf pa) \<and>
      HasOnDemandPublisher (pa_conf pa) \<and> pa_onDemandPublisherState pa = pathOnDemandStateWaitingReady"
  shows "path_inv (hold_describe req pa)" "path_inv (hold_reader req' pa)"
  using assms(2) assms(1)
  by (auto simp: hold_describe_def hold_reader_def path_inv_def path_inv_parts)

lemma on_demand_cases:
  obtains (static) "HasOnDemandStaticSource c"
    | (publisher) "\<not> HasOnDemandStaticSource c" "HasOnDemandPublisher c"
    | (plain) "\<not> HasOnDemandStaticSource c" "\<not> HasOnDemandPublisher c"
  by blast

lemma handleDescribe_inv:
  assumes "path_inv pa"
  shows "\<exists>pa'. handleDescribe lib req pa = Some pa' \<and> path_inv pa'"
proof (cases "pa_source pa = Some SourceRedirect \<or> pa_stream pa \<noteq> None")
  case True
  with assms show ?thesis by (auto simp: handleDescribe_def)
next
  case False
  then have none: "pa_stream pa = None" by simp
  show ?thesis
  proof (cases rule: on_demand_cases [of "pa_conf pa"])
    case static
    from onDemandStaticSourceStart_inv [OF assms static none] show ?thesis
      using False static by (auto simp: handleDescribe_def hold_inv)
  next
    case publisher
    from onDemandPublisherStart_inv [OF assms publisher none refl, of lib] show ?thesis
      using False publisher by (simp add: handleDescribe_def hold_inv)
  next
    case plain
    with False assms show ?thesis by (simp add: handleDescribe_def)
  qed
qed

lemma insert_Nil_iff: "List.insert x xs \<noteq> []"
  by (simp add: List.insert_def) auto

lemma handleReaderAddPost_inv:
  assumes "path_inv pa" "pa_stream pa = Some s"
  shows "\<exists>pa'. handleReaderAddPost req pa = Some pa' \<and> path_inv pa'"
proof -
  let ?pa = "pa\<lparr>pa_readers := List.insert (ra_author req) (pa_readers pa)\<rparr>"
  from assms(1) have "path_inv (keep_open ?pa)"
  proof (cases rule: path_inv_cases)
    case static
    with assms(2) show ?thesis
      by (cases "pa_onDemandStaticSourceState pa")
        (auto intro!: path_inv_staticI simp: keep_open_def path_inv_parts insert_Nil_iff)
  next
    case publisher
    with assms(2) show ?thesis
      by (cases "pa_onDemandPublisherState pa")
        (auto intro!: path_inv_publisherI simp: keep_open_def path_inv_parts insert_Nil_iff)
  next
    case plain
    have "plain_source ?pa" using plain by (simp add: plain_source_cong [of ?pa pa])
    with plain assms(2) show ?thesis
      by (auto intro!: path_inv_plainI simp: keep_open_def path_inv_parts)
  qed
  moreover have "pa_stream (keep_open ?pa) = Some s" using assms(2) by (simp add: keep_open_def)
  ultimately show ?thesis by (simp add: handleReaderAddPost_def)
qed

lemma handleReaderAdd_inv:
  assumes "path_inv pa"
  shows "\<exists>pa'. handleReaderAdd lib req pa = Some pa' \<and> path_inv pa'"
proof (cases "pa_stream pa")
  case (Some s)
  with assms handleReaderAddPost_inv show ?thesis by (auto simp: handleReaderAdd_def)
next
  case None
  show ?thesis
  proof (cases rule: on_demand_cases [of "pa_conf pa"])
    case static
    from onDemandStaticSourceStart_inv [OF assms static None] show ?thesis
      using None static by (auto simp: handleReaderAdd_def hold_inv)
  next
    case publisher
    from onDemandPublisherStart_inv [OF assms publisher None refl, of lib] show ?thesis
      using None publisher by (simp add: handleReaderAdd_def hold_inv)
  next
    case plain
    with None assms show ?thesis by (simp add: handleReaderAdd_def)
  qed
qed

lemma remove_reader_eq:
  "(if r \<in> set (pa_readers pa) then doReaderRemove r pa else pa) = pa\<lparr>pa_readers := removeAll r (pa_readers pa)\<rparr>"
  by (cases pa) (simp add: doReaderRemove_def)

text \<open>The check of \<open>handleReaderRemove\<close> for the last reader.\<close>

definition release :: "path \<Rightarrow> path" where
  "release pa =
     (if HasOnDemandStaticSource (pa_conf pa)
      then if pa_onDemandStaticSourceState pa = pathOnDemandStateReady
           then onDemandStaticSourceScheduleClose pa else pa
      else if HasOnDemandPublisher (pa_conf pa)
      then if pa_onDemandPublisherState pa = pathOnDemandStateReady
           then onDemandPublisherScheduleClose pa else pa
      else pa)"

lemma release_inv:
  assumes "path_inv pa" "distinct rs" "pa_readers pa = [] \<Longrightarrow> rs = []"
  shows "path_inv (if rs = [] then release (pa\<lparr>pa_readers := rs\<rparr>) else pa\<lparr>pa_readers := rs\<rparr>)"
  using assms(1)
proof (cases rule: path_inv_cases)
  case static
  with assms(2,3) show ?thesis
    by (cases "pa_onDemandStaticSourceState pa"; cases "rs = []")
      (auto intro!: path_inv_staticI simp: release_def onDemandStaticSourceScheduleClose_def path_inv_parts)
next
  case publisher
  with assms(2,3) show ?thesis
    by (cases "pa_onDemandPublisherState pa"; cases "rs = []")
      (auto intro!: path_inv_publisherI simp: release_def onDemandPublisherScheduleClose_def path_inv_parts)
next
  case plain
  let ?pa = "pa\<lparr>pa_readers := rs\<rparr>"
  have "plain_source ?pa" using plain by (simp add: plain_source_cong [of ?pa pa])
  with plain assms(2,3) show ?thesis
    by (cases "rs = []") (auto intro!: path_inv_plainI simp: release_def path_inv_parts)
qed

lemma handleReaderRemove_inv:
  assumes "path_inv pa"
  shows "path_inv (handleReaderRemove req author pa)"
proof -
  define rs where "rs = removeAll author (pa_readers pa)"
  let ?pa = "pa\<lparr>pa_readers := rs\<rparr>"
  have "path_inv (if rs = [] then release ?pa else ?pa)"
    using path_inv_base [OF assms] by (intro release_inv assms) (simp_all add: rs_def base_inv_def distinct_removeAll)
  moreover have "release (emit out pa) = emit out (release pa)" for out pa
    by (simp add: release_def emit_def onDemandStaticSourceScheduleClose_def onDemandPublisherScheduleClose_def)
  moreover have "handleReaderRemove req author pa =
      (if rs = [] then release (emit (Done req) ?pa) else emit (Done req) ?pa)"
    by (simp add: handleReaderRemove_def remove_reader_eq rs_def release_def)
  ultimately show ?thesis by (simp split: if_splits)
qed

text \<open>A source that is not ready: the stream is gone, and so are the readers.\<close>

lemma base_inv_not_ready:
  "base_inv pa \<Longrightarrow> base_inv (pa\<lparr>pa_readers := [], pa_onReadyCmd := False, pa_stream := None, pa_out := out\<rparr>)"
  by (simp add: base_inv_def)

lemma onDemandPublisherStop_inv:
  assumes "base_inv pa" "static_idle pa" "publisher_source pa" "\<not> on_hold pa"
    and "\<not> HasOnDemandStaticSource (pa_conf pa)" "HasOnDemandPublisher (pa_conf pa)"
    and "pa_onDemandPublisherReadyTimer pa = None"
    and "pa_onDemandPublisherState pa = pathOnDemandStateClosing \<or> pa_onDemandPublisherCloseTimer pa = None"
  shows "\<exists>pa'. onDemandPublisherStop pa = Some pa' \<and> path_inv pa' \<and> pa_source pa' = None \<and>
    pa_stream pa' = None \<and> pa_conf pa' = pa_conf pa"
  using assms
  by (subst onDemandPublisherStop_eq) (auto intro!: path_inv_publisherI simp: path_inv_parts)

lemma doPublisherRemove_inv:
  assumes "path_inv pa" "\<not> HasStaticSource (pa_conf pa)" "pc_Source (pa_conf pa) \<noteq> ''redirect''"
  shows "\<exists>pa'. doPublisherRemove pa = Some pa' \<and> path_inv pa' \<and> pa_source pa' = None \<and> pa_stream pa' = None \<and>
    pa_conf pa' = pa_conf pa"
  using assms(1)
proof (cases rule: path_inv_cases)
  case static
  with assms show ?thesis by (simp add: HasOnDemandStaticSource_def)
next
  case publisher
  show ?thesis
  proof (cases "pa_stream pa")
    case None
    with publisher show ?thesis
      by (cases "pa_onDemandPublisherState pa")
        (auto intro!: path_inv_publisherI simp: doPublisherRemove.simps path_inv_parts)
  next
    case (Some s)
    then have st: "pa_onDemandPublisherState pa \<noteq> pathOnDemandStateInitial" "\<not> on_hold pa"
        "pa_onDemandPublisherReadyTimer pa = None"
        "pa_onDemandPublisherState pa = pathOnDemandStateClosing \<or> pa_onDemandPublisherCloseTimer pa = None"
      using publisher by (cases "pa_onDemandPublisherState pa"; simp add: publisher_inv_def)+
    have "\<exists>pa'. onDemandPublisherStop pa = Some pa' \<and> path_inv pa' \<and> pa_source pa' = None \<and>
        pa_stream pa' = None \<and> pa_conf pa' = pa_conf pa"
      using publisher st by (intro onDemandPublisherStop_inv) (simp_all add: publisher_inv_def)
    then obtain pa' where pa': "onDemandPublisherStop pa = Some pa'" "path_inv pa'" "pa_source pa' = None"
        "pa_stream pa' = None" "pa_conf pa' = pa_conf pa" by blast
    have "doPublisherRemove pa = Some (pa'\<lparr>pa_source := None\<rparr>)"
      using pa'(1) publisher Some st by (simp add: doPublisherRemove.simps)
    moreover have "pa'\<lparr>pa_source := None\<rparr> = pa'" using pa'(3) by (cases pa') simp
    ultimately have "doPublisherRemove pa = Some pa'" by argo
    with pa' show ?thesis by blast
  qed
next
  case plain
  then have "publisher_source pa" using assms by (simp add: plain_source_def)
  with plain show ?thesis
    by (cases "pa_stream pa")
      (auto intro!: path_inv_plainI simp: doPublisherRemove.simps plain_source_def sourceSetNotReady_eq path_inv_parts
        assms(2,3))
qed

lemma handlePublisherRemove_inv:
  assumes "path_inv pa"
  shows "\<exists>pa'. handlePublisherRemove req author pa = Some pa' \<and> path_inv pa'"
proof (cases "pa_source pa = Some (SourcePublisher author)")
  case True
  have "\<not> HasStaticSource (pa_conf pa) \<and> pc_Source (pa_conf pa) \<noteq> ''redirect''"
    using path_inv_valid [OF assms]
    by (cases rule: conf_cases) (use assms True in \<open>simp_all add: path_inv_def static_inv_def plain_source_def\<close>)
  with doPublisherRemove_inv [OF assms] True show ?thesis by (auto simp: handlePublisherRemove_def)
next
  case False
  with assms show ?thesis by (simp add: handlePublisherRemove_def)
qed

lemma handlePublisherAdd_inv:
  assumes "path_inv pa"
  shows "\<exists>pa'. handlePublisherAdd req author pa = Some pa' \<and> path_inv pa'"
proof (cases "pc_Source (pa_conf pa) \<noteq> ''publisher'' \<or> pa_source pa \<noteq> None \<and> pc_DisablePublisherOverride (pa_conf pa)")
  case True
  with assms show ?thesis by (auto simp: handlePublisherAdd_def)
next
  case False
  then have pub: "pc_Source (pa_conf pa) = ''publisher''" "\<not> HasStaticSource (pa_conf pa)"
      "pc_Source (pa_conf pa) \<noteq> ''redirect''" "\<not> HasOnDemandStaticSource (pa_conf pa)"
    by (simp_all add: HasOnDemandStaticSource_def)
  have add: "path_inv (pa'\<lparr>pa_source := Some (SourcePublisher author)\<rparr>)"
    if "path_inv pa'" "pa_source pa' = None" "pa_conf pa' = pa_conf pa" for pa'
    using that(1)
  proof (cases rule: path_inv_cases)
    case static
    with that pub show ?thesis by simp
  next
    case publisher
    with that show ?thesis
      by (auto intro!: path_inv_publisherI simp: publisher_inv_def publisher_source_def base_inv_def static_idle_def on_hold_def)
  next
    case plain
    with that pub show ?thesis
      by (auto intro!: path_inv_plainI simp: plain_source_def path_inv_parts)
  qed
  show ?thesis
  proof (cases "pa_source pa")
    case None
    with False add [OF assms None refl] show ?thesis by (simp add: handlePublisherAdd_def)
  next
    case (Some src)
    then obtain p where p: "src = SourcePublisher p"
      using assms pub by (auto simp: path_inv_def publisher_inv_def publisher_source_def plain_source_def split: if_splits)
    obtain pa' where "doPublisherRemove (emit (PublisherClose p) pa) = Some pa'" "path_inv pa'" "pa_source pa' = None"
        "pa_conf pa' = pa_conf pa"
      using doPublisherRemove_inv [of "emit (PublisherClose p) pa"] assms pub by auto
    with False Some p add [of pa'] show ?thesis by (simp add: handlePublisherAdd_def)
  qed
qed

text \<open>A source that becomes ready.\<close>

lemma sourceSetReady_eq:
  assumes "sourceSetReady lib now medias gen pa = Inr pa'"
  obtains s where "pa_stream pa' = Some s"
    "pa' = pa\<lparr>pa_stream := Some s, pa_onReadyCmd := pa_onReadyCmd pa \<or> pc_RunOnReady (pa_conf pa) \<noteq> '''',
      pa_out := pa_out pa'\<rparr>"
    "pa_out pa' = pa_out pa @
       (if pc_RunOnReady (pa_conf pa) \<noteq> ''''
        then [CmdStart OnReadyCmd (pc_RunOnReady (pa_conf pa)) (pc_RunOnReadyRestart (pa_conf pa)) (externalCmdEnv lib pa)]
        else []) @ [ParentSourceReady]"
proof -
  from assms obtain s where n: "newStream (pa_udpMaxPayloadSize pa) medias gen now (pa_bytesReceived pa) = Inr s"
    by (auto simp: sourceSetReady_def split: sum.splits)
  have env: "externalCmdEnv lib (pa\<lparr>pa_stream := Some s\<rparr>) = externalCmdEnv lib pa" by (simp add: externalCmdEnv_def)
  show thesis
    by (rule that [of s]; cases pa)
      (use assms n env in \<open>auto simp: sourceSetReady_def emit_def Let_def split: if_splits\<close>)
qed

lemma fold_insert_distinct: "distinct rs \<Longrightarrow> distinct (fold List.insert xs rs)"
  by (induction xs arbitrary: rs) simp_all

lemma fold_insert_Nil: "fold List.insert xs rs = [] \<longleftrightarrow> xs = [] \<and> rs = []"
  by (induction xs arbitrary: rs) (auto simp: insert_Nil_iff)

lemma set_ready_inv:
  assumes "path_inv pa" "pa_source pa = Some (SourceStatic True)" "pa_stream pa = None"
  shows "\<exists>pa'. set_ready lib now medias gen pa = Some pa' \<and> path_inv pa'"
proof (cases "sourceSetReady lib now medias gen pa")
  case (Inl err)
  with assms(1) show ?thesis by (simp add: set_ready_def)
next
  case (Inr pa1)
  obtain s out where s: "pa_stream pa1 = Some s"
      "pa1 = pa\<lparr>pa_stream := Some s, pa_onReadyCmd := pa_onReadyCmd pa \<or> pc_RunOnReady (pa_conf pa) \<noteq> '''', pa_out := out\<rparr>"
    using sourceSetReady_eq [OF Inr] by metis
  have conf: "pa_conf pa1 = pa_conf pa" using s(2) by simp
  from assms(1) show ?thesis
  proof (cases rule: path_inv_cases)
    case static
    then have w: "pa_onDemandStaticSourceState pa = pathOnDemandStateWaitingReady" "pa_readers pa = []"
      using assms(2,3) by (cases "pa_onDemandStaticSourceState pa"; simp add: static_inv_def)+
    let ?pa2 = "onDemandStaticSourceScheduleClose (pa1\<lparr>pa_onDemandStaticSourceReadyTimer := None\<rparr>)"
    have st: "pa_stream ?pa2 = Some s" using s by (simp add: onDemandStaticSourceScheduleClose_def)
    have "path_inv (served s ?pa2)"
      using static w assms(2)
      by (cases "pa_readerAddRequestsOnHold pa = []")
        (auto intro!: path_inv_staticI simp: served_def s(2) onDemandStaticSourceScheduleClose_def keep_open_def
          path_inv_parts fold_insert_distinct fold_insert_Nil)
    with Inr static conf serve_on_hold_eq [OF st] show ?thesis by (simp add: set_ready_def)
  next
    case publisher
    with assms(2) show ?thesis by (simp add: publisher_inv_def publisher_source_def)
  next
    case plain
    then have "plain_source pa1" "path_inv pa1"
      using assms(2,3) s(2)
      by (auto intro!: path_inv_plainI simp: plain_source_def path_inv_parts split: if_splits)
    with Inr plain conf s(1) show ?thesis by (simp add: set_ready_def)
  qed
qed

lemma handlePublisherStart_inv:
  assumes "path_inv pa" "pa_source pa = Some (SourcePublisher author) \<longrightarrow> pa_stream pa = None"
  shows "\<exists>pa'. handlePublisherStart lib now req author medias gen pa = Some pa' \<and> path_inv pa'"
proof (cases "pa_source pa = Some (SourcePublisher author)")
  case False
  with assms(1) show ?thesis by (simp add: handlePublisherStart_def)
next
  case True
  show ?thesis
  proof (cases "sourceSetReady lib now medias gen pa")
    case (Inl err)
    with True assms(1) show ?thesis by (simp add: handlePublisherStart_def)
  next
    case (Inr pa1)
    obtain s out where s: "pa_stream pa1 = Some s"
        "pa1 = pa\<lparr>pa_stream := Some s, pa_onReadyCmd := pa_onReadyCmd pa \<or> pc_RunOnReady (pa_conf pa) \<noteq> '''', pa_out := out\<rparr>"
      using sourceSetReady_eq [OF Inr] by metis
    have conf: "pa_conf pa1 = pa_conf pa" using s(2) by simp
    from assms(1) show ?thesis
    proof (cases rule: path_inv_cases)
      case static
      with True show ?thesis by (simp add: static_inv_def)
    next
      case publisher
      then have w: "pa_readers pa = []" "pa_onDemandPublisherState pa = pathOnDemandStateInitial \<or>
          pa_onDemandPublisherState pa = pathOnDemandStateWaitingReady"
        using True assms(2) by (cases "pa_onDemandPublisherState pa"; simp add: publisher_inv_def)+
      let ?pa2 = "onDemandPublisherScheduleClose (pa1\<lparr>pa_onDemandPublisherReadyTimer := None\<rparr>)"
      have st: "pa_stream ?pa2 = Some s" using s by (simp add: onDemandPublisherScheduleClose_def)
      have "path_inv (served s ?pa2)"
        using publisher w True
        by (cases "pa_readerAddRequestsOnHold pa = []")
          (auto intro!: path_inv_publisherI simp: served_def s(2) onDemandPublisherScheduleClose_def keep_open_def
            path_inv_parts fold_insert_distinct fold_insert_Nil)
      with Inr True publisher conf serve_on_hold_eq [OF st] show ?thesis by (simp add: handlePublisherStart_def)
    next
      case plain
      then have "plain_source pa1" "path_inv pa1"
        using assms(2) True s(2)
        by (auto intro!: path_inv_plainI simp: plain_source_def path_inv_parts split: if_splits)
      with Inr True plain conf s(1) show ?thesis by (simp add: handlePublisherStart_def)
    qed
  qed
qed

text \<open>A source that stops to be ready, and timers.\<close>

lemma stop_ready_publisher:
  assumes "path_inv pa" "\<not> HasOnDemandStaticSource (pa_conf pa)" "HasOnDemandPublisher (pa_conf pa)" "pa_stream pa = Some s"
  shows "\<exists>pa'. onDemandPublisherStop pa = Some pa' \<and> path_inv pa'" and "pa_onDemandPublisherState pa \<noteq> pathOnDemandStateInitial"
proof -
  have i: "base_inv pa" "static_idle pa" "publisher_inv pa" using assms by (simp_all add: path_inv_def)
  then show n: "pa_onDemandPublisherState pa \<noteq> pathOnDemandStateInitial"
    using assms(4) by (auto simp: publisher_inv_def)
  have "publisher_source pa" "\<not> on_hold pa" "pa_onDemandPublisherReadyTimer pa = None"
      "pa_onDemandPublisherState pa = pathOnDemandStateClosing \<or> pa_onDemandPublisherCloseTimer pa = None"
    using i(3) assms(4) by (cases "pa_onDemandPublisherState pa"; simp add: publisher_inv_def)+
  with i assms(2,3) onDemandPublisherStop_inv [of pa] show "\<exists>pa'. onDemandPublisherStop pa = Some pa' \<and> path_inv pa'"
    by blast
qed

lemma plain_not_ready:
  assumes "path_inv pa" "\<not> HasOnDemandStaticSource (pa_conf pa)" "\<not> HasOnDemandPublisher (pa_conf pa)"
  shows "path_inv (sourceSetNotReady pa)"
proof -
  have i: "base_inv pa" "plain_source pa" "static_idle pa" "publisher_idle pa" "\<not> on_hold pa"
    using assms by (simp_all add: path_inv_def)
  have "plain_source (sourceSetNotReady pa)"
    using i(2) by (auto simp: plain_source_def publisher_source_def sourceSetNotReady_eq)
  with i assms(2,3) show ?thesis
    by (intro path_inv_plainI) (simp_all add: sourceSetNotReady_eq path_inv_parts)
qed

lemma handlePublisherStop_inv:
  assumes "path_inv pa"
  shows "\<exists>pa'. handlePublisherStop req author pa = Some pa' \<and> path_inv pa'"
proof (cases "pa_source pa = Some (SourcePublisher author) \<and> pa_stream pa \<noteq> None")
  case False
  with assms show ?thesis by (auto simp: handlePublisherStop_def)
next
  case True
  then obtain s where s: "pa_stream pa = Some s" "pa_source pa = Some (SourcePublisher author)" by blast
  from assms show ?thesis
  proof (cases rule: path_inv_cases)
    case static
    with s show ?thesis by (simp add: static_inv_def)
  next
    case publisher
    with stop_ready_publisher [OF assms publisher(1,2) s(1)] s show ?thesis by (auto simp: handlePublisherStop_def)
  next
    case plain
    with plain_not_ready [OF assms plain(1,2)] s show ?thesis by (simp add: handlePublisherStop_def)
  qed
qed

lemma set_not_ready_inv:
  assumes "path_inv pa" "pa_source pa = Some (SourceStatic True)" "pa_stream pa \<noteq> None"
  shows "\<exists>pa'. set_not_ready pa = Some pa' \<and> path_inv pa'"
  using assms(1)
proof (cases rule: path_inv_cases)
  case static
  with assms(2,3) show ?thesis
    by (cases "pa_onDemandStaticSourceState pa")
      (auto intro!: path_inv_staticI simp: set_not_ready_def onDemandStaticSourceStop_def sourceStatic_stop_def
        sourceSetNotReady_eq path_inv_parts)
next
  case publisher
  with assms(2) show ?thesis by (simp add: publisher_inv_def publisher_source_def)
next
  case plain
  with plain_not_ready [OF assms(1) plain(1,2)] show ?thesis
    by (simp add: set_not_ready_def sourceSetNotReady_eq)
qed

lemma static_timers_inv:
  assumes "path_inv pa"
  shows "pa_onDemandStaticSourceReadyTimer pa \<noteq> None \<Longrightarrow>
      \<exists>pa'. onDemandStaticSourceStop (fail_on_hold err (pa\<lparr>pa_onDemandStaticSourceReadyTimer := None\<rparr>)) = Some pa' \<and> path_inv pa'"
    and "pa_onDemandStaticSourceCloseTimer pa \<noteq> None \<Longrightarrow>
      \<exists>pa'. onDemandStaticSourceStop (sourceSetNotReady (pa\<lparr>pa_onDemandStaticSourceCloseTimer := None\<rparr>)) = Some pa' \<and> path_inv pa'"
proof -
  assume t: "pa_onDemandStaticSourceReadyTimer pa \<noteq> None"
  from assms show "\<exists>pa'. onDemandStaticSourceStop (fail_on_hold err (pa\<lparr>pa_onDemandStaticSourceReadyTimer := None\<rparr>)) = Some pa' \<and> path_inv pa'"
  proof (cases rule: path_inv_cases)
    case static
    with t show ?thesis
      by (cases "pa_onDemandStaticSourceState pa")
        (auto intro!: path_inv_staticI simp: onDemandStaticSourceStop_def sourceStatic_stop_def fail_on_hold_eq path_inv_parts)
  qed (use t in \<open>simp_all add: static_idle_def\<close>)
next
  assume t: "pa_onDemandStaticSourceCloseTimer pa \<noteq> None"
  from assms show "\<exists>pa'. onDemandStaticSourceStop (sourceSetNotReady (pa\<lparr>pa_onDemandStaticSourceCloseTimer := None\<rparr>)) = Some pa' \<and> path_inv pa'"
  proof (cases rule: path_inv_cases)
    case static
    with t show ?thesis
      by (cases "pa_onDemandStaticSourceState pa")
        (auto intro!: path_inv_staticI simp: onDemandStaticSourceStop_def sourceStatic_stop_def sourceSetNotReady_eq path_inv_parts)
  qed (use t in \<open>simp_all add: static_idle_def\<close>)
qed

lemma publisher_timers_inv:
  assumes "path_inv pa"
  shows "pa_onDemandPublisherReadyTimer pa \<noteq> None \<Longrightarrow>
      \<exists>pa'. onDemandPublisherStop (fail_on_hold err (pa\<lparr>pa_onDemandPublisherReadyTimer := None\<rparr>)) = Some pa' \<and> path_inv pa'"
    and "pa_onDemandPublisherCloseTimer pa \<noteq> None \<Longrightarrow>
      \<exists>pa'. onDemandPublisherStop (pa\<lparr>pa_onDemandPublisherCloseTimer := None\<rparr>) = Some pa' \<and> path_inv pa'"
proof -
  assume t: "pa_onDemandPublisherReadyTimer pa \<noteq> None"
  let ?pa = "fail_on_hold err (pa\<lparr>pa_onDemandPublisherReadyTimer := None\<rparr>)"
  from assms show "\<exists>pa'. onDemandPublisherStop ?pa = Some pa' \<and> path_inv pa'"
  proof (cases rule: path_inv_cases)
    case publisher
    with t have "pa_onDemandPublisherState pa = pathOnDemandStateWaitingReady"
      by (cases "pa_onDemandPublisherState pa") (simp_all add: publisher_inv_def)
    with publisher onDemandPublisherStop_inv [of ?pa] show ?thesis
      by (simp add: fail_on_hold_eq path_inv_parts) blast
  qed (use t in \<open>simp_all add: publisher_idle_def\<close>)
next
  assume t: "pa_onDemandPublisherCloseTimer pa \<noteq> None"
  let ?pa = "pa\<lparr>pa_onDemandPublisherCloseTimer := None\<rparr>"
  from assms show "\<exists>pa'. onDemandPublisherStop ?pa = Some pa' \<and> path_inv pa'"
  proof (cases rule: path_inv_cases)
    case publisher
    with t have "pa_onDemandPublisherState pa = pathOnDemandStateClosing"
      by (cases "pa_onDemandPublisherState pa") (simp_all add: publisher_inv_def)
    with publisher onDemandPublisherStop_inv [of ?pa] show ?thesis
      by (simp add: path_inv_parts) blast
  qed (use t in \<open>simp_all add: publisher_idle_def\<close>)
qed

lemma reload_conf_inv:
  assumes "path_inv pa" "conf_compatible (pa_conf pa) newConf"
  shows "\<exists>pa'. reload_conf newConf pa = Some pa' \<and> path_inv pa'"
proof -
  have same: "HasStaticSource newConf = HasStaticSource (pa_conf pa)"
      "HasOnDemandStaticSource newConf = HasOnDemandStaticSource (pa_conf pa)"
      "HasOnDemandPublisher newConf = HasOnDemandPublisher (pa_conf pa)"
      "pathconf_valid newConf" "pc_Source newConf = pc_Source (pa_conf pa)"
    using assms(2)
    by (simp_all add: conf_compatible_def HasStaticSource_def HasOnDemandStaticSource_def HasOnDemandPublisher_def)
  have "path_inv (pa\<lparr>pa_conf := newConf\<rparr>)"
    using assms(1)
  proof (cases rule: path_inv_cases)
    case static
    with same show ?thesis by (intro path_inv_staticI) (simp_all add: path_inv_parts)
  next
    case publisher
    with same show ?thesis by (intro path_inv_publisherI) (simp_all add: path_inv_parts)
  next
    case plain
    then have "plain_source (pa\<lparr>pa_conf := newConf\<rparr>)"
      using same unfolding plain_source_def publisher_source_def by simp
    with plain same show ?thesis by (intro path_inv_plainI) (simp_all add: path_inv_parts)
  qed
  moreover have "\<exists>r. pa_source pa = Some (SourceStatic r)" if "HasStaticSource (pa_conf pa)"
    using path_inv_valid [OF assms(1)]
    by (cases rule: conf_cases) (use assms(1) that in \<open>auto simp: path_inv_def static_inv_def plain_source_def\<close>)
  moreover have "(emit out pa)\<lparr>pa_conf := newConf\<rparr> = emit out (pa\<lparr>pa_conf := newConf\<rparr>)" for out
    by (simp add: emit_def)
  ultimately show ?thesis by (cases "HasStaticSource (pa_conf pa)") (auto simp: reload_conf_def)
qed

text \<open>One event.\<close>

lemma path_select_inv:
  assumes "path_inv pa" "path_enabled ev pa"
  shows "\<exists>pa' c. path_select lib ev pa = Some (pa', c) \<and> path_inv pa'"
proof (cases ev)
  case StaticSourceReadyTimer
  with static_timers_inv(1) [OF assms(1), of "timed_out (pa\<lparr>pa_onDemandStaticSourceReadyTimer := None\<rparr>)"] assms(2)
  show ?thesis by (auto simp: check_close_def)
next
  case StaticSourceCloseTimer
  with static_timers_inv(2) [OF assms(1)] assms(2) show ?thesis by (auto simp: check_close_def)
next
  case PublisherReadyTimer
  with publisher_timers_inv(1) [OF assms(1), of "timed_out (pa\<lparr>pa_onDemandPublisherReadyTimer := None\<rparr>)"] assms(2)
  show ?thesis by (auto simp: check_close_def)
next
  case PublisherCloseTimer
  with publisher_timers_inv(2) [OF assms(1)] assms(2) show ?thesis by (auto simp: check_close_def)
next
  case (ReloadConf newConf)
  with reload_conf_inv [OF assms(1), of newConf] assms(2) show ?thesis by (auto simp: go_on_def)
next
  case (SourceStaticSetReady now medias gen)
  with set_ready_inv [OF assms(1), of lib now medias gen] assms(2) show ?thesis by (auto simp: go_on_def)
next
  case SourceStaticSetNotReady
  with set_not_ready_inv [OF assms(1)] assms(2) show ?thesis by (auto simp: check_close_def)
next
  case (Describe req)
  with handleDescribe_inv [OF assms(1), of lib req] show ?thesis by (auto simp: check_close_def)
next
  case (PublisherRemove req author)
  with handlePublisherRemove_inv [OF assms(1), of req author] show ?thesis by (auto simp: check_close_def)
next
  case (PublisherAdd req author)
  with handlePublisherAdd_inv [OF assms(1), of req author] show ?thesis by (auto simp: go_on_def)
next
  case (PublisherStart now req author medias gen)
  with handlePublisherStart_inv [OF assms(1), of author lib now req medias gen] assms(2) show ?thesis
    by (auto simp: go_on_def)
next
  case (PublisherStop req author)
  with handlePublisherStop_inv [OF assms(1), of req author] show ?thesis by (auto simp: check_close_def)
next
  case (PathReaderAdd req)
  with handleReaderAdd_inv [OF assms(1), of lib req] show ?thesis by (auto simp: check_close_def)
next
  case (PathReaderRemove req author)
  with handleReaderRemove_inv [OF assms(1), of req author] show ?thesis by (auto simp: go_on_def)
next
  case (APIPathsList req)
  with assms(1) show ?thesis by (auto simp: go_on_def handleAPIPathsList_def)
next
  case (BytesReceived n)
  have "path_inv (pa\<lparr>pa_bytesReceived := x\<rparr>) = path_inv pa" for x
    unfolding path_inv_def path_inv_parts plain_source_def by simp
  with BytesReceived assms(1) show ?thesis by (auto simp: go_on_def)
next
  case CtxDone
  with assms(1) show ?thesis by auto
qed

text \<open>The end of the goroutine.\<close>

definition exit_out :: "path \<Rightarrow> path_out list" where
  "exit_out pa =
     [ParentPathClose] @ (if pa_onInitCmd pa then [CmdClose OnInitCmd] else []) @
     map (\<lambda>req. DescribeRes (dr_id req) (Inl terminated)) (pa_describeRequestsOnHold pa) @
     map (\<lambda>req. ReaderAddRes (ra_id req) (Inl terminated)) (pa_readerAddRequestsOnHold pa) @
     unset_out pa @ source_close_out pa @ (if pa_source pa = Some (SourceStatic True) then [SourceStop] else []) @
     stop_cmd_out pa"

lemma path_exit_eq:
  assumes "path_inv pa"
  shows "\<exists>pa'. path_exit pa = Some pa' \<and> pa_out pa' = pa_out pa @ exit_out pa \<and> pa_stream pa' = None \<and>
    pa_readers pa' = [] \<and> pa_source pa' \<noteq> Some (SourceStatic True) \<and>
    pa_onDemandStaticSourceReadyTimer pa' = None \<and> pa_onDemandStaticSourceCloseTimer pa' = None \<and>
    pa_onDemandPublisherReadyTimer pa' = None \<and> pa_onDemandPublisherCloseTimer pa' = None"
  using path_inv_base [OF assms]
  by (cases "pa_stream pa"; cases "pa_source pa" rule: option.exhaust)
    (auto simp: path_exit_def close_source_def sourceStatic_stop_def sourceSetNotReady_eq fold_emit exit_out_def
      unset_out_def not_ready_out_def source_close_out_def stop_cmd_out_def base_inv_def Let_def
      split: source.splits bool.splits)

fun run_inv :: "run_state \<Rightarrow> bool" where
  "run_inv (Running pa) = path_inv pa"
| "run_inv (Stopped pa) = True"

interpretation path_machine: machine event_enabled "path_step lib" run_inv for lib
proof
  fix s e
  assume i: "run_inv s" "event_enabled e s"
  show "\<exists>s'. path_step lib e s = Some s' \<and> run_inv s'"
  proof (cases s)
    case (Running pa)
    with i obtain pa' c where "path_select lib e pa = Some (pa', c)" "path_inv pa'"
      using path_select_inv [of pa e lib] by auto
    with Running path_exit_eq [of pa'] show ?thesis by auto
  next
    case (Stopped pa)
    then show ?thesis by simp
  qed
qed

end
