(* ===== verification/PathTrace.thy ===== *)
theory PathTrace
  imports PathInv
begin

text \<open>
  What a path sends over its life: every request is answered exactly once, and the stream, the source
  and the external commands are switched on and off in turn.
\<close>

section \<open>Switches and answers\<close>

fun stream_on :: "path_out \<Rightarrow> bool" where
  "stream_on ParentSourceReady = True" | "stream_on _ = False"

fun stream_off :: "path_out \<Rightarrow> bool" where
  "stream_off ParentSourceNotReady = True" | "stream_off _ = False"

fun source_on :: "path_out \<Rightarrow> bool" where
  "source_on SourceStart = True" | "source_on _ = False"

fun source_off :: "path_out \<Rightarrow> bool" where
  "source_off SourceStop = True" | "source_off _ = False"

fun cmd_on :: "cmd \<Rightarrow> path_out \<Rightarrow> bool" where
  "cmd_on c (CmdStart c' s r env) = (c = c')" | "cmd_on c _ = False"

fun cmd_off :: "cmd \<Rightarrow> path_out \<Rightarrow> bool" where
  "cmd_off c (CmdClose c') = (c = c')" | "cmd_off c _ = False"

fun answer :: "path_out \<Rightarrow> req_id multiset" where
  "answer (DescribeRes req _) = {#req#}"
| "answer (ReaderAddRes req _) = {#req#}"
| "answer (PublisherAddRes req _) = {#req#}"
| "answer (PublisherStartRes req _) = {#req#}"
| "answer (Done req) = {#req#}"
| "answer (APIItem req _) = {#req#}"
| "answer _ = {#}"

definition answered :: "path_out list \<Rightarrow> req_id multiset" where
  "answered outs = sum_list (map answer outs)"

fun request :: "path_event \<Rightarrow> req_id multiset" where
  "request (Describe req) = {#dr_id req#}"
| "request (PathReaderAdd req) = {#ra_id req#}"
| "request (PublisherRemove req _) = {#req#}"
| "request (PublisherAdd req _) = {#req#}"
| "request (PublisherStart _ req _ _ _) = {#req#}"
| "request (PublisherStop req _) = {#req#}"
| "request (PathReaderRemove req _) = {#req#}"
| "request (APIPathsList req) = {#req#}"
| "request _ = {#}"

text \<open>The requests that a path has answered or keeps on hold.\<close>

definition taken :: "path \<Rightarrow> req_id multiset" where
  "taken pa = answered (pa_out pa) + mset (map dr_id (pa_describeRequestsOnHold pa)) +
     mset (map ra_id (pa_readerAddRequestsOnHold pa))"

text \<open>The outputs of a path agree with its state.\<close>

definition books :: "path \<Rightarrow> bool" where
  "books pa \<longleftrightarrow>
     switch stream_on stream_off (pa_out pa) False = Some (pa_stream pa \<noteq> None) \<and>
     switch source_on source_off (pa_out pa) False = Some (pa_source pa = Some (SourceStatic True)) \<and>
     switch (cmd_on OnInitCmd) (cmd_off OnInitCmd) (pa_out pa) False = Some (pa_onInitCmd pa) \<and>
     switch (cmd_on OnDemandCmd) (cmd_off OnDemandCmd) (pa_out pa) False = Some (pa_onDemandCmd pa) \<and>
     switch (cmd_on OnReadyCmd) (cmd_off OnReadyCmd) (pa_out pa) False = Some (pa_onReadyCmd pa)"

definition all_off :: "path_out list \<Rightarrow> bool" where
  "all_off outs \<longleftrightarrow>
     switch stream_on stream_off outs False = Some False \<and> switch source_on source_off outs False = Some False \<and>
     (\<forall>c. switch (cmd_on c) (cmd_off c) outs False = Some False)"

lemma answered_simps [simp]:
  "answered [] = {#}" "answered (out # outs) = answer out + answered outs"
  "answered (outs @ outs') = answered outs + answered outs'"
  by (simp_all add: answered_def)

lemma answered_map [simp]:
  "answered (map ReaderClose rs) = {#}"
  "answered (map (\<lambda>req. DescribeRes (dr_id req) res) ds) = mset (map dr_id ds)"
  "answered (map (\<lambda>req. ReaderAddRes (ra_id req) res') ras) = mset (map ra_id ras)"
  by (induction rs) (simp_all add: answered_def, (induction ds; simp), (induction ras; simp))

lemma switch_map [simp]:
  "(\<And>x. \<not> on (g x)) \<Longrightarrow> (\<And>x. \<not> off (g x)) \<Longrightarrow> switch on off (map g xs) b = Some b"
  by (rule switch_neutral) auto

text \<open>An output that is no switch.\<close>

fun neutral :: "path_out \<Rightarrow> bool" where
  "neutral ParentSourceReady = False"
| "neutral ParentSourceNotReady = False"
| "neutral SourceStart = False"
| "neutral SourceStop = False"
| "neutral (CmdStart _ _ _ _) = False"
| "neutral (CmdClose _) = False"
| "neutral _ = True"

lemma neutral_no_switch:
  assumes "neutral out"
  shows "\<not> stream_on out" "\<not> stream_off out" "\<not> source_on out" "\<not> source_off out" "\<not> cmd_on c out" "\<not> cmd_off c out"
  using assms by (cases out; simp)+

section \<open>The operations\<close>

lemma books_emit: "neutral out \<Longrightarrow> books (emit out pa) = books pa"
  by (cases "pa_stream pa") (auto simp: books_def switch_append neutral_no_switch split: bind_splits)

lemma taken_emit [simp]: "taken (emit out pa) = taken pa + answer out"
  by (simp add: taken_def)

lemma books_source:
  "(s = Some (SourceStatic True)) = (pa_source pa = Some (SourceStatic True)) \<Longrightarrow> books (pa\<lparr>pa_source := s\<rparr>) = books pa"
  by (simp add: books_def)

lemma books_static:
  assumes "books pa"
  shows "sourceStatic_start pa = Some pa' \<Longrightarrow> books pa' \<and> taken pa' = taken pa"
    and "sourceStatic_stop pa = Some pa' \<Longrightarrow> books pa' \<and> taken pa' = taken pa"
  using assms
  by (auto simp: sourceStatic_start_def sourceStatic_stop_def books_def taken_def switch_append
      split: option.splits source.splits bool.splits if_splits)

lemma books_not_ready:
  assumes "books pa" "pa_stream pa \<noteq> None"
  shows "books (sourceSetNotReady pa)" and "taken (sourceSetNotReady pa) = taken pa"
  using assms by (auto simp: sourceSetNotReady_eq books_def taken_def switch_append not_ready_out_def)

lemma books_update [simp]:
  "books (pa\<lparr>pa_readers := rs\<rparr>) = books pa" "books (pa\<lparr>pa_conf := c\<rparr>) = books pa"
  "books (pa\<lparr>pa_bytesReceived := n\<rparr>) = books pa"
  "books (pa\<lparr>pa_describeRequestsOnHold := ds\<rparr>) = books pa" "books (pa\<lparr>pa_readerAddRequestsOnHold := ras\<rparr>) = books pa"
  "books (pa\<lparr>pa_onDemandStaticSourceState := st\<rparr>) = books pa" "books (pa\<lparr>pa_onDemandPublisherState := st\<rparr>) = books pa"
  "books (pa\<lparr>pa_onDemandStaticSourceReadyTimer := t\<rparr>) = books pa" "books (pa\<lparr>pa_onDemandStaticSourceCloseTimer := t\<rparr>) = books pa"
  "books (pa\<lparr>pa_onDemandPublisherReadyTimer := t\<rparr>) = books pa" "books (pa\<lparr>pa_onDemandPublisherCloseTimer := t\<rparr>) = books pa"
  by (simp_all add: books_def)

lemma taken_update [simp]:
  "taken (pa\<lparr>pa_readers := rs\<rparr>) = taken pa" "taken (pa\<lparr>pa_conf := c\<rparr>) = taken pa"
  "taken (pa\<lparr>pa_bytesReceived := n\<rparr>) = taken pa" "taken (pa\<lparr>pa_source := src\<rparr>) = taken pa"
  "taken (pa\<lparr>pa_onDemandStaticSourceState := st\<rparr>) = taken pa" "taken (pa\<lparr>pa_onDemandPublisherState := st\<rparr>) = taken pa"
  "taken (pa\<lparr>pa_onDemandStaticSourceReadyTimer := t\<rparr>) = taken pa" "taken (pa\<lparr>pa_onDemandStaticSourceCloseTimer := t\<rparr>) = taken pa"
  "taken (pa\<lparr>pa_onDemandPublisherReadyTimer := t\<rparr>) = taken pa" "taken (pa\<lparr>pa_onDemandPublisherCloseTimer := t\<rparr>) = taken pa"
  by (simp_all add: taken_def)

lemma books_hold:
  "books (hold_describe req pa) = books pa" "taken (hold_describe req pa) = taken pa + {#dr_id req#}"
  "books (hold_reader req' pa) = books pa" "taken (hold_reader req' pa) = taken pa + {#ra_id req'#}"
  by (simp_all add: hold_describe_def hold_reader_def taken_def)

lemma books_static_start:
  "books pa \<Longrightarrow> onDemandStaticSourceStart pa = Some pa' \<Longrightarrow> books pa' \<and> taken pa' = taken pa"
  by (auto simp: onDemandStaticSourceStart_def dest: books_static(1) split: bind_splits)

lemma books_static_stop:
  "books pa \<Longrightarrow> onDemandStaticSourceStop pa = Some pa' \<Longrightarrow> books pa' \<and> taken pa' = taken pa"
  by (auto simp: onDemandStaticSourceStop_def Let_def dest!: books_static(2) [rotated] split: if_splits)

lemma books_publisher_start:
  assumes "books pa" "\<not> pa_onDemandCmd pa"
  shows "books (onDemandPublisherStart lib pa)" and "taken (onDemandPublisherStart lib pa) = taken pa"
  using assms by (auto simp: onDemandPublisherStart_def books_def taken_def switch_append)

lemma books_publisher_stop:
  assumes "books pa" "publisher_source pa" "base_inv pa" "onDemandPublisherStop pa = Some pa'"
  shows "books pa'" and "taken pa' = taken pa" and "pa_source pa' = None"
proof -
  have e: "pa_source pa \<noteq> Some (SourceStatic True)" using assms(2) by (auto simp: publisher_source_def)
  have out: "onDemandPublisherStop pa = Some (pa\<lparr>pa_source := None, pa_stream := None, pa_readers := [],
      pa_onReadyCmd := False, pa_onDemandCmd := False, pa_onDemandPublisherState := pathOnDemandStateInitial,
      pa_onDemandPublisherCloseTimer :=
        (if pa_onDemandPublisherState pa = pathOnDemandStateClosing then None else pa_onDemandPublisherCloseTimer pa),
      pa_out := pa_out pa @ source_close_out pa @ unset_out pa @ stop_cmd_out pa\<rparr>)"
    using assms(2,3) by (intro onDemandPublisherStop_eq) (auto simp: publisher_source_def base_inv_def)
  then show "pa_source pa' = None" using assms(4) by auto
  show "books pa'" "taken pa' = taken pa"
    using assms(1,3,4) e unfolding out
    by (auto simp: books_def taken_def base_inv_def switch_append source_close_out_def unset_out_def
        not_ready_out_def stop_cmd_out_def split: option.splits source.splits)
qed

lemma books_publisher_remove:
  assumes "books pa" "publisher_source pa" "base_inv pa" "doPublisherRemove pa = Some pa'"
  shows "books pa' \<and> taken pa' = taken pa"
proof -
  have src: "pa_source pa \<noteq> Some (SourceStatic True)" using assms(2) by (auto simp: publisher_source_def)
  show ?thesis
  proof (cases "pa_stream pa \<noteq> None \<and> HasOnDemandPublisher (pa_conf pa) \<and> pa_onDemandPublisherState pa \<noteq> pathOnDemandStateInitial")
    case True
    then obtain pa1 where pa1: "onDemandPublisherStop pa = Some pa1" "pa' = pa1\<lparr>pa_source := None\<rparr>"
      using assms(4) by (auto simp: doPublisherRemove.simps split: bind_splits)
    then show ?thesis
      using books_publisher_stop [OF assms(1-3) pa1(1)] by (simp add: books_source)
  next
    case False
    then have "pa' = (if pa_stream pa \<noteq> None then sourceSetNotReady pa else pa)\<lparr>pa_source := None\<rparr>"
      using assms(4) by (auto simp: doPublisherRemove.simps split: if_splits)
    moreover have "pa_source (sourceSetNotReady pa) = pa_source pa" by (simp add: sourceSetNotReady_eq)
    ultimately show ?thesis using books_not_ready [OF assms(1)] assms(1) src by (auto simp: books_source)
  qed
qed

lemma books_ready:
  assumes "books pa" "base_inv pa" "pa_stream pa = None" "sourceSetReady lib now medias gen pa = Inr pa'"
  shows "books pa'" and "taken pa' = taken pa"
proof -
  from assms(4) obtain s where s: "pa_out pa' = pa_out pa @
       (if pc_RunOnReady (pa_conf pa) \<noteq> ''''
        then [CmdStart OnReadyCmd (pc_RunOnReady (pa_conf pa)) (pc_RunOnReadyRestart (pa_conf pa)) (externalCmdEnv lib pa)]
        else []) @ [ParentSourceReady]"
    "pa' = pa\<lparr>pa_stream := Some s, pa_onReadyCmd := pa_onReadyCmd pa \<or> pc_RunOnReady (pa_conf pa) \<noteq> '''', pa_out := pa_out pa'\<rparr>"
    by (rule sourceSetReady_eq)
  have f: "pa_stream pa' = Some s" "pa_onReadyCmd pa' = (pa_onReadyCmd pa \<or> pc_RunOnReady (pa_conf pa) \<noteq> '''')"
    "pa_source pa' = pa_source pa" "pa_onInitCmd pa' = pa_onInitCmd pa" "pa_onDemandCmd pa' = pa_onDemandCmd pa"
    "pa_describeRequestsOnHold pa' = pa_describeRequestsOnHold pa"
    "pa_readerAddRequestsOnHold pa' = pa_readerAddRequestsOnHold pa"
    by (subst s(2); simp)+
  show "books pa'" "taken pa' = taken pa"
    using assms(1-3) by (auto simp: books_def taken_def base_inv_def f s(1) switch_append)
qed

lemma books_keep_open [simp]: "books (keep_open pa) = books pa" "taken (keep_open pa) = taken pa"
  by (simp_all add: keep_open_def)

lemma books_fail: "books pa \<Longrightarrow> books (fail_on_hold err pa)" "taken (fail_on_hold err pa) = taken pa"
  by (auto simp: fail_on_hold_eq books_def taken_def switch_append)

lemma books_served: "books pa \<Longrightarrow> books (served s pa)" "taken (served s pa) = taken pa"
proof -
  show "taken (served s pa) = taken pa"
    by (simp add: served_def taken_def keep_open_def)
  show "books (served s pa)" if "books pa"
    using that by (simp add: served_def books_def switch_append keep_open_def)
qed

section \<open>The handlers\<close>

text \<open>\<open>settles pa pa' reqs\<close>: between the two states exactly the requests \<open>reqs\<close> are taken, and the books stay in order.\<close>

definition settles :: "path \<Rightarrow> path \<Rightarrow> req_id multiset \<Rightarrow> bool" where
  "settles pa pa' reqs \<longleftrightarrow> (books pa \<longrightarrow> books pa' \<and> taken pa' = taken pa + reqs)"

lemma settles_emit: "neutral out \<Longrightarrow> settles pa (emit out pa) (answer out)"
  by (simp add: settles_def books_emit)

lemma settles_trans: "settles pa pa1 reqs \<Longrightarrow> settles pa1 pa2 reqs' \<Longrightarrow> settles pa pa2 (reqs + reqs')"
  by (auto simp: settles_def)

lemma settles_done: "settles pa pa1 {#} \<Longrightarrow> neutral out \<Longrightarrow> settles pa (emit out pa1) (answer out)"
  by (auto simp: settles_def books_emit)

lemma publisher_source_emit [simp]: "publisher_source (emit out pa) = publisher_source pa"
  by (simp add: publisher_source_def)

lemma base_inv_emit [simp]: "base_inv (emit out pa) = base_inv pa"
  by (simp add: base_inv_def)

lemma initial_no_cmd:
  assumes "path_inv pa" "pa_onDemandPublisherState pa = pathOnDemandStateInitial"
  shows "\<not> pa_onDemandCmd pa"
  using assms by (cases rule: path_inv_cases) (simp_all add: publisher_idle_def publisher_inv_def)

lemma settles_start:
  assumes "path_inv pa"
  shows "(if pa_onDemandStaticSourceState pa = pathOnDemandStateInitial then onDemandStaticSourceStart pa else Some pa) = Some pa' \<Longrightarrow>
      settles pa pa' {#}"
    and "settles pa (if pa_onDemandPublisherState pa = pathOnDemandStateInitial then onDemandPublisherStart lib pa else pa) {#}"
  using books_static_start [of pa pa'] books_publisher_start [of pa lib] initial_no_cmd [OF assms]
  by (auto simp: settles_def split: if_splits)

lemma handleDescribe_settles:
  assumes "path_inv pa" "handleDescribe lib req pa = Some pa'"
  shows "settles pa pa' {#dr_id req#}"
  using assms settles_start [OF assms(1)]
  by (auto simp: handleDescribe_def settles_def books_emit books_hold split: if_splits option.splits bind_splits)

lemma handleReaderAddPost_settles:
  "handleReaderAddPost req pa = Some pa' \<Longrightarrow> settles pa pa' {#ra_id req#}"
  by (auto simp: handleReaderAddPost_def settles_def books_emit Let_def split: bind_splits)

lemma handleReaderAdd_settles:
  assumes "path_inv pa" "handleReaderAdd lib req pa = Some pa'"
  shows "settles pa pa' {#ra_id req#}"
proof (cases "pa_stream pa")
  case (Some s)
  with assms(2) handleReaderAddPost_settles show ?thesis by (simp add: handleReaderAdd_def)
next
  case None
  with assms(2) settles_start [OF assms(1)] show ?thesis
    by (auto simp: handleReaderAdd_def settles_def books_emit books_hold split: if_splits bind_splits)
qed

lemma handleReaderRemove_settles: "settles pa (handleReaderRemove req author pa) {#req#}"
  by (auto simp: handleReaderRemove_def settles_def books_emit doReaderRemove_def onDemandStaticSourceScheduleClose_def
      onDemandPublisherScheduleClose_def Let_def)

lemma handlePublisherRemove_settles:
  assumes "path_inv pa" "handlePublisherRemove req author pa = Some pa'"
  shows "settles pa pa' {#req#}"
proof (cases "pa_source pa = Some (SourcePublisher author)")
  case True
  then have "publisher_source pa" by (simp add: publisher_source_def)
  with True assms books_publisher_remove [of pa] path_inv_base [OF assms(1)] show ?thesis
    by (auto simp: handlePublisherRemove_def settles_def books_emit split: bind_splits)
next
  case False
  with assms(2) show ?thesis by (auto simp: handlePublisherRemove_def settles_def books_emit)
qed

lemma doPublisherRemove_source: "doPublisherRemove pa = Some pa' \<Longrightarrow> pa_source pa' = None"
  by (auto simp: doPublisherRemove.simps split: bind_splits)

lemma handlePublisherAdd_settles:
  assumes "path_inv pa" "handlePublisherAdd req author pa = Some pa'"
  shows "settles pa pa' {#req#}"
proof (cases "pc_Source (pa_conf pa) \<noteq> ''publisher'' \<or> pa_source pa \<noteq> None \<and> pc_DisablePublisherOverride (pa_conf pa)")
  case True
  with assms(2) show ?thesis by (auto simp: handlePublisherAdd_def settles_def books_emit split: if_splits)
next
  case False
  show ?thesis
  proof (cases "pa_source pa")
    case None
    with False assms(2) show ?thesis by (auto simp: handlePublisherAdd_def settles_def books_emit books_source)
  next
    case (Some src)
    with False assms(2) obtain p pa1 where p: "src = SourcePublisher p" "doPublisherRemove (emit (PublisherClose p) pa) = Some pa1"
        "pa' = emit (PublisherAddRes req (Inr ())) (pa1\<lparr>pa_source := Some (SourcePublisher author)\<rparr>)"
      by (cases src) (auto simp: handlePublisherAdd_def split: bind_splits)
    with Some have "publisher_source (emit (PublisherClose p) pa)" by (simp add: publisher_source_def)
    with books_publisher_remove [OF _ this _ p(2)] doPublisherRemove_source [OF p(2)] path_inv_base [OF assms(1)] p(3)
    show ?thesis by (simp add: settles_def books_emit books_source)
  qed
qed

lemma schedule_close_same [simp]:
  "books (onDemandStaticSourceScheduleClose pa) = books pa" "taken (onDemandStaticSourceScheduleClose pa) = taken pa"
  "books (onDemandPublisherScheduleClose pa) = books pa" "taken (onDemandPublisherScheduleClose pa) = taken pa"
  by (simp_all add: onDemandStaticSourceScheduleClose_def onDemandPublisherScheduleClose_def)

lemma serve_on_hold_settles: "serve_on_hold pa = Some pa' \<Longrightarrow> settles pa pa' {#}"
  using books_served serve_on_hold_eq(1)
  by (cases "pa_stream pa") (auto simp: settles_def serve_on_hold_def)

lemma set_ready_settles:
  assumes "path_inv pa" "pa_stream pa = None" "set_ready lib now medias gen pa = Some pa'"
  shows "settles pa pa' {#}"
proof (cases "sourceSetReady lib now medias gen pa")
  case (Inl err)
  with assms(3) show ?thesis by (auto simp: set_ready_def settles_def books_emit)
next
  case (Inr pa1)
  with books_ready [OF _ path_inv_base [OF assms(1)] assms(2) Inr] assms(3) serve_on_hold_settles show ?thesis
    by (fastforce simp: set_ready_def settles_def books_emit split: bind_splits if_splits)
qed

lemma handlePublisherStart_settles:
  assumes "path_inv pa" "pa_source pa = Some (SourcePublisher author) \<longrightarrow> pa_stream pa = None"
    and "handlePublisherStart lib now req author medias gen pa = Some pa'"
  shows "settles pa pa' {#req#}"
proof (cases "pa_source pa = Some (SourcePublisher author)")
  case False
  with assms(3) show ?thesis by (auto simp: handlePublisherStart_def settles_def books_emit)
next
  case True
  show ?thesis
  proof (cases "sourceSetReady lib now medias gen pa")
    case (Inl err)
    with True assms(3) show ?thesis by (auto simp: handlePublisherStart_def settles_def books_emit)
  next
    case (Inr pa1)
    with True books_ready [OF _ path_inv_base [OF assms(1)] _ Inr] assms(2,3) serve_on_hold_settles show ?thesis
      by (fastforce simp: handlePublisherStart_def settles_def books_emit split: bind_splits if_splits)
  qed
qed

lemma handlePublisherStop_settles:
  assumes "path_inv pa" "handlePublisherStop req author pa = Some pa'"
  shows "settles pa pa' {#req#}"
proof (cases "pa_source pa = Some (SourcePublisher author) \<and> pa_stream pa \<noteq> None")
  case True
  then have "publisher_source pa" by (simp add: publisher_source_def)
  with True assms books_publisher_stop [of pa] books_not_ready [of pa] path_inv_base [OF assms(1)] show ?thesis
    by (auto simp: handlePublisherStop_def settles_def books_emit split: bind_splits if_splits)
next
  case False
  with assms(2) show ?thesis by (auto simp: handlePublisherStop_def settles_def books_emit)
qed

lemma set_not_ready_settles:
  assumes "pa_stream pa \<noteq> None" "set_not_ready pa = Some pa'"
  shows "settles pa pa' {#}"
  using assms books_not_ready [of pa] books_static_stop [of "emit SetNotReadyRes (sourceSetNotReady pa)" pa']
  by (auto simp: set_not_ready_def settles_def books_emit Let_def split: if_splits)

lemma fail_on_hold_same [simp]:
  "publisher_source (fail_on_hold err pa) = publisher_source pa" "base_inv (fail_on_hold err pa) = base_inv pa"
  by (simp_all add: fail_on_hold_eq publisher_source_def base_inv_def)

lemma publisher_timer_source:
  assumes "path_inv pa" "pa_onDemandPublisherReadyTimer pa \<noteq> None \<or> pa_onDemandPublisherCloseTimer pa \<noteq> None"
  shows "publisher_source pa"
  using assms by (cases rule: path_inv_cases) (simp_all add: publisher_idle_def publisher_inv_def)

lemma close_timer_stream:
  assumes "path_inv pa" "pa_onDemandStaticSourceCloseTimer pa \<noteq> None"
  shows "pa_stream pa \<noteq> None"
  using assms
  by (cases rule: path_inv_cases; cases "pa_onDemandStaticSourceState pa") (simp_all add: static_idle_def static_inv_def)

lemma static_timers_settle:
  assumes "path_inv pa"
  shows "onDemandStaticSourceStop (fail_on_hold err (pa\<lparr>pa_onDemandStaticSourceReadyTimer := None\<rparr>)) = Some pa' \<Longrightarrow>
      settles pa pa' {#}"
    and "pa_onDemandStaticSourceCloseTimer pa \<noteq> None \<Longrightarrow>
      onDemandStaticSourceStop (sourceSetNotReady (pa\<lparr>pa_onDemandStaticSourceCloseTimer := None\<rparr>)) = Some pa' \<Longrightarrow>
      settles pa pa' {#}"
  using close_timer_stream [OF assms]
  by (auto simp: settles_def books_fail dest!: books_static_stop [rotated] intro!: books_fail
      books_not_ready(1) simp: books_not_ready(2))

lemma publisher_timers_settle:
  assumes "path_inv pa"
  shows "pa_onDemandPublisherReadyTimer pa \<noteq> None \<Longrightarrow>
      onDemandPublisherStop (fail_on_hold err (pa\<lparr>pa_onDemandPublisherReadyTimer := None\<rparr>)) = Some pa' \<Longrightarrow>
      settles pa pa' {#}"
    and "pa_onDemandPublisherCloseTimer pa \<noteq> None \<Longrightarrow>
      onDemandPublisherStop (pa\<lparr>pa_onDemandPublisherCloseTimer := None\<rparr>) = Some pa' \<Longrightarrow>
      settles pa pa' {#}"
proof -
  have same: "publisher_source (pa\<lparr>pa_onDemandPublisherReadyTimer := None\<rparr>) = publisher_source pa"
      "publisher_source (pa\<lparr>pa_onDemandPublisherCloseTimer := None\<rparr>) = publisher_source pa"
      "base_inv (pa\<lparr>pa_onDemandPublisherReadyTimer := None\<rparr>)" "base_inv (pa\<lparr>pa_onDemandPublisherCloseTimer := None\<rparr>)"
    using path_inv_base [OF assms] by (simp_all add: publisher_source_def base_inv_def)
  show "settles pa pa' {#}" if "pa_onDemandPublisherReadyTimer pa \<noteq> None"
      "onDemandPublisherStop (fail_on_hold err (pa\<lparr>pa_onDemandPublisherReadyTimer := None\<rparr>)) = Some pa'"
    using books_publisher_stop(1,2) [OF _ _ _ that(2)] publisher_timer_source [OF assms] that(1) same
    by (simp add: settles_def books_fail)
  show "settles pa pa' {#}" if "pa_onDemandPublisherCloseTimer pa \<noteq> None"
      "onDemandPublisherStop (pa\<lparr>pa_onDemandPublisherCloseTimer := None\<rparr>) = Some pa'"
    using books_publisher_stop(1,2) [OF _ _ _ that(2)] publisher_timer_source [OF assms] that(1) same
    by (simp add: settles_def)
qed

lemma reload_conf_settles: "reload_conf newConf pa = Some pa' \<Longrightarrow> settles pa pa' {#}"
  by (auto simp: reload_conf_def settles_def books_emit split: bind_splits if_splits option.splits source.splits)

lemma other_settles:
  "settles pa (handleAPIPathsList lib req pa) {#req#}"
  "settles pa (pa\<lparr>pa_bytesReceived := n\<rparr>) {#}"
  "settles pa pa {#}"
  by (simp_all add: handleAPIPathsList_def settles_def books_emit)

lemmas handlers_settle = handleDescribe_settles handleReaderAdd_settles handlePublisherRemove_settles
  handlePublisherAdd_settles handlePublisherStart_settles handlePublisherStop_settles handleReaderRemove_settles
  set_ready_settles set_not_ready_settles reload_conf_settles static_timers_settle publisher_timers_settle other_settles

lemma path_select_settles:
  assumes "path_inv pa" "path_enabled ev pa" "path_select lib ev pa = Some (pa', c)"
  shows "settles pa pa' (request ev)"
  using assms
  by (cases ev) (auto simp: go_on_def check_close_def Let_def handlers_settle split: bind_splits)

section \<open>The life of a path\<close>

lemma path_exit_settles:
  assumes "path_inv pa" "books pa" "path_exit pa = Some pa'"
  shows "all_off (pa_out pa')" and "answered (pa_out pa') = taken pa"
proof -
  have out: "pa_out pa' = pa_out pa @ exit_out pa" using path_exit_eq [OF assms(1)] assms(3) by auto
  have off: "pa_stream pa = None \<longrightarrow> \<not> pa_onReadyCmd pa" using path_inv_base [OF assms(1)] by (simp add: base_inv_def)
  have "switch (cmd_on c) (cmd_off c) (pa_out pa') False = Some False" for c
    using assms(2) off
    by (cases c) (auto simp: out exit_out_def books_def switch_append unset_out_def not_ready_out_def
        source_close_out_def stop_cmd_out_def split: option.splits source.splits)
  moreover have "switch stream_on stream_off (pa_out pa') False = Some False"
      "switch source_on source_off (pa_out pa') False = Some False"
    using assms(2)
    by (auto simp: out exit_out_def books_def switch_append unset_out_def not_ready_out_def
        source_close_out_def stop_cmd_out_def split: option.splits source.splits)
  ultimately show "all_off (pa_out pa')" by (simp add: all_off_def)
  show "answered (pa_out pa') = taken pa"
    by (auto simp: out exit_out_def taken_def unset_out_def not_ready_out_def source_close_out_def
        stop_cmd_out_def split: option.splits source.splits)
qed

fun life_inv :: "run_state \<Rightarrow> bool" where
  "life_inv (Running pa) \<longleftrightarrow> path_inv pa \<and> books pa"
| "life_inv (Stopped pa) \<longleftrightarrow> all_off (pa_out pa)"

fun stock :: "run_state \<Rightarrow> req_id multiset" where
  "stock (Running pa) = taken pa"
| "stock (Stopped pa) = answered (pa_out pa)"

lemma call_stopped_settles:
  assumes "all_off (pa_out pa)"
  shows "all_off (pa_out (path_call_stopped ev pa))"
    and "answered (pa_out (path_call_stopped ev pa)) = answered (pa_out pa) + request ev"
  using assms by (cases ev; simp add: all_off_def switch_append)+

lemma path_step_settles:
  assumes "life_inv s" "event_enabled ev s"
  shows "\<exists>s'. path_step lib ev s = Some s' \<and> life_inv s' \<and> stock s' = stock s + request ev"
proof (cases s)
  case (Running pa)
  with assms obtain pa' c where p: "path_select lib ev pa = Some (pa', c)" "path_inv pa'"
    using path_select_inv [of pa ev lib] by auto
  with assms Running have b: "books pa'" "taken pa' = taken pa + request ev"
    using path_select_settles [of pa ev lib pa' c] by (simp_all add: settles_def)
  with Running p path_exit_eq [of pa'] path_exit_settles [of pa'] show ?thesis by auto
next
  case (Stopped pa)
  with assms call_stopped_settles [of pa ev] show ?thesis by simp
qed

interpretation path_life: accounting event_enabled "path_step lib" life_inv stock request for lib
proof
  show "\<exists>s'. path_step lib e s = Some s' \<and> life_inv s'" if "life_inv s" "event_enabled e s" for s e
    using path_step_settles [OF that] by blast
  show "stock s' = stock s + request e"
    if "life_inv s" "event_enabled e s" "path_step lib e s = Some s'" for s e s'
    using path_step_settles [OF that(1,2), of lib] that(3) by simp
qed

lemma path_init_life:
  assumes "pathconf_valid cnf"
  shows "\<exists>pa. path_init lib (newPath rtsp sz confName cnf name matches) = Some pa \<and> life_inv (Running pa) \<and> taken pa = {#}"
proof -
  let ?p = "newPath rtsp sz confName cnf name matches"
  obtain pa where pa: "path_init lib ?p = Some pa" "path_inv pa" using path_init_inv [OF assms] by blast
  have "books ?p" "taken ?p = {#}" "pa_source ?p = None" by (simp_all add: newPath_def books_def taken_def)
  then have "books pa \<and> taken pa = {#}"
    using pa(1)
    by (auto simp: path_init_def books_def taken_def switch_append sourceStatic_start_def Let_def newPath_def
        split: if_splits option.splits source.splits bind_splits)
  with pa show ?thesis by simp
qed

end
