(* ===== verification/ConfTypes.thy ===== *)
theory ConfTypes
  imports PathConf
begin

text \<open>
  The parameter types of \<open>internal/conf\<close> that are written as names: log level, log destinations,
  encryption, authentication methods, transport protocols, source protocol and HLS variant, with
  their JSON conversions, and the credentials and address lists.  A JSON text is modelled by the
  value it stands for; as in Go, \<open>null\<close> decodes to the empty string and to the empty list.
  The locale \<open>json_name\<close> is the contract that the one-name types share.
\<close>

section \<open>JSON values\<close>

datatype json = JNull | JBool bool | JNumber rat | JString string | JArray "json list" |
  JObject "(string \<times> json) list"

fun json_string :: "json \<Rightarrow> string result" where
  "json_string (JString s) = Inr s"
| "json_string JNull = Inr ''''"
| "json_string _ = Inl (Err ''json: cannot unmarshal into Go value of type string'')"

fun json_string_list :: "json list \<Rightarrow> string list result" where
  "json_string_list [] = Inr []"
| "json_string_list (j # js) =
     bindR (json_string j) (\<lambda>s. bindR (json_string_list js) (\<lambda>ss. Inr (s # ss)))"

fun json_strings :: "json \<Rightarrow> string list result" where
  "json_strings (JArray js) = json_string_list js"
| "json_strings JNull = Inr []"
| "json_strings _ = Inl (Err ''json: cannot unmarshal into Go value of type []string'')"

lemma json_string_list_map [simp]: "json_string_list (map JString ss) = Inr ss"
  by (induction ss) simp_all

text \<open>\<open>strings.Split(s, ",")\<close>.\<close>

fun split_comma :: "string \<Rightarrow> string list" where
  "split_comma [] = [[]]"
| "split_comma (c # cs) =
     (if c = CHR '','' then [] # split_comma cs
      else (case split_comma cs of [] \<Rightarrow> [[c]] | s # ss \<Rightarrow> (c # s) # ss))"

section \<open>Types with one name\<close>

locale json_name =
  fixes Marshal :: "'a \<Rightarrow> string result"
    and Unmarshal :: "json \<Rightarrow> 'a result"
  assumes named: "\<exists>s. Marshal x = Inr s \<and> Unmarshal (JString s) = Inr x"
begin

lemma marshal_inj: "Marshal x = Marshal y \<Longrightarrow> x = y"
  using named [of x] named [of y] by auto

lemma unmarshal_marshal: "Marshal x = Inr s \<Longrightarrow> Unmarshal (JString s) = Inr x"
  using named [of x] by auto

lemma unmarshal_surj: "\<exists>j. Unmarshal j = Inr x"
  using named [of x] by auto

end

text \<open>Log levels.\<close>

datatype log_level = Debug | Info | Warn | Error

fun LogLevel_MarshalJSON :: "log_level \<Rightarrow> string result" where
  "LogLevel_MarshalJSON Error = Inr ''error''"
| "LogLevel_MarshalJSON Warn = Inr ''warn''"
| "LogLevel_MarshalJSON Info = Inr ''info''"
| "LogLevel_MarshalJSON Debug = Inr ''debug''"

definition LogLevel_UnmarshalJSON :: "json \<Rightarrow> log_level result" where
  "LogLevel_UnmarshalJSON b =
     bindR (json_string b) (\<lambda>s.
       if s = ''error'' then Inr Error
       else if s = ''warn'' then Inr Warn
       else if s = ''info'' then Inr Info
       else if s = ''debug'' then Inr Debug
       else Inl (Err (''invalid log level: '' @ quoted s)))"

text \<open>Encryption policies.\<close>

datatype encryption = EncryptionNo | EncryptionOptional | EncryptionStrict

fun Encryption_MarshalJSON :: "encryption \<Rightarrow> string result" where
  "Encryption_MarshalJSON EncryptionNo = Inr ''no''"
| "Encryption_MarshalJSON EncryptionOptional = Inr ''optional''"
| "Encryption_MarshalJSON EncryptionStrict = Inr ''strict''"

definition Encryption_UnmarshalJSON :: "json \<Rightarrow> encryption result" where
  "Encryption_UnmarshalJSON b =
     bindR (json_string b) (\<lambda>s.
       if s = ''no'' \<or> s = ''false'' then Inr EncryptionNo
       else if s = ''optional'' then Inr EncryptionOptional
       else if s = ''strict'' \<or> s = ''yes'' \<or> s = ''true'' then Inr EncryptionStrict
       else Inl (Err (''invalid encryption: '' @ quoted s)))"

text \<open>HLS variants.\<close>

datatype hls_variant = MuxerVariantMPEGTS | MuxerVariantFMP4 | MuxerVariantLowLatency

fun HLSVariant_MarshalJSON :: "hls_variant \<Rightarrow> string result" where
  "HLSVariant_MarshalJSON MuxerVariantMPEGTS = Inr ''mpegts''"
| "HLSVariant_MarshalJSON MuxerVariantFMP4 = Inr ''fmp4''"
| "HLSVariant_MarshalJSON MuxerVariantLowLatency = Inr ''lowLatency''"

definition HLSVariant_UnmarshalJSON :: "json \<Rightarrow> hls_variant result" where
  "HLSVariant_UnmarshalJSON b =
     bindR (json_string b) (\<lambda>s.
       if s = ''mpegts'' then Inr MuxerVariantMPEGTS
       else if s = ''fmp4'' then Inr MuxerVariantFMP4
       else if s = ''lowLatency'' then Inr MuxerVariantLowLatency
       else Inl (Err (''invalid HLS variant: '' @ quoted s)))"

text \<open>The protocol of a source; \<open>None\<close> is the nil transport.\<close>

fun SourceProtocol_MarshalJSON :: "transport option \<Rightarrow> string result" where
  "SourceProtocol_MarshalJSON None = Inr ''automatic''"
| "SourceProtocol_MarshalJSON (Some TransportUDP) = Inr ''udp''"
| "SourceProtocol_MarshalJSON (Some TransportUDPMulticast) = Inr ''multicast''"
| "SourceProtocol_MarshalJSON (Some TransportTCP) = Inr ''tcp''"

definition SourceProtocol_UnmarshalJSON :: "json \<Rightarrow> transport option result" where
  "SourceProtocol_UnmarshalJSON b =
     bindR (json_string b) (\<lambda>s.
       if s = ''udp'' then Inr (Some TransportUDP)
       else if s = ''multicast'' then Inr (Some TransportUDPMulticast)
       else if s = ''tcp'' then Inr (Some TransportTCP)
       else if s = ''automatic'' then Inr None
       else Inl (Err (''invalid protocol '' @ quoted s)))"

interpretation level: json_name LogLevel_MarshalJSON LogLevel_UnmarshalJSON
proof
  fix x show "\<exists>s. LogLevel_MarshalJSON x = Inr s \<and> LogLevel_UnmarshalJSON (JString s) = Inr x"
    by (cases x) (simp_all add: LogLevel_UnmarshalJSON_def)
qed

interpretation encryption: json_name Encryption_MarshalJSON Encryption_UnmarshalJSON
proof
  fix x show "\<exists>s. Encryption_MarshalJSON x = Inr s \<and> Encryption_UnmarshalJSON (JString s) = Inr x"
    by (cases x) (simp_all add: Encryption_UnmarshalJSON_def)
qed

interpretation variant: json_name HLSVariant_MarshalJSON HLSVariant_UnmarshalJSON
proof
  fix x show "\<exists>s. HLSVariant_MarshalJSON x = Inr s \<and> HLSVariant_UnmarshalJSON (JString s) = Inr x"
    by (cases x) (simp_all add: HLSVariant_UnmarshalJSON_def)
qed

interpretation protocol: json_name SourceProtocol_MarshalJSON SourceProtocol_UnmarshalJSON
proof
  fix x show "\<exists>s. SourceProtocol_MarshalJSON x = Inr s \<and> SourceProtocol_UnmarshalJSON (JString s) = Inr x"
    by (cases x rule: SourceProtocol_MarshalJSON.cases) (simp_all add: SourceProtocol_UnmarshalJSON_def)
qed

section \<open>Types with several names\<close>

text \<open>The decoding loop: every name is decoded and added to what is there.\<close>

fun decode_all :: "(string \<Rightarrow> 'a result) \<Rightarrow> ('a \<Rightarrow> 'b \<Rightarrow> 'b result) \<Rightarrow> string list \<Rightarrow> 'b \<Rightarrow> 'b result" where
  "decode_all dec add [] acc = Inr acc"
| "decode_all dec add (s # ss) acc =
     bindR (dec s) (\<lambda>v. bindR (add v acc) (decode_all dec add ss))"

text \<open>Authentication methods; their names are sorted when they are written.\<close>

datatype auth_method = AuthBasic | AuthDigest

fun auth_method_name :: "auth_method \<Rightarrow> string" where
  "auth_method_name AuthBasic = ''basic''"
| "auth_method_name AuthDigest = ''digest''"

definition AuthMethods_MarshalJSON :: "auth_method list \<Rightarrow> json result" where
  "AuthMethods_MarshalJSON d = Inr (JArray (map JString (sort (map auth_method_name d))))"

definition auth_method_of :: "string \<Rightarrow> auth_method result" where
  "auth_method_of v =
     (if v = ''basic'' then Inr AuthBasic
      else if v = ''digest'' then Inr AuthDigest
      else Inl (Err (''invalid authentication method: '' @ quoted v)))"

definition AuthMethods_UnmarshalJSON :: "json \<Rightarrow> auth_method list \<Rightarrow> auth_method list result" where
  "AuthMethods_UnmarshalJSON b d =
     bindR (json_strings b) (\<lambda>names. decode_all auth_method_of (\<lambda>v d. Inr (d @ [v])) names d)"

definition AuthMethods_unmarshalEnv :: "string \<Rightarrow> auth_method list \<Rightarrow> auth_method list result" where
  "AuthMethods_unmarshalEnv s d = AuthMethods_UnmarshalJSON (JArray (map JString (split_comma s))) d"

text \<open>Log destinations; a destination must not be given twice.\<close>

datatype log_destination = DestinationStdout | DestinationFile | DestinationSyslog

fun log_destination_name :: "log_destination \<Rightarrow> string" where
  "log_destination_name DestinationStdout = ''stdout''"
| "log_destination_name DestinationFile = ''file''"
| "log_destination_name DestinationSyslog = ''syslog''"

definition LogDestinations_MarshalJSON :: "log_destination list \<Rightarrow> json result" where
  "LogDestinations_MarshalJSON d = Inr (JArray (map JString (map log_destination_name d)))"

definition LogDestinations_contains :: "log_destination list \<Rightarrow> log_destination \<Rightarrow> bool" where
  "LogDestinations_contains d v = list_ex (\<lambda>item. item = v) d"

definition log_destination_of :: "string \<Rightarrow> log_destination result" where
  "log_destination_of dest =
     (if dest = ''stdout'' then Inr DestinationStdout
      else if dest = ''file'' then Inr DestinationFile
      else if dest = ''syslog'' then Inr DestinationSyslog
      else Inl (Err (''invalid log destination: '' @ dest)))"

definition LogDestinations_UnmarshalJSON :: "json \<Rightarrow> log_destination list \<Rightarrow> log_destination list result" where
  "LogDestinations_UnmarshalJSON b d =
     bindR (json_strings b) (\<lambda>names.
       decode_all log_destination_of
         (\<lambda>v d. if LogDestinations_contains d v then Inl (Err ''log destination set twice'') else Inr (d @ [v]))
         names d)"

definition LogDestinations_unmarshalEnv :: "string \<Rightarrow> log_destination list \<Rightarrow> log_destination list result" where
  "LogDestinations_unmarshalEnv s d = LogDestinations_UnmarshalJSON (JArray (map JString (split_comma s))) d"

text \<open>Transport protocols, a set; decoding starts from the empty one.\<close>

fun protocol_name :: "transport \<Rightarrow> string" where
  "protocol_name TransportUDP = ''udp''"
| "protocol_name TransportUDPMulticast = ''multicast''"
| "protocol_name TransportTCP = ''tcp''"

definition Protocols_MarshalJSON :: "transport set \<Rightarrow> json result" where
  "Protocols_MarshalJSON d = Inr (JArray (map JString (sorted_list_of_set (protocol_name ` d))))"

definition protocol_of :: "string \<Rightarrow> transport result" where
  "protocol_of proto =
     (if proto = ''udp'' then Inr TransportUDP
      else if proto = ''multicast'' then Inr TransportUDPMulticast
      else if proto = ''tcp'' then Inr TransportTCP
      else Inl (Err (''invalid protocol: '' @ proto)))"

definition Protocols_UnmarshalJSON :: "json \<Rightarrow> transport set result" where
  "Protocols_UnmarshalJSON b =
     bindR (json_strings b) (\<lambda>names. decode_all protocol_of (\<lambda>v d. Inr (insert v d)) names {})"

definition Protocols_unmarshalEnv :: "string \<Rightarrow> transport set result" where
  "Protocols_unmarshalEnv s = Protocols_UnmarshalJSON (JArray (map JString (split_comma s)))"

section \<open>Credentials and addresses\<close>

definition credential_char :: "char \<Rightarrow> bool" where
  "credential_char c \<longleftrightarrow>
     (let n = (of_char c :: nat) in
      48 \<le> n \<and> n \<le> 57 \<or> 97 \<le> n \<and> n \<le> 122 \<or> 65 \<le> n \<and> n \<le> 90) \<or>
     c \<in> set ''!$()*+.;<=>[]^_-{}@#&''"

definition Credential_MarshalJSON :: "string \<Rightarrow> json result" where
  "Credential_MarshalJSON d = Inr (JString d)"

definition Credential_UnmarshalJSON :: "json \<Rightarrow> string result" where
  "Credential_UnmarshalJSON b =
     bindR (json_string b) (\<lambda>s.
       if s \<noteq> '''' \<and> \<not> HasPrefix s ''sha256:'' \<and> \<not> (s \<noteq> [] \<and> list_all credential_char s)
       then Inl (Err (''credential contains unsupported characters. Supported are: '' @
              ''A-Z,0-9,!,$,(,),*,+,.,;,<,=,>,[,],^,_,-,\",\",@,#,&''))
       else Inr s)"

definition IPsOrCIDRs_MarshalJSON :: "string list \<Rightarrow> json result" where
  "IPsOrCIDRs_MarshalJSON d = Inr (JArray (map JString (sort d)))"

definition ip_or_cidr_of :: "golib \<Rightarrow> string \<Rightarrow> string result" where
  "ip_or_cidr_of lib t =
     (case ParseCIDR lib t of
        Some ipnet \<Rightarrow> Inr ipnet
      | None \<Rightarrow>
          (case ParseIP lib t of
             Some ip \<Rightarrow> Inr ip
           | None \<Rightarrow> Inl (Err (''unable to parse IP/CIDR '' @ quoted t))))"

definition IPsOrCIDRs_UnmarshalJSON :: "golib \<Rightarrow> json \<Rightarrow> string list \<Rightarrow> string list result" where
  "IPsOrCIDRs_UnmarshalJSON lib b d =
     bindR (json_strings b) (\<lambda>ts. decode_all (ip_or_cidr_of lib) (\<lambda>v d. Inr (d @ [v])) ts d)"

definition IPsOrCIDRs_unmarshalEnv :: "golib \<Rightarrow> string \<Rightarrow> string list \<Rightarrow> string list result" where
  "IPsOrCIDRs_unmarshalEnv lib s d = IPsOrCIDRs_UnmarshalJSON lib (JArray (map JString (split_comma s))) d"

section \<open>Round trips\<close>

lemma decode_all_append:
  "\<forall>x\<in>set xs. dec (nm x) = Inr x \<Longrightarrow>
   decode_all dec (\<lambda>v d. Inr (d @ [v])) (map nm xs) d = Inr (d @ xs)"
  by (induction xs arbitrary: d) simp_all

lemma decode_all_distinct:
  "\<forall>x\<in>set xs. dec (nm x) = Inr x \<Longrightarrow> distinct (d @ xs) \<Longrightarrow>
   decode_all dec (\<lambda>v d. if v \<in> set d then Inl e else Inr (d @ [v])) (map nm xs) d = Inr (d @ xs)"
  by (induction xs arbitrary: d) simp_all

lemma decode_all_insert:
  "\<forall>s\<in>set ss. \<exists>x. dec s = Inr x \<Longrightarrow>
   decode_all dec (\<lambda>v d. Inr (insert v d)) ss d = Inr ({x. \<exists>s\<in>set ss. dec s = Inr x} \<union> d)"
  by (induction ss arbitrary: d) auto

lemma map_insort_key: "map f (insort_key f x xs) = insort (f x) (map f xs)"
  by (induction xs) simp_all

lemma sort_map_eq: "sort (map f xs) = map f (sort_key f xs)"
  by (induction xs) (simp_all add: map_insort_key)

lemma contains_set: "LogDestinations_contains d v \<longleftrightarrow> v \<in> set d"
  by (auto simp: LogDestinations_contains_def list_ex_iff)

lemma names_decode [simp]:
  shows "auth_method_of (auth_method_name a) = Inr a"
    and "log_destination_of (log_destination_name l) = Inr l"
    and "protocol_of (protocol_name t) = Inr t"
proof -
  show "auth_method_of (auth_method_name a) = Inr a" by (cases a) (simp_all add: auth_method_of_def)
  show "log_destination_of (log_destination_name l) = Inr l" by (cases l) (simp_all add: log_destination_of_def)
  show "protocol_of (protocol_name t) = Inr t" by (cases t) (simp_all add: protocol_of_def)
qed

lemma transport_finite: "finite (d :: transport set)"
proof (rule finite_subset)
  show "d \<subseteq> {TransportUDP, TransportUDPMulticast, TransportTCP}" using transport.exhaust by blast
qed simp

lemma AuthMethods_roundtrip:
  "AuthMethods_MarshalJSON d = Inr b \<Longrightarrow> AuthMethods_UnmarshalJSON b [] = Inr (sort_key auth_method_name d)"
  by (auto simp: AuthMethods_MarshalJSON_def AuthMethods_UnmarshalJSON_def sort_map_eq decode_all_append simp del: map_map)

lemma LogDestinations_roundtrip:
  "distinct d \<Longrightarrow> LogDestinations_MarshalJSON d = Inr b \<Longrightarrow> LogDestinations_UnmarshalJSON b [] = Inr d"
  by (auto simp: LogDestinations_MarshalJSON_def LogDestinations_UnmarshalJSON_def contains_set
      decode_all_distinct simp del: map_map)

lemma Protocols_roundtrip: "Protocols_MarshalJSON d = Inr b \<Longrightarrow> Protocols_UnmarshalJSON b = Inr d"
  by (auto simp: Protocols_MarshalJSON_def Protocols_UnmarshalJSON_def transport_finite decode_all_insert)

text \<open>
  C32. What the configuration writes it can read: every log level, encryption, HLS variant, source
  protocol and set of transport protocols comes back from its JSON form, log destinations come back
  in their order provided that none is given twice, and authentication methods come back sorted.
\<close>

theorem conf_names_roundtrip:
  "(\<forall>l. \<exists>s. LogLevel_MarshalJSON l = Inr s \<and> LogLevel_UnmarshalJSON (JString s) = Inr l) \<and>
   (\<forall>e. \<exists>s. Encryption_MarshalJSON e = Inr s \<and> Encryption_UnmarshalJSON (JString s) = Inr e) \<and>
   (\<forall>v. \<exists>s. HLSVariant_MarshalJSON v = Inr s \<and> HLSVariant_UnmarshalJSON (JString s) = Inr v) \<and>
   (\<forall>p. \<exists>s. SourceProtocol_MarshalJSON p = Inr s \<and> SourceProtocol_UnmarshalJSON (JString s) = Inr p) \<and>
   (\<forall>d. \<exists>b. Protocols_MarshalJSON d = Inr b \<and> Protocols_UnmarshalJSON b = Inr d) \<and>
   (\<forall>d. distinct d \<longrightarrow>
      (\<exists>b. LogDestinations_MarshalJSON d = Inr b \<and> LogDestinations_UnmarshalJSON b [] = Inr d)) \<and>
   (\<forall>d. \<exists>b. AuthMethods_MarshalJSON d = Inr b \<and>
      AuthMethods_UnmarshalJSON b [] = Inr (sort_key auth_method_name d))"
  by (simp add: level.named encryption.named variant.named protocol.named)
     (auto simp: Protocols_MarshalJSON_def LogDestinations_MarshalJSON_def AuthMethods_MarshalJSON_def
       intro: Protocols_roundtrip LogDestinations_roundtrip AuthMethods_roundtrip)

theorem conf_names_roundtrip_witness:
  "\<exists>b. LogDestinations_MarshalJSON [DestinationSyslog, DestinationStdout] = Inr b \<and>
     LogDestinations_UnmarshalJSON b [] = Inr [DestinationSyslog, DestinationStdout]"
  using conf_names_roundtrip by simp

end
