(* ===== verification/Conf.thy ===== *)
theory Conf
  imports ConfTypes "HOL-Library.AList"
begin

text \<open>
  The configuration (\<open>Conf\<close> in \<open>internal/conf/conf.go\<close>) and \<open>CheckAndFillMissing\<close>, which validates it
  and fills in the defaults, section by section as in the source, and then does the same for every
  path in the order of the names.  The map of the paths is an association list with distinct keys;
  an entry may be nil.  A parameter whose zero value stands for "not set" is an option.
\<close>

section \<open>State\<close>

record Conf_general =
  cf_LogLevel :: "log_level option"
  cf_LogDestinations :: "log_destination list"
  cf_LogFile :: string
  cf_ReadTimeout :: duration
  cf_WriteTimeout :: duration
  cf_ReadBufferCount :: int
  cf_UDPMaxPayloadSize :: int
  cf_ExternalAuthenticationURL :: string
  cf_API :: bool
  cf_APIAddress :: string
  cf_Metrics :: bool
  cf_MetricsAddress :: string
  cf_PPROF :: bool
  cf_PPROFAddress :: string
  cf_RunOnConnect :: string
  cf_RunOnConnectRestart :: bool

record Conf_rtsp = Conf_general +
  cf_RTSPDisable :: bool
  cf_Protocols :: "transport set"
  cf_Encryption :: encryption
  cf_RTSPAddress :: string
  cf_RTSPSAddress :: string
  cf_RTPAddress :: string
  cf_RTCPAddress :: string
  cf_MulticastIPRange :: string
  cf_MulticastRTPPort :: int
  cf_MulticastRTCPPort :: int
  cf_ServerKey :: string
  cf_ServerCert :: string
  cf_AuthMethods :: "auth_method list"

record Conf_rtmp = Conf_rtsp +
  cf_RTMPDisable :: bool
  cf_RTMPAddress :: string
  cf_RTMPEncryption :: encryption
  cf_RTMPSAddress :: string
  cf_RTMPServerKey :: string
  cf_RTMPServerCert :: string

record Conf_hls = Conf_rtmp +
  cf_HLSDisable :: bool
  cf_HLSAddress :: string
  cf_HLSEncryption :: bool
  cf_HLSServerKey :: string
  cf_HLSServerCert :: string
  cf_HLSAlwaysRemux :: bool
  cf_HLSVariant :: "hls_variant option"
  cf_HLSSegmentCount :: int
  cf_HLSSegmentDuration :: duration
  cf_HLSPartDuration :: duration
  cf_HLSSegmentMaxSize :: u64
  cf_HLSAllowOrigin :: string
  cf_HLSTrustedProxies :: "string list"
  cf_HLSDirectory :: string

record Conf = Conf_hls +
  cf_WebRTCDisable :: bool
  cf_WebRTCAddress :: string
  cf_WebRTCEncryption :: bool
  cf_WebRTCServerKey :: string
  cf_WebRTCServerCert :: string
  cf_WebRTCAllowOrigin :: string
  cf_WebRTCTrustedProxies :: "string list"
  cf_WebRTCICEServers :: "string list option"
  cf_WebRTCICEHostNAT1To1IPs :: "string list"
  cf_WebRTCICEUDPMuxAddress :: string
  cf_WebRTCICETCPMuxAddress :: string
  cf_Paths :: path_confs

section \<open>CheckAndFillMissing\<close>

definition dflto :: "'a \<Rightarrow> 'a option \<Rightarrow> 'a option" where
  "dflto d x = (case x of None \<Rightarrow> Some d | Some v \<Rightarrow> Some v)"

definition dfltl :: "'a list \<Rightarrow> 'a list \<Rightarrow> 'a list" where
  "dfltl d x = (if x = [] then d else x)"

lemma dflto_idem [simp]: "dflto d (dflto d x) = dflto d x"
  by (simp add: dflto_def split: option.splits)

lemma dfltl_idem [simp]: "dfltl d (dfltl d x) = dfltl d x"
  by (simp add: dfltl_def)

text \<open>\<open>n & (n - 1)\<close> on an \<open>int\<close> of 64 bits.\<close>

definition not_power_of_two :: "int \<Rightarrow> bool" where
  "not_power_of_two n \<longleftrightarrow> n AND wrap64 (n - 1) \<noteq> 0"

definition check_general :: "Conf \<Rightarrow> Conf result" where
  "check_general c =
     (let c = c\<lparr>cf_LogLevel := dflto Info (cf_LogLevel c),
               cf_LogDestinations := dfltl [DestinationStdout] (cf_LogDestinations c),
               cf_LogFile := dflts ''mediamtx.log'' (cf_LogFile c),
               cf_ReadTimeout := dflt (10 * second) (cf_ReadTimeout c),
               cf_WriteTimeout := dflt (10 * second) (cf_WriteTimeout c),
               cf_ReadBufferCount := dflt 512 (cf_ReadBufferCount c)\<rparr> in
      bindR (rejectR (not_power_of_two (cf_ReadBufferCount c))
        (quoted ''readBufferCount'' @ '' must be a power of two'')) (\<lambda>_.
      let c = c\<lparr>cf_UDPMaxPayloadSize := dflt 1472 (cf_UDPMaxPayloadSize c)\<rparr> in
      bindR (rejectR (cf_UDPMaxPayloadSize c > 1472)
        (quoted ''udpMaxPayloadSize'' @ '' must be less than 1472'')) (\<lambda>_.
      bindR (rejectR (cf_ExternalAuthenticationURL c \<noteq> '''' \<and>
          \<not> HasPrefix (cf_ExternalAuthenticationURL c) ''http://'' \<and>
          \<not> HasPrefix (cf_ExternalAuthenticationURL c) ''https://'')
        (quoted ''externalAuthenticationURL'' @ '' must be a HTTP URL'')) (\<lambda>_.
      Inr (c\<lparr>cf_APIAddress := dflts ''127.0.0.1:9997'' (cf_APIAddress c),
             cf_MetricsAddress := dflts ''127.0.0.1:9998'' (cf_MetricsAddress c),
             cf_PPROFAddress := dflts ''127.0.0.1:9999'' (cf_PPROFAddress c)\<rparr>)))))"

definition check_rtsp :: "Conf \<Rightarrow> Conf result" where
  "check_rtsp c =
     (let c = c\<lparr>cf_Protocols :=
            (if cf_Protocols c = {} then {TransportUDP, TransportUDPMulticast, TransportTCP}
             else cf_Protocols c)\<rparr> in
      bindR (rejectR (cf_Encryption c = EncryptionStrict \<and> TransportUDP \<in> cf_Protocols c)
        ''strict encryption can't be used with the UDP transport protocol'') (\<lambda>_.
      bindR (rejectR (cf_Encryption c = EncryptionStrict \<and> TransportUDPMulticast \<in> cf_Protocols c)
        ''strict encryption can't be used with the UDP-multicast transport protocol'') (\<lambda>_.
      Inr (c\<lparr>cf_RTSPAddress := dflts '':8554'' (cf_RTSPAddress c),
             cf_RTSPSAddress := dflts '':8322'' (cf_RTSPSAddress c),
             cf_RTPAddress := dflts '':8000'' (cf_RTPAddress c),
             cf_RTCPAddress := dflts '':8001'' (cf_RTCPAddress c),
             cf_MulticastIPRange := dflts ''224.1.0.0/16'' (cf_MulticastIPRange c),
             cf_MulticastRTPPort := dflt 8002 (cf_MulticastRTPPort c),
             cf_MulticastRTCPPort := dflt 8003 (cf_MulticastRTCPPort c),
             cf_ServerKey := dflts ''server.key'' (cf_ServerKey c),
             cf_ServerCert := dflts ''server.crt'' (cf_ServerCert c),
             cf_AuthMethods := dfltl [AuthBasic, AuthDigest] (cf_AuthMethods c)\<rparr>))))"

definition fill_rtmp :: "Conf \<Rightarrow> Conf" where
  "fill_rtmp c =
     c\<lparr>cf_RTMPAddress := dflts '':1935'' (cf_RTMPAddress c),
       cf_RTMPSAddress := dflts '':1936'' (cf_RTMPSAddress c)\<rparr>"

definition fill_hls :: "Conf \<Rightarrow> Conf" where
  "fill_hls c =
     c\<lparr>cf_HLSAddress := dflts '':8888'' (cf_HLSAddress c),
       cf_HLSServerKey := dflts ''server.key'' (cf_HLSServerKey c),
       cf_HLSServerCert := dflts ''server.crt'' (cf_HLSServerCert c),
       cf_HLSVariant := dflto MuxerVariantLowLatency (cf_HLSVariant c),
       cf_HLSSegmentCount := dflt 7 (cf_HLSSegmentCount c),
       cf_HLSSegmentDuration := dflt second (cf_HLSSegmentDuration c),
       cf_HLSPartDuration := dflt (200 * millisecond) (cf_HLSPartDuration c),
       cf_HLSSegmentMaxSize := dflt (50 * 1024 * 1024) (cf_HLSSegmentMaxSize c),
       cf_HLSAllowOrigin := dflts ''*'' (cf_HLSAllowOrigin c)\<rparr>"

definition fill_webrtc :: "Conf \<Rightarrow> Conf" where
  "fill_webrtc c =
     c\<lparr>cf_WebRTCAddress := dflts '':8889'' (cf_WebRTCAddress c),
       cf_WebRTCServerKey := dflts ''server.key'' (cf_WebRTCServerKey c),
       cf_WebRTCServerCert := dflts ''server.crt'' (cf_WebRTCServerCert c),
       cf_WebRTCAllowOrigin := dflts ''*'' (cf_WebRTCAllowOrigin c),
       cf_WebRTCICEServers := dflto [''stun:stun.l.google.com:19302''] (cf_WebRTCICEServers c)\<rparr>"

text \<open>\<open>&PathConf{}\<close>.\<close>

definition zero_PathConf :: PathConf where
  "zero_PathConf =
     \<lparr>pc_Regexp = None, pc_Source = '''', pc_SourceProtocol = None, pc_SourceAnyPortEnable = False,
      pc_SourceFingerprint = '''', pc_SourceOnDemand = False, pc_SourceOnDemandStartTimeout = 0,
      pc_SourceOnDemandCloseAfter = 0, pc_SourceRedirect = '''', pc_DisablePublisherOverride = False,
      pc_Fallback = '''', pc_RPICameraCamID = 0, pc_RPICameraWidth = 0, pc_RPICameraHeight = 0,
      pc_RPICameraHFlip = False, pc_RPICameraVFlip = False, pc_RPICameraBrightness = 0,
      pc_RPICameraContrast = 0, pc_RPICameraSaturation = 0, pc_RPICameraSharpness = 0,
      pc_RPICameraExposure = '''', pc_RPICameraAWB = '''', pc_RPICameraDenoise = '''',
      pc_RPICameraShutter = 0, pc_RPICameraMetering = '''', pc_RPICameraGain = 0, pc_RPICameraEV = 0,
      pc_RPICameraROI = '''', pc_RPICameraTuningFile = '''', pc_RPICameraMode = '''', pc_RPICameraFPS = 0,
      pc_RPICameraIDRPeriod = 0, pc_RPICameraBitrate = 0, pc_RPICameraProfile = '''',
      pc_RPICameraLevel = '''', pc_RPICameraAfMode = '''', pc_RPICameraAfRange = '''',
      pc_RPICameraAfSpeed = '''', pc_RPICameraLensPosition = 0, pc_RPICameraAfWindow = '''',
      pc_RPICameraTextOverlayEnable = False, pc_RPICameraTextOverlay = '''', pc_PublishUser = '''',
      pc_PublishPass = '''', pc_PublishIPs = [], pc_ReadUser = '''', pc_ReadPass = '''', pc_ReadIPs = [],
      pc_RunOnInit = '''', pc_RunOnInitRestart = False, pc_RunOnDemand = '''',
      pc_RunOnDemandRestart = False, pc_RunOnDemandStartTimeout = 0, pc_RunOnDemandCloseAfter = 0,
      pc_RunOnReady = '''', pc_RunOnReadyRestart = False, pc_RunOnRead = '''', pc_RunOnReadRestart = False\<rparr>"

text \<open>"all" is an alias.\<close>

definition rename_all :: "path_confs \<Rightarrow> path_confs" where
  "rename_all ps =
     (case map_of ps ''all'' of
        None \<Rightarrow> ps
      | Some pconf \<Rightarrow> AList.delete ''all'' (AList.update ''~^.*$'' pconf ps))"

definition path_at :: "path_confs \<Rightarrow> string \<Rightarrow> PathConf" where
  "path_at ps name = (case map_of ps name of Some (Some p) \<Rightarrow> p | _ \<Rightarrow> zero_PathConf)"

fun check_paths :: "golib \<Rightarrow> string \<Rightarrow> string list \<Rightarrow> path_confs \<Rightarrow> path_confs result" where
  "check_paths lib ext [] ps = Inr ps"
| "check_paths lib ext (name # names) ps =
     (let pconf = path_at ps name; ps = AList.update name (Some pconf) ps in
      bindR (PathConf_checkAndFillMissing lib ext ps name pconf) (\<lambda>p.
        check_paths lib ext names (AList.update name (Some p) ps)))"

definition CheckAndFillMissing :: "golib \<Rightarrow> Conf \<Rightarrow> Conf result" where
  "CheckAndFillMissing lib c =
     bindR (check_general c) (\<lambda>c.
     bindR (check_rtsp c) (\<lambda>c.
     let c = fill_webrtc (fill_hls (fill_rtmp c)); ps = rename_all (cf_Paths c) in
     bindR (check_paths lib (cf_ExternalAuthenticationURL c) (sort (map fst ps)) ps) (\<lambda>ps.
     Inr (c\<lparr>cf_Paths := ps\<rparr>))))"

section \<open>Powers of two\<close>

lemma and_double_int: "(2 * m) AND (2 * k + 1) = 2 * (m AND k)" for m k :: int
  by (simp add: and_int_rec [of "2 * m"])

lemma and_pred_zero:
  "0 < n \<Longrightarrow> int n AND (int n - 1) = 0 \<Longrightarrow> \<exists>k. n = 2 ^ k"
proof (induction n rule: less_induct)
  case (less n)
  show ?case
  proof (cases "even n")
    case True
    then obtain m where m: "n = 2 * m" by (elim evenE)
    have "int n AND (int n - 1) = 2 * (int m AND (int m - 1))"
      using and_double_int [of "int m" "int m - 1"] by (simp add: m)
    then have "m < n" "0 < m" "int m AND (int m - 1) = 0" using less.prems m by simp_all
    from less.IH [OF this] obtain k where "m = 2 ^ k" by blast
    then have "n = 2 ^ Suc k" using m by simp
    then show ?thesis by blast
  next
    case False
    then obtain m where m: "n = 2 * m + 1" by (elim oddE)
    have "int n AND (int n - 1) = 2 * int m"
      using and_int_rec [of "int n" "int n - 1"] by (simp add: m)
    with less.prems(2) m have "n = 2 ^ 0" by simp
    then show ?thesis by blast
  qed
qed

lemma power_of_two:
  assumes "\<not> not_power_of_two n" and "n \<noteq> 0" and "- (2 ^ 63) \<le> n" and "n < 2 ^ 63"
  shows "(\<exists>k. n = 2 ^ k) \<or> n = - (2 ^ 63)"
proof (cases "n = - (2 ^ 63)")
  case False
  with assms have w: "wrap64 (n - 1) = n - 1" by simp
  with assms(1) have z: "n AND (n - 1) = 0" by (simp add: not_power_of_two_def)
  have "\<not> (n < 0 \<and> n - 1 < 0)" using z by (metis and_negative_int_iff less_irrefl)
  with assms(2) have "0 < n" by linarith
  then obtain m where m: "n = int m" "0 < m" by (metis pos_int_cases)
  from and_pred_zero [OF m(2)] z m(1) obtain k where "m = 2 ^ k" by auto
  with m(1) show ?thesis by auto
qed simp

section \<open>Paths\<close>

text \<open>What the check of a camera sees of the other paths.\<close>

definition camera_at :: "path_confs \<Rightarrow> string \<Rightarrow> int option" where
  "camera_at ps name =
     (case map_of ps name of
        Some (Some q) \<Rightarrow> if pc_Source q = ''rpiCamera'' then Some (pc_RPICameraCamID q) else None
      | _ \<Rightarrow> None)"

lemma same_camera_None:
  assumes "distinct (map fst ps)"
  shows "same_camera ps name cam = None \<longleftrightarrow> (\<forall>m. m \<noteq> name \<longrightarrow> camera_at ps m \<noteq> Some cam)"
proof -
  have "same_camera ps name cam = None \<longleftrightarrow> (\<forall>(m, q)\<in>set ps. m \<noteq> name \<longrightarrow>
      \<not> (case q of None \<Rightarrow> False | Some q \<Rightarrow> pc_Source q = ''rpiCamera'' \<and> pc_RPICameraCamID q = cam))"
    by (auto simp: same_camera_def find_None_iff)
  also have "\<dots> \<longleftrightarrow> (\<forall>m. m \<noteq> name \<longrightarrow> camera_at ps m \<noteq> Some cam)"
    using assms by (fastforce simp: camera_at_def map_of_eq_Some_iff split: option.splits if_splits)
  finally show ?thesis .
qed

lemma check_source_paths:
  assumes "check_source lib ps name p = Inr ()" and "distinct (map fst ps)" "distinct (map fst ps')"
    and "camera_at ps' = camera_at ps"
  shows "check_source lib ps' name p = Inr ()"
proof -
  have "same_camera ps' name cam = None \<longleftrightarrow> same_camera ps name cam = None" for cam
    using assms(2-4) by (simp add: same_camera_None)
  with assms(1) show ?thesis
    by (auto simp: check_source_def Let_def bindR_Inr_iff split: if_splits option.splits)
qed

lemma checkAndFillMissing_paths:
  assumes "PathConf_checkAndFillMissing lib ext ps name p = Inr p'"
    and "distinct (map fst ps)" "distinct (map fst ps')" "camera_at ps' = camera_at ps"
  shows "PathConf_checkAndFillMissing lib ext ps' name p = Inr p'"
proof -
  have "check_path_source lib ps name q = Inr q' \<Longrightarrow> check_path_source lib ps' name q = Inr q'" for q q'
    using check_source_paths [OF _ assms(2-4), of lib name q] by (auto simp: check_path_source_def bindR_Inr_iff)
  with assms(1) show ?thesis
    by (auto simp: PathConf_checkAndFillMissing_def bindR_Inr_iff Let_def)
qed

lemma camera_at_update:
  "camera_at (AList.update name q ps) =
   (camera_at ps)(name := (case q of
      Some q \<Rightarrow> if pc_Source q = ''rpiCamera'' then Some (pc_RPICameraCamID q) else None
    | None \<Rightarrow> None))"
  by (auto simp: camera_at_def update_conv' fun_eq_iff split: option.splits)

lemma checked_camera:
  assumes "PathConf_checkAndFillMissing lib ext ps name p = Inr p'"
  shows "pc_Source p' = ''rpiCamera'' \<longleftrightarrow> pc_Source p = ''rpiCamera''"
    and "pc_RPICameraCamID p' = pc_RPICameraCamID p"
proof -
  obtain p1 p2 where n: "check_path_name lib name p = Inr p1"
    and c: "check_path_source lib ps name (fill_source p1) = Inr p2"
    and p': "pc_Source p' = pc_Source p2" "pc_RPICameraCamID p' = pc_RPICameraCamID p2"
    using assms by (rule checkAndFillMissing_steps) simp
  obtain r where "p1 = p\<lparr>pc_Regexp := r\<rparr>" using check_path_name_Inr [OF n] by blast
  with check_path_source_Inr(2) [OF c] p'
  show "pc_Source p' = ''rpiCamera'' \<longleftrightarrow> pc_Source p = ''rpiCamera''"
    and "pc_RPICameraCamID p' = pc_RPICameraCamID p"
    by (simp_all add: fill_source_def fill_rpicamera_def dflts_def)
qed

text \<open>An accepted path with a camera is the only one with that camera.\<close>

lemma checked_same_camera:
  assumes "PathConf_checkAndFillMissing lib ext ps name p = Inr p'" and "pc_Source p' = ''rpiCamera''"
  shows "same_camera ps name (pc_RPICameraCamID p') = None"
proof -
  obtain p1 p2 where c: "check_path_source lib ps name (fill_source p1) = Inr p2"
    and p': "pc_Source p' = pc_Source p2" "pc_RPICameraCamID p' = pc_RPICameraCamID p2"
    using assms(1) by (rule checkAndFillMissing_steps) simp
  from check_path_source_Inr(2) [OF c] p' assms(2)
  have "pc_Source (fill_source p1) = ''rpiCamera''" "pc_RPICameraCamID p' = pc_RPICameraCamID (fill_source p1)"
    by (simp_all add: fill_rpicamera_def split: if_splits)
  with c show ?thesis
    by (auto simp: check_path_source_def check_source_def Let_def bindR_Inr_iff split: option.splits)
qed

lemma path_at_camera:
  "camera_at ps name =
   (if pc_Source (path_at ps name) = ''rpiCamera'' then Some (pc_RPICameraCamID (path_at ps name)) else None)"
  by (simp add: camera_at_def path_at_def zero_PathConf_def split: option.splits)

lemma update_same: "map_of ps name = Some v \<Longrightarrow> AList.update name v ps = ps"
  by (induction ps) (auto split: if_splits)

lemma update_keys: "name \<in> set (map fst ps) \<Longrightarrow> map fst (AList.update name v ps) = map fst ps"
  by (simp add: update_keys)

text \<open>
  After the loop every path of \<open>names\<close> is filled in, is accepted as it is, and the keys and the
  cameras are those from before.
\<close>

lemma check_paths_result:
  assumes "distinct names" and "distinct (map fst ps)" and "set names \<subseteq> set (map fst ps)"
    and "check_paths lib ext names ps = Inr ps'"
  shows "map fst ps' = map fst ps \<and> camera_at ps' = camera_at ps \<and>
    (\<forall>n. n \<notin> set names \<longrightarrow> map_of ps' n = map_of ps n) \<and>
    (\<forall>n\<in>set names. \<exists>p. map_of ps' n = Some (Some p) \<and> pathconf_valid p \<and>
       PathConf_checkAndFillMissing lib ext ps' n p = Inr p)"
  using assms
proof (induction names arbitrary: ps)
  case Nil
  then show ?case by simp
next
  case (Cons name names)
  let ?p0 = "path_at ps name" and ?ps0 = "AList.update name (Some (path_at ps name)) ps"
  obtain p where p: "PathConf_checkAndFillMissing lib ext ?ps0 name ?p0 = Inr p"
    and rest: "check_paths lib ext names (AList.update name (Some p) ?ps0) = Inr ps'"
    using Cons.prems(4) by (auto simp: Let_def bindR_Inr_iff)
  let ?ps1 = "AList.update name (Some p) ?ps0"
  have keys: "map fst ?ps0 = map fst ps" "map fst ?ps1 = map fst ps"
    using Cons.prems(3) by (simp_all add: update_keys)
  have cam: "camera_at ?ps0 = camera_at ps" "camera_at ?ps1 = camera_at ps"
    using checked_camera [OF p] path_at_camera [of ps name] by (auto simp: camera_at_update)
  have other: "map_of ?ps1 n = map_of ps n" if "n \<noteq> name" for n
    using that by (simp add: update_conv')
  have hd: "map_of ?ps1 name = Some (Some p)" by (simp add: update_conv')
  note IH = Cons.IH [OF _ _ _ rest]
  have ih: "map fst ps' = map fst ?ps1 \<and> camera_at ps' = camera_at ?ps1 \<and>
    (\<forall>n. n \<notin> set names \<longrightarrow> map_of ps' n = map_of ?ps1 n) \<and>
    (\<forall>n\<in>set names. \<exists>p. map_of ps' n = Some (Some p) \<and> pathconf_valid p \<and>
       PathConf_checkAndFillMissing lib ext ps' n p = Inr p)"
    by (rule IH) (use Cons.prems keys in auto)
  have d: "distinct (map fst ?ps0)" "distinct (map fst ps')" using Cons.prems(2) keys ih by simp_all
  have "PathConf_checkAndFillMissing lib ext ps' name p = Inr p"
    using checkAndFillMissing_paths [OF checkAndFillMissing_idem [OF p] d] cam ih by simp
  moreover have "map_of ps' name = Some (Some p)" using ih hd Cons.prems(1) by simp
  moreover have "pathconf_valid p" by (rule checkAndFillMissing_valid [OF p])
  ultimately show ?case using ih keys cam other by auto
qed

lemma check_paths_fixed:
  assumes "\<forall>n\<in>set names. \<exists>p. map_of ps n = Some (Some p) \<and>
    PathConf_checkAndFillMissing lib ext ps n p = Inr p"
  shows "check_paths lib ext names ps = Inr ps"
  using assms by (induction names) (auto simp: path_at_def update_same)

section \<open>The whole configuration\<close>

lemma rename_all_keys:
  assumes "distinct (map fst ps)"
  shows "distinct (map fst (rename_all ps))" "''all'' \<notin> set (map fst (rename_all ps))"
proof -
  have "distinct (map fst (AList.update k v ps))" for k v using assms by (rule distinct_update)
  then show "distinct (map fst (rename_all ps))"
    using assms by (auto simp: rename_all_def distinct_delete split: option.splits)
  show "''all'' \<notin> set (map fst (rename_all ps))"
  proof (cases "map_of ps ''all''")
    case None
    then have "rename_all ps = ps" by (simp add: rename_all_def)
    with None show ?thesis by (simp only: map_of_eq_None_iff set_map not_False_eq_True)
  next
    case (Some q)
    then have "rename_all ps = AList.delete ''all'' (AList.update ''~^.*$'' q ps)"
      by (simp add: rename_all_def)
    then show ?thesis by (simp only: AList.delete_keys set_removeAll) simp
  qed
qed

lemma rename_all_id: "''all'' \<notin> set (map fst ps) \<Longrightarrow> rename_all ps = ps"
  by (simp add: rename_all_def map_of_eq_None_iff [THEN iffD2] split: option.splits)

text \<open>The sections as a condition and a function that fills in the defaults.\<close>

definition fill_general :: "Conf \<Rightarrow> Conf" where
  "fill_general c =
     c\<lparr>cf_LogLevel := dflto Info (cf_LogLevel c),
       cf_LogDestinations := dfltl [DestinationStdout] (cf_LogDestinations c),
       cf_LogFile := dflts ''mediamtx.log'' (cf_LogFile c),
       cf_ReadTimeout := dflt (10 * second) (cf_ReadTimeout c),
       cf_WriteTimeout := dflt (10 * second) (cf_WriteTimeout c),
       cf_ReadBufferCount := dflt 512 (cf_ReadBufferCount c),
       cf_UDPMaxPayloadSize := dflt 1472 (cf_UDPMaxPayloadSize c),
       cf_APIAddress := dflts ''127.0.0.1:9997'' (cf_APIAddress c),
       cf_MetricsAddress := dflts ''127.0.0.1:9998'' (cf_MetricsAddress c),
       cf_PPROFAddress := dflts ''127.0.0.1:9999'' (cf_PPROFAddress c)\<rparr>"

definition general_ok :: "Conf \<Rightarrow> bool" where
  "general_ok c \<longleftrightarrow>
     \<not> not_power_of_two (dflt 512 (cf_ReadBufferCount c)) \<and> dflt 1472 (cf_UDPMaxPayloadSize c) \<le> 1472 \<and>
     (cf_ExternalAuthenticationURL c = '''' \<or> HasPrefix (cf_ExternalAuthenticationURL c) ''http://'' \<or>
      HasPrefix (cf_ExternalAuthenticationURL c) ''https://'')"

lemma check_general_iff: "check_general c = Inr c' \<longleftrightarrow> general_ok c \<and> c' = fill_general c"
  by (auto simp: check_general_def fill_general_def general_ok_def Let_def bindR_Inr_iff)

definition rtsp_protocols :: "Conf \<Rightarrow> transport set" where
  "rtsp_protocols c =
     (if cf_Protocols c = {} then {TransportUDP, TransportUDPMulticast, TransportTCP} else cf_Protocols c)"

definition fill_rtsp :: "Conf \<Rightarrow> Conf" where
  "fill_rtsp c =
     c\<lparr>cf_Protocols := rtsp_protocols c,
       cf_RTSPAddress := dflts '':8554'' (cf_RTSPAddress c),
       cf_RTSPSAddress := dflts '':8322'' (cf_RTSPSAddress c),
       cf_RTPAddress := dflts '':8000'' (cf_RTPAddress c),
       cf_RTCPAddress := dflts '':8001'' (cf_RTCPAddress c),
       cf_MulticastIPRange := dflts ''224.1.0.0/16'' (cf_MulticastIPRange c),
       cf_MulticastRTPPort := dflt 8002 (cf_MulticastRTPPort c),
       cf_MulticastRTCPPort := dflt 8003 (cf_MulticastRTCPPort c),
       cf_ServerKey := dflts ''server.key'' (cf_ServerKey c),
       cf_ServerCert := dflts ''server.crt'' (cf_ServerCert c),
       cf_AuthMethods := dfltl [AuthBasic, AuthDigest] (cf_AuthMethods c)\<rparr>"

definition rtsp_ok :: "Conf \<Rightarrow> bool" where
  "rtsp_ok c \<longleftrightarrow>
     (cf_Encryption c = EncryptionStrict \<longrightarrow>
      TransportUDP \<notin> rtsp_protocols c \<and> TransportUDPMulticast \<notin> rtsp_protocols c)"

lemma check_rtsp_iff: "check_rtsp c = Inr c' \<longleftrightarrow> rtsp_ok c \<and> c' = fill_rtsp c"
  by (auto simp: check_rtsp_def fill_rtsp_def rtsp_ok_def rtsp_protocols_def Let_def bindR_Inr_iff)

definition fill_conf :: "Conf \<Rightarrow> Conf" where
  "fill_conf c = fill_webrtc (fill_hls (fill_rtmp (fill_rtsp (fill_general c))))"

lemmas fill_defs = fill_conf_def fill_webrtc_def fill_hls_def fill_rtmp_def fill_rtsp_def fill_general_def

lemma fill_conf_simps [simp]:
  "cf_Paths (fill_conf c) = cf_Paths c"
  "cf_ExternalAuthenticationURL (fill_conf c) = cf_ExternalAuthenticationURL c"
  "cf_ReadBufferCount (fill_conf c) = dflt 512 (cf_ReadBufferCount c)"
  "cf_UDPMaxPayloadSize (fill_conf c) = dflt 1472 (cf_UDPMaxPayloadSize c)"
  "cf_Encryption (fill_conf c) = cf_Encryption c" "cf_Protocols (fill_conf c) = rtsp_protocols c"
  by (simp_all add: fill_defs rtsp_protocols_def)

lemma fill_conf_idem: "fill_conf ((fill_conf c)\<lparr>cf_Paths := ps\<rparr>) = (fill_conf c)\<lparr>cf_Paths := ps\<rparr>"
  by (cases c) (simp add: fill_defs rtsp_protocols_def)

lemma rtsp_ok_fill: "rtsp_ok (fill_general c) = rtsp_ok c"
  by (simp add: rtsp_ok_def rtsp_protocols_def fill_general_def)

lemma CheckAndFillMissing_iff:
  "CheckAndFillMissing lib c = Inr c' \<longleftrightarrow> general_ok c \<and> rtsp_ok c \<and>
   (\<exists>ps. check_paths lib (cf_ExternalAuthenticationURL c) (sort (map fst (rename_all (cf_Paths c))))
      (rename_all (cf_Paths c)) = Inr ps \<and> c' = (fill_conf c)\<lparr>cf_Paths := ps\<rparr>)"
  unfolding CheckAndFillMissing_def bindR_Inr_iff check_general_iff check_rtsp_iff Let_def
  by (auto simp: rtsp_ok_fill bindR_Inr_iff fill_conf_def [symmetric])

lemma checked_paths:
  assumes "distinct (map fst ps)"
    and "check_paths lib ext (sort (map fst (rename_all ps))) (rename_all ps) = Inr ps'"
  shows "map fst ps' = map fst (rename_all ps)" "''all'' \<notin> set (map fst ps')"
    and "(n, q) \<in> set ps' \<Longrightarrow> \<exists>p. q = Some p \<and> pathconf_valid p"
    and "check_paths lib ext (sort (map fst ps')) ps' = Inr ps'"
    and "camera_at ps' n = Some cam \<Longrightarrow> camera_at ps' m = Some cam \<Longrightarrow> n = m"
proof -
  note keys = rename_all_keys [OF assms(1)]
  have "distinct (sort (map fst (rename_all ps)))" using keys(1) by simp
  note res = check_paths_result [OF this keys(1) _ assms(2), unfolded set_sort, OF subset_refl]
  have r: "map fst ps' = map fst (rename_all ps)"
    "\<forall>n\<in>set (map fst (rename_all ps)). \<exists>p. map_of ps' n = Some (Some p) \<and> pathconf_valid p \<and>
       PathConf_checkAndFillMissing lib ext ps' n p = Inr p"
    using res by blast+
  from r(1) keys show "map fst ps' = map fst (rename_all ps)" "''all'' \<notin> set (map fst ps')" by simp_all
  show "\<exists>p. q = Some p \<and> pathconf_valid p" if m: "(n, q) \<in> set ps'"
  proof -
    have "n \<in> set (map fst ps')" using m by force
    then obtain p where "map_of ps' n = Some (Some p)" "pathconf_valid p" using r by auto
    moreover have "map_of ps' n = Some q" using m keys(1) r(1) by simp
    ultimately show ?thesis by simp
  qed
  show "check_paths lib ext (sort (map fst ps')) ps' = Inr ps'"
    by (rule check_paths_fixed) (use r in auto)
  show "n = m" if c: "camera_at ps' n = Some cam" "camera_at ps' m = Some cam"
  proof (rule ccontr)
    assume "n \<noteq> m"
    obtain p where p: "map_of ps' n = Some (Some p)" "pc_Source p = ''rpiCamera''" "pc_RPICameraCamID p = cam"
      using c(1) by (auto simp: camera_at_def split: option.splits if_splits)
    have "n \<in> set (map fst (rename_all ps))"
      using map_of_SomeD [OF p(1)] unfolding r(1) [symmetric] by (metis fst_conv image_eqI set_map)
    from bspec [OF r(2) this] p(1) have "PathConf_checkAndFillMissing lib ext ps' n p = Inr p"
      by (elim exE conjE) simp
    from checked_same_camera [OF this p(2)] p(3) have "\<forall>m. m \<noteq> n \<longrightarrow> camera_at ps' m \<noteq> Some cam"
      using same_camera_None [of ps' n cam] keys(1) r(1) by (simp only: simp_thms)
    from this [rule_format, of m] c(2) \<open>n \<noteq> m\<close> show False by simp
  qed
qed

text \<open>
  C30. A configuration that passes \<open>CheckAndFillMissing\<close> is sound: the read buffer count is a power of
  two (or the smallest 64-bit integer, which the bit trick does not catch), the UDP payload fits, strict
  encryption leaves TCP only, and every path has a source of a known kind, has a regular expression
  only without a static source, runs commands on demand only for publishers, and has either both or
  none of user and password; no two paths use the same Raspberry Pi camera; the name "all" has been
  replaced.
\<close>

theorem CheckAndFillMissing_sound:
  assumes "CheckAndFillMissing lib c = Inr c'" and "distinct (map fst (cf_Paths c))"
    and "- (2 ^ 63) \<le> cf_ReadBufferCount c" and "cf_ReadBufferCount c < 2 ^ 63"
  shows "((\<exists>k. cf_ReadBufferCount c' = 2 ^ k) \<or> cf_ReadBufferCount c' = - (2 ^ 63)) \<and>
    cf_UDPMaxPayloadSize c' \<le> 1472 \<and>
    (cf_Encryption c' = EncryptionStrict \<longrightarrow> cf_Protocols c' = {TransportTCP}) \<and>
    (\<forall>(name, q) \<in> set (cf_Paths c'). name \<noteq> ''all'' \<and> (\<exists>p. q = Some p \<and> pathconf_valid p)) \<and>
    (\<forall>n m p q. map_of (cf_Paths c') n = Some (Some p) \<and> map_of (cf_Paths c') m = Some (Some q) \<and> n \<noteq> m \<and>
       pc_Source p = ''rpiCamera'' \<and> pc_Source q = ''rpiCamera'' \<longrightarrow> pc_RPICameraCamID p \<noteq> pc_RPICameraCamID q)"
proof -
  from assms(1) obtain ps where ok: "general_ok c" "rtsp_ok c" and c': "c' = (fill_conf c)\<lparr>cf_Paths := ps\<rparr>"
    and ps: "check_paths lib (cf_ExternalAuthenticationURL c) (sort (map fst (rename_all (cf_Paths c))))
      (rename_all (cf_Paths c)) = Inr ps"
    by (auto simp: CheckAndFillMissing_iff)
  have "(\<exists>k. dflt 512 (cf_ReadBufferCount c) = 2 ^ k) \<or> dflt 512 (cf_ReadBufferCount c) = - (2 ^ 63)"
    by (rule power_of_two) (use ok assms(3,4) in \<open>auto simp: general_ok_def dflt_def\<close>)
  moreover have "rtsp_protocols c = {TransportTCP}" if "cf_Encryption c = EncryptionStrict"
  proof -
    have "rtsp_protocols c \<noteq> {}" by (simp add: rtsp_protocols_def)
    moreover have "t = TransportTCP" if "t \<in> rtsp_protocols c" for t
      using that \<open>cf_Encryption c = EncryptionStrict\<close> ok(2) by (cases t) (auto simp: rtsp_ok_def)
    ultimately show ?thesis by blast
  qed
  moreover have "\<forall>(name, q) \<in> set ps. name \<noteq> ''all'' \<and> (\<exists>p. q = Some p \<and> pathconf_valid p)"
    using checked_paths(2,3) [OF assms(2) ps] by force
  moreover have "\<forall>n m p q. map_of ps n = Some (Some p) \<and> map_of ps m = Some (Some q) \<and> n \<noteq> m \<and>
      pc_Source p = ''rpiCamera'' \<and> pc_Source q = ''rpiCamera'' \<longrightarrow> pc_RPICameraCamID p \<noteq> pc_RPICameraCamID q"
  proof (intro allI impI notI, elim conjE)
    fix n m p q
    assume "map_of ps n = Some (Some p)" "map_of ps m = Some (Some q)" "n \<noteq> m" "pc_Source p = ''rpiCamera''"
      "pc_Source q = ''rpiCamera''" "pc_RPICameraCamID p = pc_RPICameraCamID q"
    then show False
      using checked_paths(5) [OF assms(2) ps, of n "pc_RPICameraCamID p" m] by (simp add: camera_at_def)
  qed
  ultimately show ?thesis using ok(1) by (simp add: c' general_ok_def)
qed

text \<open>
  C31. \<open>CheckAndFillMissing\<close> is idempotent: a configuration that it has accepted and completed is
  accepted again and not changed.  (The API validates a clone of the running configuration again
  after every edit.)
\<close>

theorem CheckAndFillMissing_idempotent:
  assumes "CheckAndFillMissing lib c = Inr c'" and "distinct (map fst (cf_Paths c))"
  shows "CheckAndFillMissing lib c' = Inr c'"
proof -
  from assms(1) obtain ps where ok: "general_ok c" "rtsp_ok c" and c': "c' = (fill_conf c)\<lparr>cf_Paths := ps\<rparr>"
    and ps: "check_paths lib (cf_ExternalAuthenticationURL c) (sort (map fst (rename_all (cf_Paths c))))
      (rename_all (cf_Paths c)) = Inr ps"
    by (auto simp: CheckAndFillMissing_iff)
  note r = checked_paths [OF assms(2) ps]
  have "general_ok c'" "rtsp_ok c'" "cf_ExternalAuthenticationURL c' = cf_ExternalAuthenticationURL c"
    using ok by (simp_all add: c' general_ok_def rtsp_ok_def) (simp add: rtsp_protocols_def split: if_splits)
  moreover have "rename_all ps = ps" using r(2) by (rule rename_all_id)
  moreover have "fill_conf c' = c'" by (simp add: c' fill_conf_idem)
  ultimately show ?thesis
    unfolding CheckAndFillMissing_iff using r(4) by (intro conjI exI [of _ ps]) (simp_all add: c')
qed

text \<open>A library that parses nothing but plain names, for the examples.\<close>

definition plain_lib :: golib where
  "plain_lib =
     \<lparr>regexp_compiles = (\<lambda>_. True), regexp_submatch = (\<lambda>re s. if re = ''^.*$'' then Some [s] else None),
      gourl_Parse = (\<lambda>_. None), rtspurl_Parse_ok = (\<lambda>_. True), SplitHostPort = (\<lambda>_. None),
      ParseIP = (\<lambda>_. None), ParseCIDR = (\<lambda>_. None)\<rparr>"

definition sample_conf :: Conf where
  "sample_conf =
     \<lparr>cf_LogLevel = None, cf_LogDestinations = [], cf_LogFile = '''', cf_ReadTimeout = 0, cf_WriteTimeout = 0,
      cf_ReadBufferCount = 1024, cf_UDPMaxPayloadSize = 0, cf_ExternalAuthenticationURL = '''', cf_API = True,
      cf_APIAddress = '''', cf_Metrics = False, cf_MetricsAddress = '''', cf_PPROF = False, cf_PPROFAddress = '''',
      cf_RunOnConnect = '''', cf_RunOnConnectRestart = False, cf_RTSPDisable = False,
      cf_Protocols = {TransportTCP}, cf_Encryption = EncryptionStrict, cf_RTSPAddress = '''',
      cf_RTSPSAddress = '''', cf_RTPAddress = '''', cf_RTCPAddress = '''', cf_MulticastIPRange = '''',
      cf_MulticastRTPPort = 0, cf_MulticastRTCPPort = 0, cf_ServerKey = '''', cf_ServerCert = '''',
      cf_AuthMethods = [], cf_RTMPDisable = False, cf_RTMPAddress = '''', cf_RTMPEncryption = EncryptionNo,
      cf_RTMPSAddress = '''', cf_RTMPServerKey = '''', cf_RTMPServerCert = '''', cf_HLSDisable = False,
      cf_HLSAddress = '''', cf_HLSEncryption = False, cf_HLSServerKey = '''', cf_HLSServerCert = '''',
      cf_HLSAlwaysRemux = False, cf_HLSVariant = None, cf_HLSSegmentCount = 0, cf_HLSSegmentDuration = 0,
      cf_HLSPartDuration = 0, cf_HLSSegmentMaxSize = 0, cf_HLSAllowOrigin = '''', cf_HLSTrustedProxies = [],
      cf_HLSDirectory = '''', cf_WebRTCDisable = False, cf_WebRTCAddress = '''', cf_WebRTCEncryption = False,
      cf_WebRTCServerKey = '''', cf_WebRTCServerCert = '''', cf_WebRTCAllowOrigin = '''',
      cf_WebRTCTrustedProxies = [], cf_WebRTCICEServers = None, cf_WebRTCICEHostNAT1To1IPs = [],
      cf_WebRTCICEUDPMuxAddress = '''', cf_WebRTCICETCPMuxAddress = '''',
      cf_Paths = [(''all'', None),
        (''cam'', Some (zero_PathConf\<lparr>pc_RunOnDemand := ''start''\<rparr>))]\<rparr>"

lemma sample_conf_facts:
  "general_ok sample_conf" "rtsp_ok sample_conf" "distinct (map fst (cf_Paths sample_conf))"
  "- (2 ^ 63) \<le> cf_ReadBufferCount sample_conf" "cf_ReadBufferCount sample_conf < 2 ^ 63"
  "cf_ExternalAuthenticationURL sample_conf = ''''" "cf_Encryption sample_conf = EncryptionStrict"
proof -
  have "(1024 :: int) AND wrap64 (1024 - 1) = 0" by (simp add: wrap64_def)
  then show "general_ok sample_conf"
    by (simp add: general_ok_def sample_conf_def dflt_def not_power_of_two_def)
qed (simp_all add: rtsp_ok_def rtsp_protocols_def sample_conf_def)

lemma default_path_accepted:
  assumes "check_path_name lib name p = Inr q" "pc_Source q = ''''" "\<not> pc_SourceOnDemand q"
    "pc_PublishUser q = ''''" "pc_PublishPass q = ''''" "pc_PublishIPs q = []"
    "pc_ReadUser q = ''''" "pc_ReadPass q = ''''" "pc_ReadIPs q = []" "pc_RunOnInit q = ''''"
    "pc_Fallback q = ''''"
  shows "\<exists>r. PathConf_checkAndFillMissing lib url ps name p = Inr r"
  using assms
  by (simp add: PathConf_checkAndFillMissing_def fill_source_def dflts_def check_path_source_def
      check_source_def check_fallback_def check_path_auth_def half_filled_def rejectR_def)

lemma sample_names_accepted:
  "check_path_name plain_lib ''cam'' p = Inr p"
  "check_path_name plain_lib ''~^.*$'' p = Inr (p\<lparr>pc_Regexp := Some ''^.*$''\<rparr>)"
  by (simp_all add: check_path_name_def IsValidPathName_def path_char_def plain_lib_def)

lemma sample_paths_renamed:
  "rename_all (cf_Paths sample_conf) =
     [(''cam'', Some (zero_PathConf\<lparr>pc_RunOnDemand := ''start''\<rparr>)), (''~^.*$'', None)]"
  by (simp add: rename_all_def sample_conf_def AList.delete_eq)

lemma sample_names_sorted: "sort [''cam'', ''~^.*$''] = [''cam'', ''~^.*$'']"
  by code_simp

lemma sample_paths_accepted:
  "\<exists>ps. check_paths plain_lib '''' (sort (map fst (rename_all (cf_Paths sample_conf))))
      (rename_all (cf_Paths sample_conf)) = Inr ps"
proof -
  let ?cam = "zero_PathConf\<lparr>pc_RunOnDemand := ''start''\<rparr>"
  have "\<exists>r. PathConf_checkAndFillMissing plain_lib '''' ps ''cam'' ?cam = Inr r" for ps
    by (rule default_path_accepted [OF sample_names_accepted(1)]) (simp_all add: zero_PathConf_def)
  moreover have "\<exists>r. PathConf_checkAndFillMissing plain_lib '''' ps ''~^.*$'' zero_PathConf = Inr r" for ps
    by (rule default_path_accepted [OF sample_names_accepted(2)]) (simp_all add: zero_PathConf_def)
  ultimately obtain f g where
      "PathConf_checkAndFillMissing plain_lib '''' ps ''cam'' ?cam = Inr (f ps)"
      "PathConf_checkAndFillMissing plain_lib '''' ps ''~^.*$'' zero_PathConf = Inr (g ps)" for ps
    by metis
  then show ?thesis by (simp add: sample_paths_renamed sample_names_sorted Let_def path_at_def)
qed

lemma sample_conf_accepted: "\<exists>c'. CheckAndFillMissing plain_lib sample_conf = Inr c'"
  using sample_paths_accepted sample_conf_facts by (simp add: CheckAndFillMissing_iff)

theorem CheckAndFillMissing_sound_witness:
  "\<exists>c'. CheckAndFillMissing plain_lib sample_conf = Inr c' \<and> cf_Protocols c' = {TransportTCP} \<and>
     cf_UDPMaxPayloadSize c' \<le> 1472"
proof -
  obtain c' where c': "CheckAndFillMissing plain_lib sample_conf = Inr c'" using sample_conf_accepted by blast
  have "cf_Encryption c' = EncryptionStrict"
    using c' sample_conf_facts(7) by (auto simp: CheckAndFillMissing_iff)
  note sound = CheckAndFillMissing_sound [OF c' sample_conf_facts(3-5), THEN conjunct2]
  with \<open>cf_Encryption c' = EncryptionStrict\<close> have "cf_Protocols c' = {TransportTCP}"
    by (intro sound [THEN conjunct2, THEN conjunct1, THEN mp])
  with sound [THEN conjunct1] c' show ?thesis by (intro exI [of _ c'] conjI)
qed

theorem CheckAndFillMissing_idempotent_witness:
  "\<exists>c'. CheckAndFillMissing plain_lib sample_conf = Inr c' \<and> CheckAndFillMissing plain_lib c' = Inr c'"
  using sample_conf_accepted CheckAndFillMissing_idempotent [OF _ sample_conf_facts(3)] by blast

end
