(* ===== verification/PathSpec.thy ===== *)
theory PathSpec
  imports PathTrace Conf
begin

text \<open>
  The properties of a path over its whole life, from \<open>newPath\<close> and the beginning of \<open>run\<close> through any
  sequence of events that can happen.
\<close>

section \<open>Runs\<close>

definition path_run :: "pathlib \<Rightarrow> path_event list \<Rightarrow> path \<Rightarrow> run_state option" where
  "path_run lib es pa = do { pa \<leftarrow> path_init lib pa; run (path_step lib) es (Running pa) }"

definition path_feasible :: "pathlib \<Rightarrow> path_event list \<Rightarrow> path \<Rightarrow> bool" where
  "path_feasible lib es pa =
     (case path_init lib pa of None \<Rightarrow> True | Some pa \<Rightarrow> feasible event_enabled (path_step lib) es (Running pa))"

definition requests :: "path_event list \<Rightarrow> req_id multiset" where
  "requests es = sum_list (map request es)"

lemma path_run_life:
  assumes "pathconf_valid cnf" "path_feasible lib es (newPath rtsp sz confName cnf name matches)"
  shows "\<exists>s. path_run lib es (newPath rtsp sz confName cnf name matches) = Some s \<and> life_inv s \<and> stock s = requests es"
proof -
  obtain pa where pa: "path_init lib (newPath rtsp sz confName cnf name matches) = Some pa" "life_inv (Running pa)" "taken pa = {#}"
    using path_init_life [OF assms(1)] by blast
  with assms(2) have "feasible event_enabled (path_step lib) es (Running pa)" by (simp add: path_feasible_def)
  with pa path_life.run_inv [of "Running pa" lib es] path_life.run_balance [of "Running pa" lib es] show ?thesis
    by (auto simp: path_run_def requests_def)
qed

lemma path_run_running:
  assumes "pathconf_valid cnf" "path_feasible lib es (newPath rtsp sz confName cnf name matches)"
    and "path_run lib es (newPath rtsp sz confName cnf name matches) = Some (Running pa)"
  shows "path_inv pa" and "books pa"
  using path_run_life [OF assms(1,2)] assms(3) by auto

text \<open>A path whose publisher is started by a command when someone asks for it.\<close>

definition on_demand_sample :: PathConf where
  "on_demand_sample = zero_PathConf
     \<lparr>pc_Source := ''publisher'', pc_RunOnDemand := ''run'', pc_SourceOnDemandStartTimeout := 10,
      pc_SourceOnDemandCloseAfter := 10, pc_RunOnDemandStartTimeout := 10, pc_RunOnDemandCloseAfter := 10\<rparr>"

definition plain_pathlib :: pathlib where
  "plain_pathlib = golib.extend plain_lib \<lparr>url_String = (\<lambda>u p. p), format_String = (\<lambda>f. ''format'')\<rparr>"

definition sample_path :: path where
  "sample_path = newPath '':8554'' 1472 ''cam'' on_demand_sample ''cam'' []"

definition sample_describe :: describe_req where
  "sample_describe = \<lparr>dr_id = 7, dr_url = \<lparr>ru_Scheme = ''rtsp'', ru_User = None, ru_Host = ''h''\<rparr>\<rparr>"

definition sample_reader :: readerAdd_req where
  "sample_reader = \<lparr>ra_id = 8, ra_author = 1\<rparr>"

lemma on_demand_sample_valid: "pathconf_valid on_demand_sample"
  by (simp add: pathconf_valid_def on_demand_sample_def zero_PathConf_def HasStaticSource_def)

lemma on_demand_sample_simps:
  "\<not> HasOnDemandStaticSource on_demand_sample" "HasOnDemandPublisher on_demand_sample"
  "pc_Source on_demand_sample = ''publisher''" "pc_Regexp on_demand_sample = None" "pc_RunOnInit on_demand_sample = ''''"
  "\<not> HasStaticSource on_demand_sample" "pc_DisablePublisherOverride on_demand_sample = False"
  by (simp_all add: on_demand_sample_def zero_PathConf_def HasOnDemandStaticSource_def HasOnDemandPublisher_def)

lemma sample_path_init: "path_init lib sample_path = Some sample_path"
  by (simp add: path_init_def sample_path_def newPath_def on_demand_sample_simps)

text \<open>A client asks for the description and a reader joins; then the publisher does not come in time.\<close>

abbreviation sample_events :: "path_event list" where
  "sample_events \<equiv> [Describe sample_describe, PathReaderAdd sample_reader]"

definition waiting_path :: path where
  "waiting_path = hold_reader sample_reader (hold_describe sample_describe (onDemandPublisherStart plain_pathlib sample_path))"

lemma sample_steps:
  "path_step plain_pathlib (Describe sample_describe) (Running sample_path) =
     Some (Running (hold_describe sample_describe (onDemandPublisherStart plain_pathlib sample_path)))"
  "path_step plain_pathlib (PathReaderAdd sample_reader)
     (Running (hold_describe sample_describe (onDemandPublisherStart plain_pathlib sample_path))) = Some (Running waiting_path)"
  by (simp_all add: handleDescribe_def handleReaderAdd_def sample_path_def newPath_def on_demand_sample_simps
      check_close_def shouldClose_def hold_describe_def hold_reader_def onDemandPublisherStart_def waiting_path_def)

lemma sample_feasible: "path_feasible plain_pathlib sample_events sample_path"
  by (simp add: path_feasible_def sample_path_init sample_steps del: path_step.simps)

lemma sample_run: "path_run plain_pathlib sample_events sample_path = Some (Running waiting_path)"
  by (simp add: path_run_def sample_path_init sample_steps del: path_step.simps)

lemmas sample_at = on_demand_sample_valid sample_feasible [unfolded sample_path_def] sample_run [unfolded sample_path_def]

section \<open>Properties\<close>

text \<open>
  C6. A path whose configuration has passed the checks never panics: from its creation, no type
  assertion fails and no \<open>panic("should not happen")\<close> is reached, whatever sequence of events happens
  (requests in any order, timers, reports of the source, reloads, the end), and its invariant holds in
  every state that it goes through.
\<close>

theorem path_never_panics:
  assumes "pathconf_valid cnf" "path_feasible lib es (newPath rtsp sz confName cnf name matches)"
  shows "\<exists>s. path_run lib es (newPath rtsp sz confName cnf name matches) = Some s \<and> run_inv s"
proof -
  obtain pa where pa: "path_init lib (newPath rtsp sz confName cnf name matches) = Some pa" "path_inv pa"
    using path_init_inv [OF assms(1)] by blast
  with assms(2) path_machine.run_inv [of "Running pa" lib es] show ?thesis
    by (simp add: path_feasible_def path_run_def)
qed

theorem path_never_panics_witness:
  "pathconf_valid on_demand_sample \<and> path_feasible plain_pathlib sample_events sample_path \<and>
   (\<exists>s. path_run plain_pathlib sample_events sample_path = Some s \<and> run_inv s)"
  using path_never_panics [OF sample_at(1,2)] on_demand_sample_valid sample_feasible by (simp add: sample_path_def)

text \<open>
  C7. Every request is answered exactly once.  As long as the path runs, the requests that it has
  answered together with those on hold are exactly the requests that it has received (as
  multisets); once it has ended, it has answered exactly the requests received, including those
  that arrived after its end.
\<close>

theorem requests_answered_once:
  assumes "pathconf_valid cnf" "path_feasible lib es (newPath rtsp sz confName cnf name matches)"
    and "path_run lib es (newPath rtsp sz confName cnf name matches) = Some s"
  shows "case s of
      Running pa \<Rightarrow> requests es = answered (pa_out pa) + mset (map dr_id (pa_describeRequestsOnHold pa)) +
        mset (map ra_id (pa_readerAddRequestsOnHold pa))
    | Stopped pa \<Rightarrow> requests es = answered (pa_out pa)"
  using path_run_life [OF assms(1,2)] assms(3) by (cases s) (auto simp: taken_def)

theorem requests_answered_once_witness:
  "path_run plain_pathlib sample_events sample_path = Some (Running waiting_path) \<and>
   requests sample_events = answered (pa_out waiting_path) + mset (map dr_id (pa_describeRequestsOnHold waiting_path)) +
     mset (map ra_id (pa_readerAddRequestsOnHold waiting_path))"
  using requests_answered_once [OF sample_at] sample_run by simp

text \<open>
  C9. What a path starts, it stops.  In the messages it sends, \<open>sourceReady\<close> and \<open>sourceNotReady\<close>
  alternate, and so do the start and stop of a static source and the start and close of each of the
  commands \<open>runOnInit\<close>, \<open>runOnDemand\<close> and \<open>runOnReady\<close>; while it runs, the last of them agrees with its
  state, and when it has ended all of them are off.
\<close>

theorem path_switches:
  assumes "pathconf_valid cnf" "path_feasible lib es (newPath rtsp sz confName cnf name matches)"
    and "path_run lib es (newPath rtsp sz confName cnf name matches) = Some s"
  shows "case s of Running pa \<Rightarrow> books pa | Stopped pa \<Rightarrow> all_off (pa_out pa)"
  using path_run_life [OF assms(1,2)] assms(3) by (cases s) auto

theorem path_switches_witness:
  "path_run plain_pathlib sample_events sample_path = Some (Running waiting_path) \<and> books waiting_path"
  using path_switches [OF sample_at] sample_run by simp

definition ready_timer :: "path \<Rightarrow> path_event" where
  "ready_timer pa = (if HasOnDemandStaticSource (pa_conf pa) then StaticSourceReadyTimer else PublisherReadyTimer)"

definition timeouts :: "path \<Rightarrow> path_out list" where
  "timeouts pa =
     map (\<lambda>req. DescribeRes (dr_id req) (Inl (timed_out pa))) (pa_describeRequestsOnHold pa) @
     map (\<lambda>req. ReaderAddRes (ra_id req) (Inl (timed_out pa))) (pa_readerAddRequestsOnHold pa)"

fun path_of :: "run_state \<Rightarrow> path" where
  "path_of (Running pa) = pa" | "path_of (Stopped pa) = pa"

lemma timed_out_update [simp]:
  "timed_out (pa\<lparr>pa_onDemandStaticSourceReadyTimer := t\<rparr>) = timed_out pa"
  "timed_out (pa\<lparr>pa_onDemandPublisherReadyTimer := t\<rparr>) = timed_out pa"
  by (simp_all add: timed_out_def)

lemma ready_timer_static:
  assumes "path_inv pa" "on_hold pa" "HasOnDemandStaticSource (pa_conf pa)"
  shows "pa_onDemandStaticSourceReadyTimer pa \<noteq> None \<and>
    (\<exists>pa' c. path_select lib StaticSourceReadyTimer pa = Some (pa', c) \<and>
      pa_out pa' = pa_out pa @ timeouts pa @ [SourceStop] \<and> \<not> on_hold pa')"
  using assms
  by (cases "pa_onDemandStaticSourceState pa")
    (auto simp: path_inv_def static_inv_def onDemandStaticSourceStop_def sourceStatic_stop_def fail_on_hold_eq
      timeouts_def check_close_def on_hold_def Let_def)

lemma ready_timer_publisher:
  assumes "path_inv pa" "on_hold pa" "\<not> HasOnDemandStaticSource (pa_conf pa)"
  shows "pa_onDemandPublisherReadyTimer pa \<noteq> None \<and>
    (\<exists>pa' c. path_select lib PublisherReadyTimer pa = Some (pa', c) \<and>
      (\<exists>rest. pa_out pa' = pa_out pa @ timeouts pa @ rest) \<and> \<not> on_hold pa')"
proof -
  let ?pa = "fail_on_hold (timed_out pa) (pa\<lparr>pa_onDemandPublisherReadyTimer := None\<rparr>)"
  have w: "publisher_inv pa" "base_inv pa" using assms by (auto simp: path_inv_def split: if_splits)
  with assms(2) have st: "pa_onDemandPublisherState pa = pathOnDemandStateWaitingReady"
    by (cases "pa_onDemandPublisherState pa") (simp_all add: publisher_inv_def)
  have "pa_source ?pa = None \<and> pa_stream ?pa = None \<or> (\<exists>p. pa_source ?pa = Some (SourcePublisher p))"
      "pa_stream ?pa = None \<longrightarrow> pa_readers ?pa = [] \<and> \<not> pa_onReadyCmd ?pa"
    using w by (simp_all add: fail_on_hold_eq publisher_inv_def publisher_source_def base_inv_def)
  note stop = onDemandPublisherStop_eq [OF this]
  show ?thesis
    using w st
    by (simp add: publisher_inv_def check_close_def Let_def stop)
      (simp add: fail_on_hold_eq timeouts_def on_hold_def)
qed

text \<open>
  C8. No request waits forever: whenever requests are on hold, the ready timer of the source is armed, and when it fires,
  every request on hold is answered with the error that the source has timed out, in the order in
  which they arrived (descriptions first), and none stays on hold.
\<close>

theorem on_hold_times_out:
  assumes "pathconf_valid cnf" "path_feasible lib es (newPath rtsp sz confName cnf name matches)"
    and "path_run lib es (newPath rtsp sz confName cnf name matches) = Some (Running pa)" "on_hold pa"
  shows "path_enabled (ready_timer pa) pa \<and>
    (\<exists>s rest. path_step lib (ready_timer pa) (Running pa) = Some s \<and>
      pa_out (path_of s) = pa_out pa @ timeouts pa @ rest \<and> (\<forall>pa'. s = Running pa' \<longrightarrow> \<not> on_hold pa'))"
proof -
  note i = path_run_running(1) [OF assms(1-3)]
  have "\<exists>pa' c rest. path_select lib (ready_timer pa) pa = Some (pa', c) \<and> path_inv pa' \<and>
      pa_out pa' = pa_out pa @ timeouts pa @ rest \<and> \<not> on_hold pa' \<and> path_enabled (ready_timer pa) pa"
    using ready_timer_static [OF i assms(4), of lib] ready_timer_publisher [OF i assms(4), of lib]
      path_select_inv [OF i, of "ready_timer pa" lib]
    by (auto simp: ready_timer_def simp del: path_select.simps)
  then obtain pa' c rest where p: "path_select lib (ready_timer pa) pa = Some (pa', c)" "path_inv pa'"
      "pa_out pa' = pa_out pa @ timeouts pa @ rest" "\<not> on_hold pa'" "path_enabled (ready_timer pa) pa" by blast
  with path_exit_eq [OF p(2)] show ?thesis by (cases c) auto
qed

lemma waiting_on_hold: "on_hold waiting_path"
  by (simp add: on_hold_def waiting_path_def hold_reader_def)

theorem on_hold_times_out_witness:
  "on_hold waiting_path \<and> path_enabled (ready_timer waiting_path) waiting_path \<and>
   (\<exists>s rest. path_step plain_pathlib (ready_timer waiting_path) (Running waiting_path) = Some s \<and>
     pa_out (path_of s) = pa_out waiting_path @ timeouts waiting_path @ rest \<and>
     (\<forall>pa'. s = Running pa' \<longrightarrow> \<not> on_hold pa'))"
  using on_hold_times_out [OF sample_at waiting_on_hold] waiting_on_hold by blast

definition on_demand_state :: "path \<Rightarrow> pathOnDemandState" where
  "on_demand_state pa = (if HasOnDemandStaticSource (pa_conf pa) then pa_onDemandStaticSourceState pa
     else pa_onDemandPublisherState pa)"

definition on_demand_timers :: "path \<Rightarrow> duration option \<times> duration option" where
  "on_demand_timers pa = (if HasOnDemandStaticSource (pa_conf pa)
     then (pa_onDemandStaticSourceReadyTimer pa, pa_onDemandStaticSourceCloseTimer pa)
     else (pa_onDemandPublisherReadyTimer pa, pa_onDemandPublisherCloseTimer pa))"

definition on_demand_contract :: "path \<Rightarrow> bool" where
  "on_demand_contract pa \<longleftrightarrow>
     (on_demand_state pa = pathOnDemandStateReady \<longleftrightarrow> pa_stream pa \<noteq> None \<and> pa_readers pa \<noteq> []) \<and>
     (on_demand_state pa = pathOnDemandStateClosing \<longleftrightarrow> pa_stream pa \<noteq> None \<and> pa_readers pa = []) \<and>
     (on_hold pa \<longrightarrow> on_demand_state pa = pathOnDemandStateWaitingReady) \<and>
     (fst (on_demand_timers pa) \<noteq> None \<longleftrightarrow> on_demand_state pa = pathOnDemandStateWaitingReady) \<and>
     (snd (on_demand_timers pa) \<noteq> None \<longleftrightarrow> on_demand_state pa = pathOnDemandStateClosing)"

lemma on_demand_inv_contract:
  assumes "on_demand_inv st rt ct stream readers onHold"
  shows "(st = pathOnDemandStateReady \<longleftrightarrow> stream \<and> readers) \<and> (st = pathOnDemandStateClosing \<longleftrightarrow> stream \<and> \<not> readers) \<and>
    (onHold \<longrightarrow> st = pathOnDemandStateWaitingReady) \<and> (rt \<noteq> None \<longleftrightarrow> st = pathOnDemandStateWaitingReady) \<and>
    (ct \<noteq> None \<longleftrightarrow> st = pathOnDemandStateClosing)"
  using assms by (cases st) auto

text \<open>
  C10. The state of an on-demand source says exactly what is going on.  In every reachable state of a
  path with an on-demand source (a static one, or a publisher started by a command): it is
  \<open>Initial\<close> without stream, readers, requests on hold or timers; \<open>WaitingReady\<close> without stream and with the
  ready timer armed; \<open>Ready\<close> exactly when there are a stream and readers; \<open>Closing\<close> exactly when there is
  a stream and no reader, and then the close timer is armed; requests are on hold only in
  \<open>WaitingReady\<close>.
\<close>

theorem on_demand_states:
  assumes "pathconf_valid cnf" "path_feasible lib es (newPath rtsp sz confName cnf name matches)"
    and "path_run lib es (newPath rtsp sz confName cnf name matches) = Some (Running pa)"
    and "HasOnDemandStaticSource (pa_conf pa) \<or> HasOnDemandPublisher (pa_conf pa)"
  shows "on_demand_contract pa"
proof -
  note i = path_run_running(1) [OF assms(1-3)]
  show ?thesis
  proof (cases "HasOnDemandStaticSource (pa_conf pa)")
    case True
    with i have "static_inv pa" by (simp add: path_inv_def)
    then show ?thesis
      unfolding static_inv_def on_demand_contract_def on_demand_state_def on_demand_timers_def
      using True by (elim conjE) (drule on_demand_inv_contract, simp)
  next
    case False
    with i assms(4) have "publisher_inv pa" by (simp add: path_inv_def)
    then show ?thesis
      unfolding publisher_inv_def on_demand_contract_def on_demand_state_def on_demand_timers_def
      using False by (elim conjE) (drule on_demand_inv_contract, simp)
  qed
qed

lemma waiting_conf: "HasOnDemandPublisher (pa_conf waiting_path)"
  by (simp add: waiting_path_def hold_reader_def hold_describe_def onDemandPublisherStart_def sample_path_def newPath_def
      on_demand_sample_simps)

theorem on_demand_states_witness:
  "HasOnDemandPublisher (pa_conf waiting_path) \<and> on_demand_contract waiting_path"
  using on_demand_states [OF sample_at] waiting_conf by blast

definition publisher_accepted :: "path \<Rightarrow> bool" where
  "publisher_accepted pa \<longleftrightarrow> pc_Source (pa_conf pa) = ''publisher'' \<and>
     (pa_source pa = None \<or> \<not> pc_DisablePublisherOverride (pa_conf pa))"

lemma doPublisherRemove_out:
  assumes "publisher_source pa" "base_inv pa" "doPublisherRemove pa = Some pa'"
  shows "pa_stream pa' = None \<and> pa_readers pa' = [] \<and>
    (\<exists>outs. pa_out pa' = pa_out pa @ outs \<and> (\<forall>r \<in> set (pa_readers pa). ReaderClose r \<in> set outs))"
proof (cases "pa_stream pa")
  case None
  with assms(2,3) show ?thesis by (auto simp: doPublisherRemove.simps base_inv_def)
next
  case (Some s)
  have stop: "onDemandPublisherStop pa = Some pa1 \<Longrightarrow> pa_stream pa1 = None \<and> pa_readers pa1 = [] \<and>
      (\<exists>outs. pa_out pa1 = pa_out pa @ outs \<and> (\<forall>r \<in> set (pa_readers pa). ReaderClose r \<in> set outs))" for pa1
    using assms(1,2) Some
    by (subst (asm) onDemandPublisherStop_eq) (auto simp: publisher_source_def base_inv_def unset_out_def not_ready_out_def)
  from Some assms(3) stop show ?thesis
    by (auto simp: doPublisherRemove.simps sourceSetNotReady_eq not_ready_out_def split: bind_splits if_splits)
qed

text \<open>
  C11. Publishing.  A publisher is accepted exactly when the source of the path is \<open>publisher\<close> and either
  nobody publishes or overriding is allowed; a rejected one changes nothing and gets the error; an
  accepted one becomes the source and finds no stream and no reader of its predecessor, which has been
  closed, and all whose readers have been closed before.
\<close>

theorem publisher_override:
  assumes "path_inv pa"
  shows "\<exists>pa'. handlePublisherAdd req author pa = Some pa' \<and>
    (if publisher_accepted pa
     then pa_source pa' = Some (SourcePublisher author) \<and> last (pa_out pa') = PublisherAddRes req (Inr ()) \<and>
       (\<forall>p. pa_source pa = Some (SourcePublisher p) \<longrightarrow>
         pa_stream pa' = None \<and> pa_readers pa' = [] \<and>
         (\<exists>outs. pa_out pa' = pa_out pa @ [PublisherClose p] @ outs \<and>
           (\<forall>r \<in> set (pa_readers pa). ReaderClose r \<in> set outs)))
     else \<exists>err. pa' = emit (PublisherAddRes req (Inl err)) pa)"
proof -
  obtain pa' where p: "handlePublisherAdd req author pa = Some pa'"
    using handlePublisherAdd_inv [OF assms] by blast
  show ?thesis
  proof (cases "publisher_accepted pa")
    case False
    with p show ?thesis by (auto simp: handlePublisherAdd_def publisher_accepted_def split: if_splits)
  next
    case True
    show ?thesis
    proof (cases "pa_source pa")
      case None
      with True p show ?thesis by (auto simp: handlePublisherAdd_def publisher_accepted_def)
    next
      case (Some src)
      with True p obtain q pa1 where q: "src = SourcePublisher q" "doPublisherRemove (emit (PublisherClose q) pa) = Some pa1"
          "pa' = emit (PublisherAddRes req (Inr ())) (pa1\<lparr>pa_source := Some (SourcePublisher author)\<rparr>)"
        by (cases src) (auto simp: handlePublisherAdd_def publisher_accepted_def split: bind_splits)
      with Some have "publisher_source (emit (PublisherClose q) pa)" by (simp add: publisher_source_def)
      with doPublisherRemove_out [OF this _ q(2)] path_inv_base [OF assms] q Some True p show ?thesis by auto
    qed
  qed
qed

theorem publisher_override_witness:
  "path_inv waiting_path \<and> publisher_accepted waiting_path \<and>
   (\<exists>pa'. handlePublisherAdd 9 3 waiting_path = Some pa' \<and> pa_source pa' = Some (SourcePublisher 3) \<and>
     last (pa_out pa') = PublisherAddRes 9 (Inr ()))"
proof -
  have inv: "path_inv waiting_path" by (rule path_run_running(1) [OF sample_at])
  moreover have acc: "publisher_accepted waiting_path"
    by (simp add: publisher_accepted_def waiting_path_def hold_reader_def hold_describe_def onDemandPublisherStart_def
        sample_path_def newPath_def on_demand_sample_simps)
  ultimately show ?thesis using publisher_override [OF inv, of 9 3] by auto
qed

end
