(* ===== verification/PathManagerSpec.thy ===== *)
theory PathManagerSpec
  imports PathManagerInv PathSpec
begin

text \<open>The properties of the path manager.\<close>

section \<open>A sample\<close>

definition any_path :: PathConf where
  "any_path = on_demand_sample\<lparr>pc_Regexp := Some ''x'', pc_RunOnDemand := ''''\<rparr>"

definition sample_confs :: "(string \<times> PathConf) list" where
  "sample_confs = [(''~x'', any_path), (''b'', on_demand_sample)]"

definition sample_lib :: golib where
  "sample_lib = plain_lib\<lparr>regexp_submatch := (\<lambda>re s. if s = ''a'' then Some [s] else None)\<rparr>"

definition ref_b :: path_ref where
  "ref_b = \<lparr>pr_id = 0, pr_name = ''b'', pr_confName = ''b''\<rparr>"

definition ref_a :: path_ref where
  "ref_a = \<lparr>pr_id = 1, pr_name = ''a'', pr_confName = ''~x''\<rparr>"

abbreviation sample_pm :: pathManager where
  "sample_pm \<equiv> newPathManager sample_confs"

abbreviation ask_a :: pm_event where
  "ask_a \<equiv> PmDescribe 4 ''a'' None"

lemma sample_regexps [simp]: "pc_Regexp any_path = Some ''x''" "pc_Regexp on_demand_sample = None"
  by (simp_all add: any_path_def on_demand_sample_simps)

lemma sample_confs_distinct: "distinct (map fst sample_confs)"
  by (simp add: sample_confs_def)

lemma sample_pm_inv: "pm_inv sample_pm"
  by (rule newPathManager_inv [OF sample_confs_distinct])

lemma sample_pm_table: "pm_paths sample_pm = [(''b'', ref_b)]" "pm_pathConfs sample_pm = sample_confs" "pm_next sample_pm = 1"
  by (simp_all add: newPathManager_def sample_confs_def createPath_def pm_emit_def Let_def ref_b_def)

lemma valid_a: "IsValidPathName ''a'' = Inr ()"
  by (simp add: IsValidPathName_def path_char_def)

lemma sample_find: "findPathConf sample_lib ''a'' sample_pm = Inr (''~x'', any_path, [''a''])"
proof -
  have "map_of sample_confs ''a'' = None" "find_regexp sample_lib ''a'' sample_confs = Some (''~x'', any_path, [''a''])"
    by (simp_all add: sample_confs_def sample_lib_def)
  then show ?thesis by (simp add: findPathConf_def valid_a sample_pm_table)
qed

section \<open>Properties\<close>

text \<open>
  C12. The table of the paths and the index by configuration agree in every state of the path manager:
  whatever sequence of requests, closing paths and reloads it handles, a path is in the set of a
  configuration exactly if it is the path of its name and was created from this configuration, which
  still exists; no set is empty; a name has at most one path and pointers are pairwise different.
\<close>

theorem path_table_consistent:
  assumes "distinct (map fst cs)" "feasible pm_enabled (pm_step lib) es (newPathManager cs)"
  shows "\<exists>pm. run (pm_step lib) es (newPathManager cs) = Some pm \<and> pm_inv pm"
  by (rule pm_machine.run_inv [OF newPathManager_inv [OF assms(1)] assms(2)])

theorem path_table_consistent_witness:
  "distinct (map fst sample_confs) \<and> feasible pm_enabled (pm_step sample_lib) [ask_a, PmConfReload []] sample_pm \<and>
   (\<exists>pm. run (pm_step sample_lib) [ask_a, PmConfReload []] sample_pm = Some pm \<and> pm_inv pm)"
proof -
  have "feasible pm_enabled (pm_step sample_lib) [ask_a, PmConfReload []] sample_pm" by (simp add: pm_step_def)
  with path_table_consistent [OF sample_confs_distinct this] sample_confs_distinct show ?thesis by blast
qed

text \<open>
  The requests for a path: the name, the function that checks the credentials (the code passes nil for
  requests that are not checked) and whether it is a publisher that asks.
\<close>

fun access_request :: "pm_event \<Rightarrow> (string \<times> authenticateFunc option \<times> bool) option" where
  "access_request (PmDescribe req name auth) = Some (name, auth, False)"
| "access_request (PmReaderAdd req name auth) = Some (name, auth, False)"
| "access_request (PmPublisherAdd req name auth) = Some (name, Some auth, True)"
| "access_request _ = None"

fun access_answer :: "pm_out \<Rightarrow> path_ref pm_result option" where
  "access_answer (PmDescribeRes req res) = Some res"
| "access_answer (PmReaderAddRes req res) = Some res"
| "access_answer (PmPublisherAddRes req res) = Some res"
| "access_answer _ = None"

text \<open>
  The policy, stated without the functions of the manager: which names are valid, which configuration
  applies to a name (the one of this very name, or else the first one in the order of the iteration
  whose regular expression matches, with its submatches), and when the credentials are accepted.
\<close>

definition valid_name :: "string \<Rightarrow> bool" where
  "valid_name name \<longleftrightarrow> name \<noteq> [] \<and> hd name \<noteq> CHR ''/'' \<and> last name \<noteq> CHR ''/'' \<and> (\<forall>c \<in> set name. path_char c)"

definition conf_matches :: "golib \<Rightarrow> string \<Rightarrow> PathConf \<Rightarrow> string list \<Rightarrow> bool" where
  "conf_matches lib name cnf ms \<longleftrightarrow> (\<exists>re. pc_Regexp cnf = Some re \<and> regexp_submatch lib re name = Some ms)"

definition conf_applies ::
  "golib \<Rightarrow> (string \<times> PathConf) list \<Rightarrow> string \<Rightarrow> string \<Rightarrow> PathConf \<Rightarrow> string list \<Rightarrow> bool" where
  "conf_applies lib confs name c cnf ms \<longleftrightarrow>
     (name, cnf) \<in> set confs \<and> c = name \<and> ms = [] \<or>
     name \<notin> fst ` set confs \<and>
     (\<exists>before after. confs = before @ (c, cnf) # after \<and> conf_matches lib name cnf ms \<and>
        (\<forall>(c', cnf') \<in> set before. \<forall>ms'. \<not> conf_matches lib name cnf' ms'))"

definition refused_with :: "authenticateFunc option \<Rightarrow> bool \<Rightarrow> PathConf \<Rightarrow> pm_error \<Rightarrow> bool" where
  "refused_with auth publish cnf err \<longleftrightarrow> (\<exists>f. auth = Some f \<and>
     (if publish then f (pc_PublishIPs cnf) (pc_PublishUser cnf) (pc_PublishPass cnf)
      else f (pc_ReadIPs cnf) (pc_ReadUser cnf) (pc_ReadPass cnf)) = Some err)"

lemma valid_name_iff: "IsValidPathName name = Inr () \<longleftrightarrow> valid_name name"
  by (simp add: IsValidPathName_def valid_name_def list_all_iff)

lemma find_regexp_iff:
  "find_regexp lib name confs = Some (c, cnf, ms) \<longleftrightarrow>
   (\<exists>before after. confs = before @ (c, cnf) # after \<and> conf_matches lib name cnf ms \<and>
      (\<forall>(c', cnf') \<in> set before. \<forall>ms'. \<not> conf_matches lib name cnf' ms'))"
proof (induction confs)
  case (Cons e confs)
  obtain d cnf' where e: "e = (d, cnf')" by (cases e)
  show ?case
  proof (cases "\<exists>ms'. conf_matches lib name cnf' ms'")
    case True
    then have "find_regexp lib name (e # confs) = Some (c, cnf, ms) \<longleftrightarrow> c = d \<and> cnf = cnf' \<and> conf_matches lib name cnf ms"
      by (auto simp: e conf_matches_def)
    with True show ?thesis by (fastforce simp: e Cons_eq_append_conv)
  next
    case False
    then have "find_regexp lib name (e # confs) = find_regexp lib name confs"
      by (auto simp: e conf_matches_def split: option.splits)
    also have "\<dots> = Some (c, cnf, ms) \<longleftrightarrow> (\<exists>before after. e # confs = before @ (c, cnf) # after \<and>
        conf_matches lib name cnf ms \<and> (\<forall>(c', cnf') \<in> set before. \<forall>ms'. \<not> conf_matches lib name cnf' ms'))"
      (is "?L \<longleftrightarrow> ?R")
    proof
      assume ?L
      then obtain before after where "confs = before @ (c, cnf) # after" "conf_matches lib name cnf ms"
        "\<forall>(c', cnf') \<in> set before. \<forall>ms'. \<not> conf_matches lib name cnf' ms'" using Cons.IH by blast
      with False show ?R by (intro exI [of _ "e # before"] exI [of _ after]) (simp add: e)
    next
      assume ?R
      then obtain before after where m: "e # confs = before @ (c, cnf) # after" "conf_matches lib name cnf ms"
        "\<forall>(c', cnf') \<in> set before. \<forall>ms'. \<not> conf_matches lib name cnf' ms'" by blast
      with False obtain b where "before = e # b" by (cases before) (auto simp: e)
      with m show ?L using Cons.IH by auto
    qed
    finally show ?thesis .
  qed
qed simp

lemma findPathConf_iff:
  assumes "distinct (map fst (pm_pathConfs pm))"
  shows "findPathConf lib name pm = Inr (c, cnf, ms) \<longleftrightarrow> valid_name name \<and> conf_applies lib (pm_pathConfs pm) name c cnf ms"
proof -
  have "map_of (pm_pathConfs pm) name = None \<longleftrightarrow> name \<notin> fst ` set (pm_pathConfs pm)" by (simp add: map_of_eq_None_iff)
  moreover have "map_of (pm_pathConfs pm) name = Some cnf \<longleftrightarrow> (name, cnf) \<in> set (pm_pathConfs pm)" for cnf
    using assms by simp
  ultimately show ?thesis
    unfolding findPathConf_def conf_applies_def find_regexp_iff [symmetric] valid_name_iff [symmetric]
    by (cases "map_of (pm_pathConfs pm) name") (force split: sum.splits option.splits)+
qed

abbreviation cred_of :: "bool \<Rightarrow> PathConf \<Rightarrow> string list \<times> string \<times> string" where
  "cred_of publish \<equiv> (if publish then publish_cred else read_cred)"

lemma authenticate_iff: "authenticate auth (cred_of publish cnf) = Some err \<longleftrightarrow> refused_with auth publish cnf err"
  by (simp add: authenticate_def refused_with_def publish_cred_def read_cred_def split: option.splits)

lemma access_eq:
  assumes "access_request ev = Some (name, auth, publish)"
  shows "\<exists>out. access_answer out = Some (fst (get_path lib (cred_of publish) auth name pm)) \<and>
    pm_select lib ev pm = pm_emit out (snd (get_path lib (cred_of publish) auth name pm))"
  using assms
  by (cases ev)
    (auto simp: handle_describe_def handle_readerAdd_def handle_publisherAdd_def case_prod_beta Let_def,
      (metis access_answer.simps(1-3))+)

lemma get_path_granted:
  assumes "pm_inv pm" "findPathConf lib name pm = Inr (c, cnf, ms)" "authenticate auth (cred cnf) = None"
  shows "\<exists>r. fst (get_path lib cred auth name pm) = Inr r \<and> table (snd (get_path lib cred auth name pm)) name = Some r \<and>
    pr_name r = name \<and>
    (if table pm name = None
     then pr_confName r = c \<and> pr_id r = pm_next pm \<and> pm_out (snd (get_path lib cred auth name pm)) = pm_out pm @ [PathNew r cnf ms]
     else table pm name = Some r \<and> snd (get_path lib cred auth name pm) = pm)"
proof -
  have "pr_name r = name" if "table pm name = Some r" for r
    using index_invD(4) [OF _ that] assms(1) by (simp add: pm_inv_def)
  with assms(2,3) show ?thesis
    by (cases "table pm name") (auto simp: get_path_def ensure_path_def createPath_def pm_emit_def update_conv' Let_def)
qed

text \<open>
  C13. Access to a path.  A request for a description, a reader or a publisher is granted exactly when the
  name is valid, a configuration applies to it (the one of this name, or else the first one whose regular
  expression matches) and its addresses, user and password (those for reading or those for publishing)
  are not refused by the function that the request brings along.  It then gets the path of that name; if
  there was none, the path is created from the configuration that applies.  Otherwise it gets an error,
  which is that of the function if the credentials are refused, and nothing else changes.
\<close>

theorem path_access:
  assumes "pm_inv pm" "access_request ev = Some (name, auth, publish)"
  shows "\<exists>out res. pm_out (pm_select lib ev pm) \<noteq> [] \<and> last (pm_out (pm_select lib ev pm)) = out \<and>
    access_answer out = Some res \<and>
    ((\<exists>r. res = Inr r) \<longleftrightarrow> valid_name name \<and>
       (\<exists>c cnf ms. conf_applies lib (pm_pathConfs pm) name c cnf ms \<and> \<not> (\<exists>err. refused_with auth publish cnf err))) \<and>
    (\<forall>err. res = Inl err \<longrightarrow> pm_select lib ev pm = pm_emit out pm) \<and>
    (\<forall>c cnf ms. valid_name name \<and> conf_applies lib (pm_pathConfs pm) name c cnf ms \<longrightarrow>
       (\<forall>err. refused_with auth publish cnf err \<longrightarrow> res = Inl err) \<and>
       (\<forall>r. res = Inr r \<longrightarrow> table (pm_select lib ev pm) name = Some r \<and> pr_name r = name \<and>
          (if table pm name = None
           then pr_confName r = c \<and> pr_id r = pm_next pm \<and> pm_out (pm_select lib ev pm) = pm_out pm @ [PathNew r cnf ms, out]
           else table pm name = Some r)))"
proof -
  let ?g = "get_path lib (cred_of publish) auth name pm"
  obtain out where out: "access_answer out = Some (fst ?g)" "pm_select lib ev pm = pm_emit out (snd ?g)"
    using access_eq [OF assms(2)] by blast
  have "distinct (map fst (pm_pathConfs pm))" using assms(1) by (simp add: pm_inv_def)
  note find = findPathConf_iff [OF this, of lib name]
  show ?thesis
  proof (cases "findPathConf lib name pm")
    case (Inl e)
    then have "\<not> (valid_name name \<and> conf_applies lib (pm_pathConfs pm) name c cnf ms)" for c cnf ms
      using find [of c cnf ms] by simp
    moreover have "?g = (Inl e, pm)" by (simp add: get_path_def Inl)
    ultimately show ?thesis unfolding out(2) using out(1) by auto
  next
    case (Inr found)
    obtain c cnf ms where f: "findPathConf lib name pm = Inr (c, cnf, ms)" using Inr by (cases found) simp
    then have v: "valid_name name" using find by blast
    have a: "conf_applies lib (pm_pathConfs pm) name c' cnf' ms' \<longleftrightarrow> c' = c \<and> cnf' = cnf \<and> ms' = ms" for c' cnf' ms'
      using find [of c' cnf' ms'] f v by auto
    show ?thesis
    proof (cases "authenticate auth (cred_of publish cnf)")
      case None
      then have "\<not> refused_with auth publish cnf err" for err using authenticate_iff [of auth publish cnf err] by simp
      with get_path_granted [where cred = "cred_of publish", OF assms(1) f None] v a show ?thesis
        unfolding out(2) using out(1) by (auto simp: pm_emit_def split: if_splits)
    next
      case (Some e)
      then have "refused_with auth publish cnf err \<longleftrightarrow> err = e" for err using authenticate_iff [of auth publish cnf err] by auto
      moreover have "?g = (Inl e, pm)" using f Some by (simp add: get_path_def)
      ultimately show ?thesis unfolding out(2) using out(1) v a by auto
    qed
  qed
qed

lemma sample_applies:
  "valid_name ''a''" "conf_applies sample_lib (pm_pathConfs sample_pm) ''a'' ''~x'' any_path [''a'']"
  using findPathConf_iff [of sample_pm sample_lib "''a''"] sample_find sample_pm_inv by (auto simp: pm_inv_def)

theorem path_access_witness:
  "pm_inv sample_pm \<and> access_request ask_a = Some (''a'', None, False) \<and>
   (\<exists>r. access_answer (last (pm_out (pm_select sample_lib ask_a sample_pm))) = Some (Inr r) \<and>
     pr_confName r = ''~x'' \<and> pr_id r = 1)"
proof -
  let ?pm = "pm_select sample_lib ask_a sample_pm"
  show ?thesis
    using path_access [OF sample_pm_inv access_request.simps(1), of sample_lib 4 "''a''" None]
  proof (elim exE conjE)
    fix out res
    assume out: "last (pm_out ?pm) = out" "access_answer out = Some res"
      and g: "(\<exists>r. res = Inr r) \<longleftrightarrow> valid_name ''a'' \<and>
        (\<exists>c cnf ms. conf_applies sample_lib (pm_pathConfs sample_pm) ''a'' c cnf ms \<and> \<not> (\<exists>err. refused_with None False cnf err))"
      and d: "\<forall>c cnf ms. valid_name ''a'' \<and> conf_applies sample_lib (pm_pathConfs sample_pm) ''a'' c cnf ms \<longrightarrow>
        (\<forall>err. refused_with None False cnf err \<longrightarrow> res = Inl err) \<and>
        (\<forall>r. res = Inr r \<longrightarrow> table ?pm ''a'' = Some r \<and> pr_name r = ''a'' \<and>
          (if table sample_pm ''a'' = None
           then pr_confName r = c \<and> pr_id r = pm_next sample_pm \<and> pm_out ?pm = pm_out sample_pm @ [PathNew r cnf ms, out]
           else table sample_pm ''a'' = Some r))"
    have "\<not> (\<exists>err. refused_with None False any_path err)" by (simp add: refused_with_def)
    with sample_applies have "\<exists>r. res = Inr r" by (intro g [THEN iffD2] conjI exI)
    then obtain r where r: "res = Inr r" ..
    have t: "table sample_pm ''a'' = None" by (simp add: sample_pm_table)
    from d [THEN spec, THEN spec, THEN spec, THEN mp, OF conjI, OF sample_applies, THEN conjunct2, THEN spec, THEN mp, OF r] t
    have "pr_confName r = ''~x''" "pr_id r = 1" by (simp_all add: sample_pm_table)
    with out r sample_pm_inv show ?thesis by simp
  qed
qed

definition new_outs :: "pathManager \<Rightarrow> pathManager \<Rightarrow> pm_out list" where
  "new_outs pm pm' = drop (length (pm_out pm)) (pm_out pm')"

lemma reload_outs:
  assumes "pm_inv pm"
  shows "\<exists>news. new_outs pm (handle_confReload new pm) =
    concat (map (\<lambda>e. entry_out (conf_fate new e) (paths_of pm (fst e))) (pm_pathConfs pm)) @ news"
  using reload_entries_facts(1,4) [OF assms, of new] grownD(7) [OF add_static, of "reload_entries new pm" new]
  by (auto simp: new_outs_def handle_confReload_eq)

text \<open>
  C14. What a reload does.  A path whose configuration is the same stays; one whose configuration changed
  only in the parameters of the camera that can be changed while it runs (\<open>camera_tuned\<close>, which never
  holds for a regular expression, and for lists of addresses only if they are in ascending order)
  stays and is told the new one; a path whose configuration disappeared or changed in any other field
  is closed, waited for and removed.  Afterwards every configuration
  that is not a regular expression has a path of its name, and the table is consistent.
\<close>

theorem reload_fates:
  assumes "pm_inv pm" "distinct (map fst new)"
  shows "pm_inv (pm_select lib (PmConfReload new) pm) \<and>
    (\<forall>n r cnf. table pm n = Some r \<longrightarrow> map_of (pm_pathConfs pm) (pr_confName r) = Some cnf \<longrightarrow>
      (case conf_fate new (pr_confName r, cnf) of
         Kept \<Rightarrow> table (pm_select lib (PmConfReload new) pm) n = Some r
       | Updated c \<Rightarrow> table (pm_select lib (PmConfReload new) pm) n = Some r \<and>
           PathReloadConf r c \<in> set (new_outs pm (pm_select lib (PmConfReload new) pm))
       | Gone \<Rightarrow> table (pm_select lib (PmConfReload new) pm) n \<noteq> Some r \<and>
           PathCloseWait r \<in> set (new_outs pm (pm_select lib (PmConfReload new) pm)))) \<and>
    (\<forall>n c. (n, c) \<in> set new \<longrightarrow> pc_Regexp c = None \<longrightarrow> table (pm_select lib (PmConfReload new) pm) n \<noteq> None)"
proof -
  let ?pm = "handle_confReload new pm"
  note f = reload_entries_facts [OF assms(1), of new]
  note g = add_static [OF f(1), of new, folded handle_confReload_eq]
  have idx: "index_inv pm" and dist: "distinct (map fst (pm_pathConfs pm))" using assms(1) by (simp_all add: pm_inv_def)
  obtain news where news: "new_outs pm ?pm =
      concat (map (\<lambda>e. entry_out (conf_fate new e) (paths_of pm (fst e))) (pm_pathConfs pm)) @ news"
    using reload_outs [OF assms(1)] by blast
  have "case conf_fate new (pr_confName r, cnf) of
         Kept \<Rightarrow> table ?pm n = Some r
       | Updated c \<Rightarrow> table ?pm n = Some r \<and> PathReloadConf r c \<in> set (new_outs pm ?pm)
       | Gone \<Rightarrow> table ?pm n \<noteq> Some r \<and> PathCloseWait r \<in> set (new_outs pm ?pm)"
    if r: "table pm n = Some r" "map_of (pm_pathConfs pm) (pr_confName r) = Some cnf" for n r cnf
  proof -
    let ?e = "(pr_confName r, cnf)"
    have e: "?e \<in> set (pm_pathConfs pm)" using r(2) by (rule map_of_SomeD)
    have name: "pr_name r = n" using index_invD(4) [OF idx r(1)] .
    have rs: "r \<in> set (paths_of pm (pr_confName r))" using index_invD(1) [OF idx, of r] r(1) name by simp
    have out: "set (entry_out (conf_fate new ?e) (paths_of pm (pr_confName r))) \<subseteq> set (new_outs pm ?pm)"
      unfolding news using e by force
    have uniq: "e' = ?e" if "e' \<in> set (pm_pathConfs pm)" "fst e' = pr_confName r" for e'
    proof -
      have "(pr_confName r, snd e') \<in> set (pm_pathConfs pm)" using that by (metis prod.collapse)
      from eq_key_imp_eq_value [OF dist this e] that(2) show ?thesis by (metis prod.collapse)
    qed
    have gone: "gone new (pm_pathConfs pm) r \<longleftrightarrow> conf_fate new ?e = Gone"
      unfolding gone_def using e uniq by (metis fst_conv)
    have kept: "table ?pm n = Some r" if "conf_fate new ?e \<noteq> Gone"
      using grownD(4) [OF g, of n r] r(1) gone that by (simp add: f(3) without_Some)
    have removed: "table ?pm n \<noteq> Some r" if "conf_fate new ?e = Gone"
      using grownD(5) [OF g, of n r] gone that index_invD(5) [OF idx r(1)] by (auto simp: f(3,5) without_Some)
    show ?thesis
      using out rs kept removed by (auto simp: entry_out_def split: fate.split)
  qed
  moreover have "pm_inv ?pm" by (rule handle_confReload_inv [OF assms])
  moreover have "table ?pm n \<noteq> None" if "(n, c) \<in> set new" "pc_Regexp c = None" for n c
    by (rule grownD(6) [OF g that])
  ultimately show ?thesis unfolding pm_select.simps by blast
qed

theorem reload_fates_witness:
  "pm_inv sample_pm \<and> table sample_pm ''b'' = Some ref_b \<and>
   table (pm_select sample_lib (PmConfReload []) sample_pm) ''b'' \<noteq> Some ref_b \<and>
   PathCloseWait ref_b \<in> set (new_outs sample_pm (pm_select sample_lib (PmConfReload []) sample_pm))"
proof -
  have t: "table sample_pm ''b'' = Some ref_b" by (simp add: sample_pm_table)
  have c: "map_of (pm_pathConfs sample_pm) (pr_confName ref_b) = Some on_demand_sample"
    unfolding sample_pm_table by (simp add: sample_confs_def ref_b_def)
  have d: "distinct (map fst ([] :: (string \<times> PathConf) list))" by simp
  have f: "conf_fate [] (pr_confName ref_b, on_demand_sample) = Gone" by (simp add: conf_fate_def)
  from reload_fates [OF sample_pm_inv d, of sample_lib] t c f sample_pm_inv show ?thesis by fastforce
qed

text \<open>
  C39. A path that a newer configuration shadows.  When a reload adds a configuration whose name is the
  name of a path that exists already, because a regular expression matched it, the path stays as it is:
  requests for this name are authenticated with the new configuration but served by the path with the
  old one, and nothing that the new one says about its source takes effect.
\<close>

theorem reload_shadowed:
  assumes "pm_inv pm" "distinct (map fst new)" "table pm n = Some r" "pr_confName r \<noteq> n"
    and "map_of (pm_pathConfs pm) (pr_confName r) = Some cnf" "map_of new (pr_confName r) = Some cnf"
    and "map_of new n = Some c" "IsValidPathName n = Inr ()"
  shows "findPathConf lib n (pm_select lib (PmConfReload new) pm) = Inr (n, c, []) \<and>
    table (pm_select lib (PmConfReload new) pm) n = Some r \<and> pr_confName r \<noteq> n"
proof -
  note f = reload_entries_facts [OF assms(1), of new]
  note g = add_static [OF f(1), of new, folded handle_confReload_eq]
  have fate: "conf_fate new (pr_confName r, cnf) = Kept" using assms(6) by (simp add: conf_fate_def)
  have "\<not> gone new (pm_pathConfs pm) r"
  proof
    assume "gone new (pm_pathConfs pm) r"
    then obtain d where d: "(pr_confName r, d) \<in> set (pm_pathConfs pm)" "conf_fate new (pr_confName r, d) = Gone"
      unfolding gone_def by (metis prod.collapse)
    have "distinct (map fst (pm_pathConfs pm))" using assms(1) by (simp add: pm_inv_def)
    from eq_key_imp_eq_value [OF this d(1) map_of_SomeD [OF assms(5)]] d(2) fate show False by simp
  qed
  with assms(3) have "table (reload_entries new pm) n = Some r" by (simp add: f(3) without_Some)
  then have "table (handle_confReload new pm) n = Some r" by (rule grownD(4) [OF g])
  moreover have "pm_pathConfs (handle_confReload new pm) = new" using grownD(2) [OF g] f(2) by simp
  ultimately show ?thesis using assms(4,7,8) by (simp add: findPathConf_def)
qed

definition shadowed_pm :: pathManager where
  "shadowed_pm = pm_select sample_lib ask_a sample_pm"

definition shadowing_confs :: "(string \<times> PathConf) list" where
  "shadowing_confs = [(''~x'', any_path), (''a'', on_demand_sample)]"

lemma shadowed_facts:
  "pm_inv shadowed_pm" "table shadowed_pm ''a'' = Some ref_a" "pm_pathConfs shadowed_pm = sample_confs"
proof -
  show "pm_inv shadowed_pm" unfolding shadowed_pm_def by (rule pm_select_inv [OF sample_pm_inv]) simp
  have "ensure_path ''~x'' any_path ''a'' [''a''] sample_pm = createPath ''~x'' any_path ''a'' [''a''] sample_pm"
    by (simp add: ensure_path_def sample_pm_table)
  then have "snd (get_path sample_lib read_cred None ''a'' sample_pm) = createPath ''~x'' any_path ''a'' [''a''] sample_pm"
    by (simp add: get_path_def sample_find authenticate_def read_cred_def Let_def)
  then show "table shadowed_pm ''a'' = Some ref_a" "pm_pathConfs shadowed_pm = sample_confs"
    unfolding shadowed_pm_def
    by (simp_all add: handle_describe_def case_prod_beta Let_def sample_pm_table ref_a_def)
qed

theorem reload_shadowed_witness:
  "pr_confName ref_a \<noteq> ''a'' \<and>
   findPathConf sample_lib ''a'' (pm_select sample_lib (PmConfReload shadowing_confs) shadowed_pm) = Inr (''a'', on_demand_sample, []) \<and>
   table (pm_select sample_lib (PmConfReload shadowing_confs) shadowed_pm) ''a'' = Some ref_a"
proof -
  have "distinct (map fst shadowing_confs)" "pr_confName ref_a \<noteq> ''a''"
      "map_of (pm_pathConfs shadowed_pm) (pr_confName ref_a) = Some any_path"
      "map_of shadowing_confs (pr_confName ref_a) = Some any_path" "map_of shadowing_confs ''a'' = Some on_demand_sample"
    by (simp_all add: shadowing_confs_def ref_a_def shadowed_facts(3)) (simp add: sample_confs_def)
  from reload_shadowed [OF shadowed_facts(1) this(1) shadowed_facts(2) this(2-5) valid_a] show ?thesis by blast
qed

end
