(* ===== verification/PathFrame.thy ===== *)
theory PathFrame
  imports PathInv
begin

text \<open>What no operation of a path changes: its name and configuration, and the messages already sent.\<close>

definition frame :: "path \<Rightarrow> path \<Rightarrow> bool" where
  "frame pa pa' \<longleftrightarrow> pa_name pa' = pa_name pa \<and> pa_confName pa' = pa_confName pa \<and> pa_conf pa' = pa_conf pa \<and>
     (\<exists>outs. pa_out pa' = pa_out pa @ outs)"

lemma frame_refl [simp]: "frame pa pa"
  by (simp add: frame_def)

lemma frame_trans: "frame pa pa1 \<Longrightarrow> frame pa1 pa2 \<Longrightarrow> frame pa pa2"
  by (auto simp: frame_def)

lemma frame_emit: "frame pa pa1 \<Longrightarrow> frame pa (emit out pa1)"
  by (auto simp: frame_def emit_def)

lemma frame_update [simp]:
  "frame pa (pa1\<lparr>pa_source := a\<rparr>) = frame pa pa1" "frame pa (pa1\<lparr>pa_bytesReceived := b\<rparr>) = frame pa pa1"
  "frame pa (pa1\<lparr>pa_stream := c\<rparr>) = frame pa pa1" "frame pa (pa1\<lparr>pa_readers := d\<rparr>) = frame pa pa1"
  "frame pa (pa1\<lparr>pa_describeRequestsOnHold := e\<rparr>) = frame pa pa1"
  "frame pa (pa1\<lparr>pa_readerAddRequestsOnHold := f\<rparr>) = frame pa pa1"
  "frame pa (pa1\<lparr>pa_onInitCmd := g\<rparr>) = frame pa pa1" "frame pa (pa1\<lparr>pa_onDemandCmd := g\<rparr>) = frame pa pa1"
  "frame pa (pa1\<lparr>pa_onReadyCmd := g\<rparr>) = frame pa pa1"
  "frame pa (pa1\<lparr>pa_onDemandStaticSourceState := h\<rparr>) = frame pa pa1"
  "frame pa (pa1\<lparr>pa_onDemandStaticSourceReadyTimer := i\<rparr>) = frame pa pa1"
  "frame pa (pa1\<lparr>pa_onDemandStaticSourceCloseTimer := i\<rparr>) = frame pa pa1"
  "frame pa (pa1\<lparr>pa_onDemandPublisherState := h\<rparr>) = frame pa pa1"
  "frame pa (pa1\<lparr>pa_onDemandPublisherReadyTimer := i\<rparr>) = frame pa pa1"
  "frame pa (pa1\<lparr>pa_onDemandPublisherCloseTimer := i\<rparr>) = frame pa pa1"
  by (simp_all add: frame_def)

lemma frame_outs: "frame pa pa1 \<Longrightarrow> frame pa (pa1\<lparr>pa_out := pa_out pa1 @ outs\<rparr>)"
  by (auto simp: frame_def)

lemma frame_not_ready: "frame pa pa1 \<Longrightarrow> frame pa (sourceSetNotReady pa1)"
  by (auto simp: sourceSetNotReady_eq frame_def)

lemma frame_fail: "frame pa pa1 \<Longrightarrow> frame pa (fail_on_hold err pa1)"
  by (auto simp: fail_on_hold_eq frame_def)

lemma frame_static:
  "sourceStatic_start pa1 = Some pa2 \<Longrightarrow> frame pa pa1 \<Longrightarrow> frame pa pa2"
  "sourceStatic_stop pa1 = Some pa2 \<Longrightarrow> frame pa pa1 \<Longrightarrow> frame pa pa2"
  by (auto simp: sourceStatic_start_def sourceStatic_stop_def frame_emit split: option.splits source.splits if_splits)

lemma frame_onDemandStatic:
  "onDemandStaticSourceStart pa1 = Some pa2 \<Longrightarrow> frame pa pa1 \<Longrightarrow> frame pa pa2"
  "onDemandStaticSourceStop pa1 = Some pa2 \<Longrightarrow> frame pa pa1 \<Longrightarrow> frame pa pa2"
  by (auto simp: onDemandStaticSourceStart_def onDemandStaticSourceStop_def Let_def frame_static
      dest: frame_static split: bind_splits if_splits)

lemma frame_publisher_stop:
  assumes "onDemandPublisherStop pa1 = Some pa2" "frame pa pa1"
  shows "frame pa pa2"
proof -
  let ?pa = "(if pa_onDemandPublisherState pa1 = pathOnDemandStateClosing
      then pa1\<lparr>pa_onDemandPublisherCloseTimer := None\<rparr> else pa1)\<lparr>pa_onDemandPublisherState := pathOnDemandStateInitial\<rparr>"
  have f: "frame pa ?pa" using assms(2) by simp
  have i: "doPublisherRemove (emit out ?pa) =
      Some ((if pa_stream (emit out ?pa) \<noteq> None then sourceSetNotReady (emit out ?pa) else emit out ?pa)\<lparr>pa_source := None\<rparr>)" for out
    by (rule doPublisherRemove_initial) simp
  have "frame pa (x::path)" if "frame pa y" "x = (if pa_onDemandCmd y then (emit (CmdClose OnDemandCmd) y)\<lparr>pa_onDemandCmd := False\<rparr> else y)" for x y
    using that by (simp add: frame_emit)
  moreover have "frame pa y" if "(case pa_source ?pa of None \<Rightarrow> Some ?pa
      | Some (SourcePublisher p) \<Rightarrow> doPublisherRemove (emit (PublisherClose p) ?pa) | _ \<Rightarrow> None) = Some y" for y
    using that f i by (auto simp: frame_emit frame_not_ready split: option.splits source.splits)
  ultimately show ?thesis
    using assms(1) unfolding onDemandPublisherStop.simps Let_def
    by (auto split: bind_splits)
qed

lemma frame_publisher_remove: "doPublisherRemove pa1 = Some pa2 \<Longrightarrow> frame pa pa1 \<Longrightarrow> frame pa pa2"
  by (auto simp: doPublisherRemove.simps frame_not_ready dest: frame_publisher_stop split: bind_splits if_splits)

lemma frame_keep_open [simp]: "frame pa (keep_open pa1) = frame pa pa1"
  by (simp add: keep_open_def)

lemma frame_schedule [simp]:
  "frame pa (onDemandStaticSourceScheduleClose pa1) = frame pa pa1"
  "frame pa (onDemandPublisherScheduleClose pa1) = frame pa pa1"
  by (simp_all add: onDemandStaticSourceScheduleClose_def onDemandPublisherScheduleClose_def)

lemma frame_publisher_start: "frame pa pa1 \<Longrightarrow> frame pa (onDemandPublisherStart lib pa1)"
  by (simp add: onDemandPublisherStart_def frame_emit)

lemma frame_hold [simp]: "frame pa (hold_describe req pa1) = frame pa pa1" "frame pa (hold_reader req' pa1) = frame pa pa1"
  by (simp_all add: hold_describe_def hold_reader_def)

lemma frame_serve: "serve_on_hold pa1 = Some pa2 \<Longrightarrow> frame pa pa1 \<Longrightarrow> frame pa pa2"
proof (cases "pa_stream pa1")
  case (Some s)
  assume "serve_on_hold pa1 = Some pa2" "frame pa pa1"
  moreover have "frame pa1 (served s pa1)" by (auto simp: served_def frame_def keep_open_def)
  ultimately show "frame pa pa2" using serve_on_hold_eq(1) [OF Some] frame_trans by auto
qed (simp add: serve_on_hold_def)

lemma frame_ready: "sourceSetReady lib now medias gen pa1 = Inr pa2 \<Longrightarrow> frame pa pa1 \<Longrightarrow> frame pa pa2"
  by (auto simp: sourceSetReady_def Let_def frame_emit split: sum.splits if_splits)

lemmas frame_rules = frame_emit frame_not_ready frame_fail frame_publisher_start

lemmas frame_dests = frame_onDemandStatic frame_publisher_stop frame_publisher_remove frame_serve frame_ready

lemma frame_handlers:
  "handleDescribe lib dreq pa = Some pa' \<Longrightarrow> frame pa pa'"
  "handlePublisherRemove req author pa = Some pa' \<Longrightarrow> frame pa pa'"
  "handlePublisherAdd req author pa = Some pa' \<Longrightarrow> frame pa pa'"
  "handlePublisherStart lib now req author medias gen pa = Some pa' \<Longrightarrow> frame pa pa'"
  "handlePublisherStop req author pa = Some pa' \<Longrightarrow> frame pa pa'"
  "handleReaderAdd lib rreq pa = Some pa' \<Longrightarrow> frame pa pa'"
  "set_ready lib now medias gen pa = Some pa' \<Longrightarrow> frame pa pa'"
  "set_not_ready pa = Some pa' \<Longrightarrow> frame pa pa'"
  "frame pa (handleReaderRemove req r pa)" "frame pa (handleAPIPathsList lib req pa)"
  by (auto simp: handleDescribe_def handlePublisherRemove_def handlePublisherAdd_def handlePublisherStart_def
      handlePublisherStop_def handleReaderAdd_def handleReaderAddPost_def set_ready_def set_not_ready_def
      handleReaderRemove_def handleAPIPathsList_def doReaderRemove_def Let_def
      intro!: frame_rules intro: frame_dests split: option.splits source.splits sum.splits bind_splits if_splits,
    (erule frame_dests, simp add: frame_emit, (erule frame_ready, simp)?)+)

lemma path_select_frame:
  assumes "path_select lib ev pa = Some (pa', c)" "\<And>cnf. ev \<noteq> ReloadConf cnf"
  shows "frame pa pa'"
  using assms
  by (cases ev)
    (auto simp: Let_def go_on_def check_close_def frame_handlers intro!: frame_rules intro: frame_handlers
      dest: frame_onDemandStatic(2) [where pa = pa] frame_publisher_stop [where pa = pa] split: bind_splits)

lemma reload_conf_frame:
  assumes "path_select lib (ReloadConf cnf) pa = Some (pa', c)"
  shows "pa_name pa' = pa_name pa \<and> pa_confName pa' = pa_confName pa \<and> pa_conf pa' = cnf \<and>
    (\<exists>outs. pa_out pa' = pa_out pa @ outs)"
  using assms
  by (auto simp: reload_conf_def go_on_def emit_def split: bind_splits if_splits option.splits source.splits)

end
