(* ===== verification/Server.thy ===== *)
theory Server
  imports PathManagerSpec PathFrame
begin

text \<open>
  The path manager together with all the paths that it has created.  What the manager does to a path
  (creation, \<open>close\<close> and \<open>wait\<close>, \<open>reloadConf\<close>) reaches the path, and what a path tells its parent
  (\<open>onPathClose\<close>, \<open>pathSourceReady\<close>, \<open>pathSourceNotReady\<close>) reaches the manager.  The calls
  \<open>go pa.reloadConf(newPathConf)\<close> run in goroutines of their own: they are kept in a list, from which they
  are delivered in any order.

  The grain of the steps: what a path tells its parent in a step is handled by the manager within the
  same step.  In the code a path that ends blocks in \<open>onPathClose\<close> until the loop of the manager takes
  it; a request that the manager handles in between still gets this path, whose goroutine has left its
  loop, and is answered by the path with \<open>terminated\<close>.  That window is not part of this composition.
  Neither is the goroutine \<open>go s.reloadConf(newConf)\<close> by which a path passes a configuration on to its
  static source; \<open>SourceStatic\<close> models it, with the panic that it can run into.
\<close>

section \<open>The composition\<close>

record server =
  sv_rtspAddress :: string
  sv_udpMaxPayloadSize :: int
  sv_pm :: pathManager
  sv_paths :: "nat \<Rightarrow> run_state option"
  sv_reloads :: "(nat \<times> PathConf) list"

fun sv_apply :: "pathlib \<Rightarrow> pm_out \<Rightarrow> server \<Rightarrow> server option" where
  "sv_apply lib (PathNew r cnf matches) sv = do {
     pa \<leftarrow> path_init lib (newPath (sv_rtspAddress sv) (sv_udpMaxPayloadSize sv) (pr_confName r) cnf (pr_name r) matches);
     Some (sv\<lparr>sv_paths := (sv_paths sv)(pr_id r \<mapsto> Running pa)\<rparr>)
   }"
| "sv_apply lib (PathCloseWait r) sv = do {
     s \<leftarrow> sv_paths sv (pr_id r);
     s \<leftarrow> path_step lib CtxDone s;
     Some (sv\<lparr>sv_paths := (sv_paths sv)(pr_id r \<mapsto> s)\<rparr>)
   }"
| "sv_apply lib (PathReloadConf r cnf) sv = Some (sv\<lparr>sv_reloads := sv_reloads sv @ [(pr_id r, cnf)]\<rparr>)"
| "sv_apply lib _ sv = Some sv"

fun sv_apply_all :: "pathlib \<Rightarrow> pm_out list \<Rightarrow> server \<Rightarrow> server option" where
  "sv_apply_all lib [] sv = Some sv"
| "sv_apply_all lib (out # outs) sv = do { sv \<leftarrow> sv_apply lib out sv; sv_apply_all lib outs sv }"

definition sv_pm_event :: "pathlib \<Rightarrow> pm_event \<Rightarrow> server \<Rightarrow> server option" where
  "sv_pm_event lib ev sv =
     (let pm = pm_select (golib.truncate lib) ev (sv_pm sv) in
      sv_apply_all lib (new_outs (sv_pm sv) pm) (sv\<lparr>sv_pm := pm\<rparr>))"

text \<open>What a path has told its parent since a state, and who hears it.\<close>

fun run_path :: "run_state \<Rightarrow> path" where
  "run_path (Running pa) = pa"
| "run_path (Stopped pa) = pa"

fun path_to_pm :: "golib \<Rightarrow> path_ref \<Rightarrow> path_out \<Rightarrow> pathManager \<Rightarrow> pathManager" where
  "path_to_pm lib r ParentSourceReady pm = pm_select lib (PmPathSourceReady r) pm"
| "path_to_pm lib r ParentSourceNotReady pm = pm_select lib (PmPathSourceNotReady r) pm"
| "path_to_pm lib r ParentPathClose pm = pm_select lib (PmPathClose r) pm"
| "path_to_pm lib r _ pm = pm"

definition told :: "run_state \<Rightarrow> run_state \<Rightarrow> path_out list" where
  "told s s' = drop (length (pa_out (run_path s))) (pa_out (run_path s'))"

definition ref_of :: "nat \<Rightarrow> path \<Rightarrow> path_ref" where
  "ref_of i pa = \<lparr>pr_id = i, pr_name = pa_name pa, pr_confName = pa_confName pa\<rparr>"

definition sv_path_event :: "pathlib \<Rightarrow> nat \<Rightarrow> path_event \<Rightarrow> server \<Rightarrow> server option" where
  "sv_path_event lib i ev sv = do {
     s \<leftarrow> sv_paths sv i;
     s' \<leftarrow> path_step lib ev s;
     Some (sv\<lparr>sv_paths := (sv_paths sv)(i \<mapsto> s'),
              sv_pm := fold (path_to_pm (golib.truncate lib) (ref_of i (run_path s))) (told s s') (sv_pm sv)\<rparr>)
   }"

datatype sv_event = SvPm pm_event | SvPath nat path_event | SvReload nat

fun sv_step :: "pathlib \<Rightarrow> sv_event \<Rightarrow> server \<Rightarrow> server option" where
  "sv_step lib (SvPm ev) sv = sv_pm_event lib ev sv"
| "sv_step lib (SvPath i ev) sv = sv_path_event lib i ev sv"
| "sv_step lib (SvReload k) sv =
     (case sv_reloads sv ! k of (i, cnf) \<Rightarrow>
        sv_path_event lib i (ReloadConf cnf)
          (sv\<lparr>sv_reloads := take k (sv_reloads sv) @ drop (Suc k) (sv_reloads sv)\<rparr>))"

definition newServer :: "pathlib \<Rightarrow> string \<Rightarrow> int \<Rightarrow> (string \<times> PathConf) list \<Rightarrow> server option" where
  "newServer lib rtspAddress udpMaxPayloadSize confs =
     (let pm = newPathManager confs in
      sv_apply_all lib (pm_out pm)
        \<lparr>sv_rtspAddress = rtspAddress, sv_udpMaxPayloadSize = udpMaxPayloadSize, sv_pm = pm, sv_paths = Map.empty,
         sv_reloads = []\<rparr>)"

text \<open>
  The configurations that reach the manager have been checked: they are valid, and the regular
  expression of each is the one that its name says.
\<close>

definition named :: "string \<Rightarrow> PathConf \<Rightarrow> bool" where
  "named name c \<longleftrightarrow> pc_Regexp c = (if name \<noteq> '''' \<and> hd name = CHR ''~'' then Some (tl name) else None)"

definition checked_confs :: "(string \<times> PathConf) list \<Rightarrow> bool" where
  "checked_confs cs \<longleftrightarrow> distinct (map fst cs) \<and> (\<forall>(n, c) \<in> set cs. pathconf_valid c \<and> named n c)"

fun sv_enabled :: "sv_event \<Rightarrow> server \<Rightarrow> bool" where
  "sv_enabled (SvPm ev) sv \<longleftrightarrow> (case ev of PmConfReload new \<Rightarrow> checked_confs new | PmPathClose r \<Rightarrow> False | _ \<Rightarrow> True)"
| "sv_enabled (SvPath i ev) sv \<longleftrightarrow>
     (case sv_paths sv i of
        None \<Rightarrow> False
      | Some s \<Rightarrow> event_enabled ev s \<and> (case ev of ReloadConf c \<Rightarrow> False | _ \<Rightarrow> True))"
| "sv_enabled (SvReload k) sv \<longleftrightarrow> k < length (sv_reloads sv)"

section \<open>Configurations that a path cannot tell apart\<close>

definition similar :: "PathConf \<Rightarrow> PathConf \<Rightarrow> bool" where
  "similar c d \<longleftrightarrow> pc_Regexp d = pc_Regexp c \<and> pc_Source d = pc_Source c \<and>
     pc_SourceOnDemand d = pc_SourceOnDemand c \<and> pc_RunOnDemand d = pc_RunOnDemand c"

lemma similar_refl [simp]: "similar c c"
  and similar_sym: "similar c d \<Longrightarrow> similar d c"
  and similar_trans: "similar c d \<Longrightarrow> similar d e \<Longrightarrow> similar c e"
  by (simp_all add: similar_def)

lemma conf_compatible_similar: "conf_compatible c d \<longleftrightarrow> pathconf_valid d \<and> similar c d"
  by (simp add: conf_compatible_def similar_def)

lemma CanBeUpdated_similar:
  assumes "pathConfCanBeUpdated old new" "named n old" "named n new"
  shows "similar old new"
proof -
  note eq = assms(1) [unfolded pathConfCanBeUpdated_def PathConf_Equal_def Let_def]
  have "pc_Source new = pc_Source old" "pc_SourceOnDemand new = pc_SourceOnDemand old" "pc_RunOnDemand new = pc_RunOnDemand old"
    by (subst eq, simp add: PathConf_Clone_def)+
  with assms(2,3) show ?thesis by (simp add: similar_def named_def)
qed

end
