(* ===== verification/ServerInv.thy ===== *)
theory ServerInv
  imports Server
begin

text \<open>The invariant of the composition, operation by operation of the manager.\<close>

section \<open>Operations of the manager and what the paths see of them\<close>

text \<open>An operation of the manager only adds messages.\<close>

definition extends :: "(pathManager \<Rightarrow> pathManager) \<Rightarrow> bool" where
  "extends f \<longleftrightarrow> (\<forall>pm. \<exists>outs. pm_out (f pm) = pm_out pm @ outs)"

definition follow :: "pathlib \<Rightarrow> (pathManager \<Rightarrow> pathManager) \<Rightarrow> server \<Rightarrow> server option" where
  "follow lib f sv = sv_apply_all lib (new_outs (sv_pm sv) (f (sv_pm sv))) (sv\<lparr>sv_pm := f (sv_pm sv)\<rparr>)"

lemma sv_apply_all_append: "sv_apply_all lib (xs @ ys) sv = Option.bind (sv_apply_all lib xs sv) (sv_apply_all lib ys)"
  by (induction xs arbitrary: sv) (auto split: bind_splits)

lemma sv_apply_pm: "sv_apply lib out (sv\<lparr>sv_pm := pm\<rparr>) = map_option (\<lambda>sv. sv\<lparr>sv_pm := pm\<rparr>) (sv_apply lib out sv)"
  by (cases out) (auto split: bind_splits)

lemma sv_apply_all_pm:
  "sv_apply_all lib outs (sv\<lparr>sv_pm := pm\<rparr>) = map_option (\<lambda>sv. sv\<lparr>sv_pm := pm\<rparr>) (sv_apply_all lib outs sv)"
  by (induction outs arbitrary: sv) (auto simp: sv_apply_pm split: bind_splits)

lemma follow_comp:
  assumes "extends f" "extends g"
  shows "follow lib (\<lambda>pm. g (f pm)) sv = Option.bind (follow lib f sv) (follow lib g)"
proof -
  let ?pm = "sv_pm sv"
  obtain o1 o2 where o: "pm_out (f ?pm) = pm_out ?pm @ o1" "pm_out (g (f ?pm)) = pm_out (f ?pm) @ o2"
    using assms unfolding extends_def by metis
  then have n: "new_outs ?pm (g (f ?pm)) = o1 @ o2" "new_outs ?pm (f ?pm) = o1" "new_outs (f ?pm) (g (f ?pm)) = o2"
    by (simp_all add: new_outs_def)
  show ?thesis
    by (auto simp: follow_def n sv_apply_all_append sv_apply_all_pm option.map_comp comp_def split: bind_splits)
qed

lemma extends_id: "extends (\<lambda>pm. pm)"
  by (simp add: extends_def)

lemma extends_comp: "extends f \<Longrightarrow> extends g \<Longrightarrow> extends (\<lambda>pm. g (f pm))"
  unfolding extends_def by (metis append_assoc)

lemma extends_fold: "(\<And>x. x \<in> set xs \<Longrightarrow> extends (f x)) \<Longrightarrow> extends (fold f xs)"
proof (induction xs)
  case (Cons x xs)
  then show ?case using extends_comp [of "f x" "fold f xs"] by (simp add: comp_def)
qed (simp add: extends_def)

lemma follow_id: "(\<And>pm. pm_out (f pm) = pm_out pm) \<Longrightarrow> follow lib f sv = Some (sv\<lparr>sv_pm := f (sv_pm sv)\<rparr>)"
  by (simp add: follow_def new_outs_def)

text \<open>\<open>ok lib f C D\<close>: from a state that satisfies \<open>C\<close>, the operation does not panic and leads to one that satisfies \<open>D\<close>.\<close>

definition ok :: "pathlib \<Rightarrow> (pathManager \<Rightarrow> pathManager) \<Rightarrow> server \<Rightarrow> (server \<Rightarrow> bool) \<Rightarrow> bool" where
  "ok lib f sv D \<longleftrightarrow> (\<exists>sv'. follow lib f sv = Some sv' \<and> sv_pm sv' = f (sv_pm sv) \<and> D sv')"

lemma ok_comp:
  assumes "extends f" "extends g" "ok lib f sv D" "\<And>sv'. D sv' \<Longrightarrow> sv_pm sv' = f (sv_pm sv) \<Longrightarrow> ok lib g sv' E"
  shows "ok lib (\<lambda>pm. g (f pm)) sv E"
  using assms(3,4) unfolding ok_def follow_comp [OF assms(1,2)] by fastforce

section \<open>The invariant\<close>

definition link :: "(string \<times> PathConf) list \<Rightarrow> server \<Rightarrow> path_ref \<Rightarrow> bool" where
  "link cs sv r \<longleftrightarrow> (\<exists>pa cnf. sv_paths sv (pr_id r) = Some (Running pa) \<and> ref_of (pr_id r) pa = r \<and>
     map_of cs (pr_confName r) = Some cnf \<and> similar (pa_conf pa) cnf)"

definition pending_ok :: "server \<Rightarrow> nat \<times> PathConf \<Rightarrow> bool" where
  "pending_ok sv = (\<lambda>(i, c). pathconf_valid c \<and>
     (\<exists>s. sv_paths sv i = Some s \<and> (\<forall>pa. s = Running pa \<longrightarrow> similar (pa_conf pa) c)))"

definition core :: "(string \<times> PathConf) list \<Rightarrow> server \<Rightarrow> bool" where
  "core cs sv \<longleftrightarrow> index_inv (sv_pm sv) \<and>
     (\<forall>i s. sv_paths sv i = Some s \<longrightarrow> run_inv s \<and> i < pm_next (sv_pm sv)) \<and>
     (\<forall>n r. table (sv_pm sv) n = Some r \<longrightarrow> link cs sv r) \<and>
     (\<forall>p \<in> set (sv_reloads sv). pending_ok sv p)"

lemma coreD:
  assumes "core cs sv"
  shows "index_inv (sv_pm sv)" "sv_paths sv i = Some s \<Longrightarrow> run_inv s" "sv_paths sv i = Some s \<Longrightarrow> i < pm_next (sv_pm sv)"
    "table (sv_pm sv) n = Some r \<Longrightarrow> link cs sv r" "p \<in> set (sv_reloads sv) \<Longrightarrow> pending_ok sv p"
  using assms unfolding core_def by blast+

lemma new_outs_emit [simp]: "new_outs pm (pm_emit out pm) = [out]"
  by (simp add: new_outs_def)

lemma path_init_frame: "path_init lib pa = Some pa' \<Longrightarrow> frame pa pa'"
  by (auto simp: path_init_def Let_def frame_emit dest: frame_static(1) [where pa = pa] split: bind_splits if_splits)

lemma ok_create:
  assumes c: "core cs sv" and free: "table (sv_pm sv) n = None" and conf: "map_of cs c = Some cnf" "pathconf_valid cnf"
  shows "ok lib (createPath c cnf n ms) sv (core cs)"
proof -
  define p where "p = \<lparr>pr_id = pm_next (sv_pm sv), pr_name = n, pr_confName = c\<rparr>"
  let ?pm = "createPath c cnf n ms (sv_pm sv)"
  obtain pa where pa: "path_init lib (newPath (sv_rtspAddress sv) (sv_udpMaxPayloadSize sv) c cnf n ms) = Some pa" "path_inv pa"
    using path_init_inv [OF conf(2)] by blast
  have id: "pa_name pa = n" "pa_confName pa = c" "pa_conf pa = cnf"
    using path_init_frame [OF pa(1)] by (simp_all add: frame_def newPath_def)
  let ?sv = "sv\<lparr>sv_pm := ?pm, sv_paths := (sv_paths sv)(pr_id p \<mapsto> Running pa)\<rparr>"
  have "new_outs (sv_pm sv) ?pm = [PathNew p cnf ms]" by (simp add: new_outs_def p_def)
  then have f: "follow lib (createPath c cnf n ms) sv = Some ?sv" using pa(1) by (simp add: follow_def p_def)
  have fresh: "i \<noteq> pr_id p" if "sv_paths sv i = Some s" for i s using coreD(3) [OF c that] by (simp add: p_def)
  have "link cs ?sv r" if "table ?pm m = Some r" for m r
  proof (cases "m = n")
    case True
    with that have "r = p" by (simp add: p_def)
    with id conf(1) show ?thesis by (simp add: link_def ref_of_def p_def)
  next
    case False
    with that have "link cs sv r" using coreD(4) [OF c, of m r] by simp
    with fresh show ?thesis unfolding link_def by fastforce
  qed
  moreover have "pending_ok ?sv q" if "q \<in> set (sv_reloads sv)" for q
    using coreD(5) [OF c that] fresh unfolding pending_ok_def by fastforce
  moreover have "run_inv s \<and> i < pm_next ?pm" if "sv_paths ?sv i = Some s" for i s
    using that pa(2) coreD(2,3) [OF c, of i s] by (auto simp: p_def split: if_splits)
  ultimately have "core cs ?sv"
    unfolding core_def using createPath_index [OF coreD(1) [OF c] free, of c cnf ms] by simp
  with f show ?thesis by (simp add: ok_def)
qed

lemma ok_close:
  assumes c: "core cs sv" and t: "table (sv_pm sv) (pr_name r) = Some r"
  shows "ok lib (remove_and_close r) sv (core cs)"
proof -
  let ?pm = "remove_and_close r (sv_pm sv)"
  note rc = remove_and_close_simps [OF coreD(1) [OF c] t]
  obtain pa where pa: "sv_paths sv (pr_id r) = Some (Running pa)" using coreD(4) [OF c t] by (auto simp: link_def)
  with coreD(2) [OF c] have "path_inv pa" by fastforce
  then obtain pa' where pa': "path_step lib CtxDone (Running pa) = Some (Stopped pa')" using path_exit_eq by auto
  let ?sv = "sv\<lparr>sv_pm := ?pm, sv_paths := (sv_paths sv)(pr_id r \<mapsto> Stopped pa')\<rparr>"
  have "new_outs (sv_pm sv) ?pm = [PathCloseWait r]" by (simp add: new_outs_def rc(3))
  then have f: "follow lib (remove_and_close r) sv = Some ?sv" using pa pa' by (simp add: follow_def)
  have "link cs ?sv r'" if "table ?pm m = Some r'" for m r'
  proof -
    from that have m: "table (sv_pm sv) m = Some r'" "r' \<noteq> r" by (simp_all add: rc(2) without_Some)
    with index_invD(6) [OF coreD(1) [OF c] m(1) t] index_invD(4) [OF coreD(1) [OF c] m(1)] t
    have "pr_id r' \<noteq> pr_id r" by auto
    with coreD(4) [OF c m(1)] show ?thesis by (simp add: link_def)
  qed
  moreover have "pending_ok ?sv q" if "q \<in> set (sv_reloads sv)" for q
    using coreD(5) [OF c that] by (auto simp: pending_ok_def)
  moreover have "run_inv s \<and> i < pm_next ?pm" if "sv_paths ?sv i = Some s" for i s
    using that coreD(2,3) [OF c, of i s] coreD(3) [OF c pa] by (auto simp: rc(5) split: if_splits)
  ultimately have "core cs ?sv" unfolding core_def using rc(1) by simp
  with f show ?thesis by (simp add: ok_def)
qed

lemma ok_reload:
  assumes c: "core cs sv" and t: "table (sv_pm sv) (pr_name r) = Some r"
    and conf: "map_of cs (pr_confName r) = Some cnf" "similar cnf d" "pathconf_valid d"
  shows "ok lib (pm_emit (PathReloadConf r d)) sv (core cs)"
proof -
  let ?sv = "sv\<lparr>sv_pm := pm_emit (PathReloadConf r d) (sv_pm sv), sv_reloads := sv_reloads sv @ [(pr_id r, d)]\<rparr>"
  have f: "follow lib (pm_emit (PathReloadConf r d)) sv = Some ?sv" by (simp add: follow_def)
  obtain pa where "sv_paths sv (pr_id r) = Some (Running pa)" "similar (pa_conf pa) cnf"
    using coreD(4) [OF c t] conf(1) by (auto simp: link_def)
  with conf(2,3) have "pending_ok ?sv (pr_id r, d)" by (auto simp: pending_ok_def dest: similar_trans)
  moreover have "pending_ok ?sv q" if "q \<in> set (sv_reloads sv)" for q
    using coreD(5) [OF c that] by (auto simp: pending_ok_def)
  moreover have "link cs ?sv r'" if "link cs sv r'" for r' using that by (simp add: link_def)
  ultimately have "core cs ?sv" using c by (auto simp: core_def)
  with f show ?thesis by (simp add: ok_def)
qed

section \<open>Reload\<close>

lemma ok_cong: "f (sv_pm sv) = g (sv_pm sv) \<Longrightarrow> ok lib f sv D = ok lib g sv D"
  by (simp add: ok_def follow_def)

lemma ok_id: "D sv \<Longrightarrow> ok lib (\<lambda>pm. pm) sv D"
  by (simp add: ok_def follow_def new_outs_def)

lemma extends_ops [simp]:
  "extends (remove_and_close r)" "extends (pm_emit out)" "extends (createPath c cnf n ms)" "extends (removePath r)"
  by (simp_all add: extends_def remove_and_close_def)

lemma extends_entry [simp]: "extends (reload_conf_entry new e)"
proof -
  obtain c cnf where e: "e = (c, cnf)" by fastforce
  have "\<exists>outs. pm_out (fold remove_and_close rs pm) = pm_out pm @ outs" for rs pm
    using extends_fold [of rs remove_and_close, OF extends_ops(1)] unfolding extends_def by blast
  then show ?thesis
    by (auto simp: extends_def e reload_conf_entry_def fold_pm_emit split: option.splits)
qed

lemma extends_static [simp]: "extends (add_static_path e)"
  by (cases e) (auto simp: extends_def add_static_path_def)

lemma ok_close_all:
  assumes "core cs sv" "distinct rs" "\<forall>r \<in> set rs. table (sv_pm sv) (pr_name r) = Some r"
  shows "ok lib (fold remove_and_close rs) sv (core cs)"
  using assms
proof (induction rs arbitrary: sv)
  case (Cons r rs)
  have t: "table (sv_pm sv) (pr_name r) = Some r" using Cons.prems(3) by simp
  note rc = remove_and_close_simps [OF coreD(1) [OF Cons.prems(1)] t]
  have rest: "\<forall>r' \<in> set rs. table (remove_and_close r (sv_pm sv)) (pr_name r') = Some r'"
    unfolding rc(2) without_Some using Cons.prems(2,3) by auto
  have later: "ok lib (fold remove_and_close rs) sv' (core cs)"
    if "core cs sv'" "sv_pm sv' = remove_and_close r (sv_pm sv)" for sv'
    using Cons.IH [OF that(1)] Cons.prems(2) rest unfolding that(2) by simp
  have "extends (fold remove_and_close rs)" by (simp add: extends_fold)
  from ok_comp [OF extends_ops(1) this ok_close [OF Cons.prems(1) t] later] show ?case by (simp add: comp_def)
qed (simp add: ok_id id_def)

lemma ok_reload_all:
  assumes "core cs sv" "\<forall>r \<in> set rs. table (sv_pm sv) (pr_name r) = Some r \<and> pr_confName r = c"
    and "map_of cs c = Some cnf" "similar cnf d" "pathconf_valid d"
  shows "ok lib (fold (\<lambda>r. pm_emit (PathReloadConf r d)) rs) sv (core cs)"
  using assms
proof (induction rs arbitrary: sv)
  case (Cons r rs)
  have "ok lib (pm_emit (PathReloadConf r d)) sv (core cs)"
    using Cons.prems by (intro ok_reload [OF Cons.prems(1)]) simp_all
  from ok_comp [OF _ _ this Cons.IH] Cons.prems(2-5) show ?case by (simp add: extends_fold comp_def)
qed (simp add: ok_id id_def)

lemma checkedD:
  assumes "checked_confs cs" "map_of cs n = Some c"
  shows "pathconf_valid c" "named n c"
  using assms map_of_SomeD [OF assms(2)] by (auto simp: checked_confs_def)

lemma fate_similar:
  assumes "checked_confs new" "named c cnf" "conf_fate new (c, cnf) \<noteq> Gone"
  obtains d where "map_of new c = Some d" "similar cnf d" "pathconf_valid d" "\<forall>d'. conf_fate new (c, cnf) = Updated d' \<longrightarrow> d' = d"
proof -
  from assms(3) obtain d where d: "map_of new c = Some d" by (auto simp: conf_fate_def split: option.splits)
  note v = checkedD [OF assms(1) d]
  have sim: "similar cnf d"
    using assms(3) d CanBeUpdated_similar [OF _ assms(2) v(2)] by (auto simp: conf_fate_def CanBeUpdated_iff split: if_splits)
  have "\<forall>d'. conf_fate new (c, cnf) = Updated d' \<longrightarrow> d' = d" using d by (simp add: conf_fate_def)
  from that [OF d sim v(1) this] show thesis .
qed

lemma ok_entry:
  assumes "core cs sv" "checked_confs new" "map_of cs c = Some cnf" "named c cnf"
  shows "ok lib (reload_conf_entry new (c, cnf)) sv (core cs)"
proof -
  let ?rs = "paths_of (sv_pm sv) c"
  note i = index_invD [OF coreD(1) [OF assms(1)]]
  have rs: "distinct ?rs" "\<forall>r \<in> set ?rs. table (sv_pm sv) (pr_name r) = Some r \<and> pr_confName r = c"
    using i(1,2) by blast+
  show ?thesis
  proof (cases "conf_fate new (c, cnf)")
    case Kept
    then have "reload_conf_entry new (c, cnf) (sv_pm sv) = sv_pm sv"
      by (auto simp: conf_fate_def reload_conf_entry_def PathConf_Equal_def CanBeUpdated_iff split: option.splits if_splits)
    with ok_cong [of "reload_conf_entry new (c, cnf)" sv "\<lambda>pm. pm"] ok_id [of "core cs", OF assms(1)] show ?thesis by simp
  next
    case (Updated d)
    then have e: "reload_conf_entry new (c, cnf) (sv_pm sv) = fold (\<lambda>r. pm_emit (PathReloadConf r d)) ?rs (sv_pm sv)"
      by (auto simp: conf_fate_def reload_conf_entry_def PathConf_Equal_def CanBeUpdated_iff split: option.splits if_splits)
    obtain d' where "similar cnf d'" "pathconf_valid d'" "d = d'"
      using fate_similar [OF assms(2,4)] Updated by (metis fate.distinct(5))
    then show ?thesis
      using ok_cong [of "reload_conf_entry new (c, cnf)" sv "fold (\<lambda>r. pm_emit (PathReloadConf r d)) ?rs", OF e]
        ok_reload_all [OF assms(1) rs(2) assms(3)] by simp
  next
    case Gone
    then have e: "reload_conf_entry new (c, cnf) (sv_pm sv) = fold remove_and_close ?rs (sv_pm sv)"
      by (auto simp: conf_fate_def reload_conf_entry_def PathConf_Equal_def CanBeUpdated_iff split: option.splits if_splits)
    show ?thesis
      using ok_cong [of "reload_conf_entry new (c, cnf)" sv "fold remove_and_close ?rs", OF e]
        ok_close_all [OF assms(1) rs(1)] rs(2) by simp
  qed
qed

lemma ok_entries:
  assumes "core cs sv" "checked_confs new" "\<forall>(c, cnf) \<in> set es. map_of cs c = Some cnf \<and> named c cnf"
  shows "ok lib (fold (reload_conf_entry new) es) sv (core cs)"
  using assms
proof (induction es arbitrary: sv)
  case (Cons e es)
  obtain c cnf where e: "e = (c, cnf)" by fastforce
  have "ok lib (reload_conf_entry new e) sv (core cs)"
    using ok_entry [OF Cons.prems(1,2), of c cnf] Cons.prems(3) by (simp add: e)
  from ok_comp [OF _ _ this Cons.IH] Cons.prems(2,3) show ?case by (simp add: extends_fold comp_def)
qed (simp add: ok_id id_def)

lemma ok_static:
  assumes "core cs sv" "\<forall>(c, cnf) \<in> set es. map_of cs c = Some cnf \<and> pathconf_valid cnf"
  shows "ok lib (fold add_static_path es) sv (core cs)"
  using assms
proof (induction es arbitrary: sv)
  case (Cons e es)
  obtain c cnf where e: "e = (c, cnf)" by fastforce
  have "ok lib (add_static_path e) sv (core cs)"
  proof (cases "table (sv_pm sv) c = None \<and> pc_Regexp cnf = None")
    case True
    with ok_create [OF Cons.prems(1), of c c cnf lib "[]"] Cons.prems(2)
      ok_cong [of "add_static_path e" sv "createPath c cnf c []"] show ?thesis by (simp add: e add_static_path_def)
  next
    case False
    with ok_id [of "core cs" sv lib, OF Cons.prems(1)] ok_cong [of "add_static_path e" sv "\<lambda>pm. pm"] show ?thesis
      by (auto simp: e add_static_path_def)
  qed
  from ok_comp [OF _ _ this Cons.IH] Cons.prems(2) show ?case by (simp add: extends_fold comp_def)
qed (simp add: ok_id id_def)

section \<open>Events\<close>

definition sv_inv :: "server \<Rightarrow> bool" where
  "sv_inv sv \<longleftrightarrow> pm_inv (sv_pm sv) \<and> checked_confs (pm_pathConfs (sv_pm sv)) \<and> core (pm_pathConfs (sv_pm sv)) sv"

lemma checked_all: "checked_confs cs \<Longrightarrow> \<forall>(c, cnf) \<in> set cs. map_of cs c = Some cnf \<and> pathconf_valid cnf \<and> named c cnf"
  by (auto simp: checked_confs_def)

lemma core_new_confs:
  assumes "core cs sv" "checked_confs cs" "checked_confs new"
    and "\<And>n r. table (sv_pm sv) n = Some r \<Longrightarrow> \<not> gone new cs r"
  shows "core new (sv\<lparr>sv_pm := (sv_pm sv)\<lparr>pm_pathConfs := new\<rparr>\<rparr>)"
proof -
  have "link new (sv\<lparr>sv_pm := pm\<rparr>) r" if r: "table (sv_pm sv) n = Some r" for n r pm
  proof -
    obtain pa cnf where p: "sv_paths sv (pr_id r) = Some (Running pa)" "ref_of (pr_id r) pa = r"
        "map_of cs (pr_confName r) = Some cnf" "similar (pa_conf pa) cnf"
      using coreD(4) [OF assms(1) r] by (auto simp: link_def)
    have "conf_fate new (pr_confName r, cnf) \<noteq> Gone"
      using assms(4) [OF r] map_of_SomeD [OF p(3)] unfolding gone_def by force
    then obtain d where "map_of new (pr_confName r) = Some d" "similar cnf d"
      by (rule fate_similar [OF assms(3) checkedD(2) [OF assms(2) p(3)]])
    with p show ?thesis by (auto simp: link_def dest: similar_trans)
  qed
  moreover have "pending_ok (sv\<lparr>sv_pm := pm\<rparr>) = pending_ok sv" for pm by (simp add: pending_ok_def)
  ultimately show ?thesis using assms(1) by (simp add: core_def)
qed

lemma extends_confs: "extends (\<lambda>pm. pm\<lparr>pm_pathConfs := new\<rparr>)"
  by (simp add: extends_def)

lemma sv_reload_inv:
  assumes "sv_inv sv" "checked_confs new"
  shows "ok lib (handle_confReload new) sv sv_inv"
proof -
  let ?cs = "pm_pathConfs (sv_pm sv)"
  let ?f = "fold (reload_conf_entry new) ?cs" and ?u = "\<lambda>pm. pm\<lparr>pm_pathConfs := new\<rparr>"
  have i: "pm_inv (sv_pm sv)" "checked_confs ?cs" "core ?cs sv" "index_inv (sv_pm sv)" "distinct (map fst ?cs)"
    using assms(1) by (simp_all add: sv_inv_def pm_inv_def)
  note f = fold_reload [OF i(4,5), of new]
  have a: "ok lib ?f sv (core ?cs)"
    using ok_entries [OF i(3) assms(2)] checked_all [OF i(2)] by (simp add: case_prod_beta)
  have b: "ok lib ?u sv' (core new)" if "core ?cs sv'" "sv_pm sv' = ?f (sv_pm sv)" for sv'
  proof -
    have "\<not> gone new ?cs r" if "table (sv_pm sv') n = Some r" for n r
      using that f unfolding \<open>sv_pm sv' = ?f (sv_pm sv)\<close> by (simp add: without_Some)
    from core_new_confs [OF that(1) i(2) assms(2) this] show ?thesis by (simp add: ok_def follow_id)
  qed
  have c: "ok lib (fold add_static_path new) sv' (core new)" if "core new sv'" for sv'
    using ok_static [OF that] checked_all [OF assms(2)] by (simp add: case_prod_beta)
  have x: "extends ?f" "extends ?u" "extends (fold add_static_path new)"
    by (simp_all add: extends_fold extends_confs)
  have "ok lib (\<lambda>pm. fold add_static_path new (?u (?f pm))) sv (core new)"
    by (rule ok_comp [OF extends_comp [OF x(1,2)] x(3) ok_comp [OF x(1,2) a b] c])
  moreover have e: "handle_confReload new (sv_pm sv) = fold add_static_path new (?u (?f (sv_pm sv)))"
    by (simp add: handle_confReload_eq reload_entries_def)
  ultimately have "ok lib (handle_confReload new) sv (core new)"
    using ok_cong [of "handle_confReload new" sv "\<lambda>pm. fold add_static_path new (?u (?f pm))"] by simp
  moreover have "distinct (map fst new)" using assms(2) by (simp add: checked_confs_def)
  note r = handle_confReload_inv [OF i(1) this]
  have "pm_pathConfs (handle_confReload new (sv_pm sv)) = new"
    using reload_entries_facts(1,2) [OF i(1), of new] grownD(2) [OF add_static] by (simp add: handle_confReload_eq)
  ultimately show ?thesis using assms(2) r by (auto simp: ok_def sv_inv_def)
qed

text \<open>Messages of the manager that do not concern paths.\<close>

fun for_path :: "pm_out \<Rightarrow> bool" where
  "for_path (PathNew r c ms) = True"
| "for_path (PathCloseWait r) = True"
| "for_path (PathReloadConf r c) = True"
| "for_path _ = False"

lemma core_pm:
  assumes "core cs sv" "index_inv pm" "pm_next pm = pm_next (sv_pm sv)" "\<And>n r. table pm n = Some r \<Longrightarrow> table (sv_pm sv) n = Some r"
  shows "core cs (sv\<lparr>sv_pm := pm\<rparr>)"
proof -
  have "link cs (sv\<lparr>sv_pm := pm\<rparr>) = link cs sv" "pending_ok (sv\<lparr>sv_pm := pm\<rparr>) = pending_ok sv"
    by (simp_all add: fun_eq_iff link_def pending_ok_def)
  moreover have "link cs sv r" if "table pm n = Some r" for n r by (rule coreD(4) [OF assms(1) assms(4) [OF that]])
  ultimately show ?thesis using assms(1-3) unfolding core_def by simp
qed

lemma ok_emit:
  assumes "core cs sv" "\<not> for_path out"
  shows "ok lib (pm_emit out) sv (core cs)"
proof -
  have "sv_apply lib out sv' = Some sv'" for sv' using assms(2) by (cases out) simp_all
  moreover have "core cs (sv\<lparr>sv_pm := pm_emit out (sv_pm sv)\<rparr>)"
    by (rule core_pm [OF assms(1)]) (use coreD(1) [OF assms(1)] in simp_all)
  ultimately show ?thesis by (simp add: ok_def follow_def)
qed

lemma ok_access:
  assumes "sv_inv sv"
  shows "ok lib (\<lambda>pm. snd (get_path l cred auth name pm)) sv (core (pm_pathConfs (sv_pm sv)))"
proof -
  let ?cs = "pm_pathConfs (sv_pm sv)"
  have i: "core ?cs sv" "checked_confs ?cs" using assms by (simp_all add: sv_inv_def)
  have same: ?thesis if "snd (get_path l cred auth name (sv_pm sv)) = sv_pm sv"
    using ok_cong [of "\<lambda>pm. snd (get_path l cred auth name pm)" sv "\<lambda>pm. pm"] that ok_id [of "core ?cs" sv lib, OF i(1)] by simp
  show ?thesis
  proof (cases "findPathConf l name (sv_pm sv)")
    case (Inl e)
    then show ?thesis by (intro same) (simp add: get_path_def)
  next
    case (Inr found)
    obtain c cnf ms where found: "found = (c, cnf, ms)" by (cases found)
    show ?thesis
    proof (cases "authenticate auth (cred cnf) = None \<and> table (sv_pm sv) name = None")
      case False
      with Inr found show ?thesis
        by (intro same) (auto simp: get_path_def ensure_path_def split: option.splits)
    next
      case True
      then have e: "snd (get_path l cred auth name (sv_pm sv)) = createPath c cnf name ms (sv_pm sv)"
        using Inr found by (simp add: get_path_def ensure_path_def Let_def)
      have "map_of ?cs c = Some cnf \<and> pathconf_valid cnf"
        using findPathConf_Inr [of l name "sv_pm sv" c cnf ms] Inr found checked_all [OF i(2)] by auto
      with ok_create [OF i(1), of name c cnf lib ms] True
        ok_cong [of "\<lambda>pm. snd (get_path l cred auth name pm)" sv "createPath c cnf name ms"] e show ?thesis by simp
    qed
  qed
qed

lemma ok_select:
  assumes "sv_inv sv" "sv_enabled (SvPm ev) sv"
  shows "ok lib (pm_select l ev) sv sv_inv"
proof -
  let ?cs = "pm_pathConfs (sv_pm sv)"
  have i: "pm_inv (sv_pm sv)" "checked_confs ?cs" "core ?cs sv" using assms(1) by (simp_all add: sv_inv_def)
  have up: ?thesis
    if "ok lib f sv (core ?cs)" "pm_select l ev (sv_pm sv) = f (sv_pm sv)" "pm_pathConfs (f (sv_pm sv)) = ?cs"
      "pm_enabled ev (sv_pm sv)" for f
    using that(1) pm_select_inv [OF i(1) that(4), of l] i(2) that(3) ok_cong [of "pm_select l ev" sv f, OF that(2)]
    unfolding that(2) by (auto simp: ok_def sv_inv_def that(2))
  have acc: "ok lib (\<lambda>pm. pm_emit (out (fst (get_path l cred auth name pm))) (snd (get_path l cred auth name pm))) sv (core ?cs)"
    if "\<And>res. \<not> for_path (out res)" for out cred auth name
  proof -
    let ?g = "\<lambda>pm. snd (get_path l cred auth name pm)" and ?o = "out (fst (get_path l cred auth name (sv_pm sv)))"
    have "extends ?g" by (auto simp: extends_def get_path_def ensure_path_def Let_def split: sum.splits option.splits)
    then have "ok lib (\<lambda>pm. pm_emit ?o (?g pm)) sv (core ?cs)"
      by (rule ok_comp [OF _ extends_ops(2) ok_access [OF assms(1)] ok_emit [OF _ that]])
    then show ?thesis
      using ok_cong [of "\<lambda>pm. pm_emit (out (fst (get_path l cred auth name pm))) (?g pm)" sv "\<lambda>pm. pm_emit ?o (?g pm)"]
      by simp
  qed
  have confs: "pm_pathConfs (snd (get_path l cred auth name pm)) = pm_pathConfs pm" for cred auth name pm
    by (auto simp: get_path_def ensure_path_def Let_def split: sum.splits option.splits)
  show ?thesis
  proof (cases ev)
    case (PmDescribe req name auth)
    with confs show ?thesis
      by (intro up [OF acc [of "PmDescribeRes req" read_cred auth name]]) (simp_all add: handle_describe_def case_prod_beta Let_def)
  next
    case (PmReaderAdd req name auth)
    with confs show ?thesis
      by (intro up [OF acc [of "PmReaderAddRes req" read_cred auth name]]) (simp_all add: handle_readerAdd_def case_prod_beta Let_def)
  next
    case (PmPublisherAdd req name auth)
    with confs show ?thesis
      by (intro up [OF acc [of "PmPublisherAddRes req" publish_cred "Some auth" name]])
        (simp_all add: handle_publisherAdd_def case_prod_beta Let_def)
  next
    case (PmConfReload new)
    with sv_reload_inv [OF assms(1), of new lib] assms(2) ok_cong [of "pm_select l ev" sv "handle_confReload new"] show ?thesis
      by simp
  next
    case (PmPathClose r)
    with assms(2) show ?thesis by simp
  next
    case (PmPathSourceReady r)
    then show ?thesis
      using up [OF ok_emit [OF i(3), of "HLSPathSourceReady r"]] up [OF ok_id [of "core ?cs", OF i(3)]]
      by (cases "pm_hlsServer (sv_pm sv)") simp_all
  next
    case (PmPathSourceNotReady r)
    then show ?thesis
      using up [OF ok_emit [OF i(3), of "HLSPathSourceNotReady r"]] up [OF ok_id [of "core ?cs", OF i(3)]]
      by (cases "pm_hlsServer (sv_pm sv)") simp_all
  next
    case (PmHLSServerSet h)
    have "index_inv ((sv_pm sv)\<lparr>pm_hlsServer := h\<rparr>)" using i(1) pm_hls_inv unfolding pm_inv_def by blast
    then have "core ?cs (sv\<lparr>sv_pm := (sv_pm sv)\<lparr>pm_hlsServer := h\<rparr>\<rparr>)" by (rule core_pm [OF i(3)]) simp_all
    then have "ok lib (\<lambda>pm. pm\<lparr>pm_hlsServer := h\<rparr>) sv (core ?cs)" by (simp add: ok_def follow_id)
    from up [OF this] PmHLSServerSet show ?thesis by simp
  next
    case (PmAPIPathsList req)
    then show ?thesis
      by (intro up [OF ok_emit [OF i(3), of "PmAPIPathsListRes req (pm_paths (sv_pm sv))"]]) simp_all
  qed
qed

text \<open>What the manager does when it hears from a path.\<close>

definition heard :: "path_ref \<Rightarrow> path_out set \<Rightarrow> pathManager \<Rightarrow> pathManager \<Rightarrow> bool" where
  "heard r outs pm pm' \<longleftrightarrow> pm_inv pm' \<and> pm_pathConfs pm' = pm_pathConfs pm \<and> pm_next pm' = pm_next pm \<and>
     (\<forall>n x. table pm' n = Some x \<longrightarrow> table pm n = Some x \<and> (ParentPathClose \<in> outs \<longrightarrow> x \<noteq> r))"

lemma heard_refl: "pm_inv pm \<Longrightarrow> ParentPathClose \<notin> outs \<Longrightarrow> heard r outs pm pm"
  by (simp add: heard_def)

lemma heard_trans: "heard r a pm pm1 \<Longrightarrow> heard r b pm1 pm2 \<Longrightarrow> heard r (a \<union> b) pm pm2"
  unfolding heard_def by (metis Un_iff)

lemma heard_close:
  assumes "pm_inv pm"
  shows "heard r {ParentPathClose} pm (pm_select l (PmPathClose r) pm)"
proof -
  have idx: "index_inv pm" using assms by (simp add: pm_inv_def)
  have "table pm n = Some x \<and> x \<noteq> r" if "table (pm_select l (PmPathClose r) pm) n = Some x" for n x
    using that index_invD(4) [OF idx, of n x] by (cases "table pm (pr_name r) = Some r") (auto split: if_splits)
  moreover have "pm_inv (pm_select l (PmPathClose r) pm)" by (rule pm_select_inv [OF assms]) simp
  moreover have "pm_pathConfs (pm_select l (PmPathClose r) pm) = pm_pathConfs pm" "pm_next (pm_select l (PmPathClose r) pm) = pm_next pm"
    by simp_all
  ultimately show ?thesis unfolding heard_def by blast
qed

lemma hear_one:
  assumes "pm_inv pm"
  shows "heard r {out} pm (path_to_pm l r out pm)"
proof -
  have "heard r {out} pm (pm_emit o' pm)" if "out \<noteq> ParentPathClose" for o'
    using assms that by (simp add: heard_def pm_inv_def)
  then show ?thesis using heard_close [OF assms, of r l] heard_refl [OF assms] by (cases out) simp_all
qed

lemma hear: "pm_inv pm \<Longrightarrow> heard r (set outs) pm (fold (path_to_pm l r) outs pm)"
proof (induction outs arbitrary: pm)
  case (Cons out outs)
  note one = hear_one [OF Cons.prems, of r out l]
  then have "pm_inv (path_to_pm l r out pm)" by (simp add: heard_def)
  from heard_trans [OF one Cons.IH [OF this]] show ?case by simp
qed (simp add: heard_refl)

lemma path_exit_told:
  assumes "path_inv pa"
  shows "\<exists>pa'. path_exit pa = Some pa' \<and> (\<exists>outs. pa_out pa' = pa_out pa @ outs \<and> ParentPathClose \<in> set outs)"
  using path_exit_eq [OF assms] by (auto simp: exit_out_def)

lemma path_step_facts:
  assumes "path_inv pa" "event_enabled ev (Running pa)"
  shows "\<exists>s'. path_step lib ev (Running pa) = Some s' \<and> run_inv s' \<and>
    (case s' of Running pa' \<Rightarrow> ref_of i pa' = ref_of i pa \<and> similar (pa_conf pa) (pa_conf pa')
     | Stopped pa' \<Rightarrow> ParentPathClose \<in> set (told (Running pa) s'))"
proof -
  obtain pa1 c where s: "path_select lib ev pa = Some (pa1, c)" "path_inv pa1"
    using path_select_inv [OF assms(1), of ev lib] assms(2) by auto
  have f: "ref_of i pa1 = ref_of i pa \<and> similar (pa_conf pa) (pa_conf pa1) \<and> (\<exists>outs. pa_out pa1 = pa_out pa @ outs)"
  proof (cases "\<exists>cnf. ev = ReloadConf cnf")
    case True
    with reload_conf_frame [of lib _ pa pa1 c] s(1) assms(2) show ?thesis
      by (auto simp: ref_of_def conf_compatible_similar)
  next
    case False
    with path_select_frame [OF s(1)] show ?thesis by (auto simp: ref_of_def frame_def)
  qed
  show ?thesis
  proof (cases c)
    case True
    with s f show ?thesis by simp
  next
    case False
    with s f path_exit_told [OF s(2)] show ?thesis by (auto simp: told_def)
  qed
qed

lemma similar_left: "similar c d \<Longrightarrow> similar c e \<Longrightarrow> similar d e"
  by (simp add: similar_def)

lemma sv_path_event_inv:
  assumes "sv_inv sv" "sv_paths sv i = Some s" "event_enabled ev s"
  shows "\<exists>sv'. sv_path_event lib i ev sv = Some sv' \<and> sv_inv sv'"
proof -
  let ?cs = "pm_pathConfs (sv_pm sv)" and ?l = "golib.truncate lib" and ?r = "ref_of i (run_path s)"
  have inv: "pm_inv (sv_pm sv)" "checked_confs ?cs" "core ?cs sv" using assms(1) by (simp_all add: sv_inv_def)
  note c = coreD [OF inv(3)]
  obtain s' where s': "path_step lib ev s = Some s'" "run_inv s'"
    and run: "\<And>pa. s = Running pa \<Longrightarrow> (case s' of Running pa' \<Rightarrow> ref_of i pa' = ref_of i pa \<and> similar (pa_conf pa) (pa_conf pa')
       | Stopped pa' \<Rightarrow> ParentPathClose \<in> set (told s s'))"
    and stop: "\<And>pa. s = Stopped pa \<Longrightarrow> \<exists>pa'. s' = Stopped pa'"
  proof (cases s)
    case (Running pa)
    with path_step_facts [of pa ev lib i] assms(3) c(2) [OF assms(2)] show thesis by (auto intro: that)
  next
    case (Stopped pa)
    then show thesis by (intro that [of "Stopped (path_call_stopped ev pa)"]) simp_all
  qed
  let ?pm = "fold (path_to_pm ?l ?r) (told s s') (sv_pm sv)"
  let ?sv = "sv\<lparr>sv_paths := (sv_paths sv)(i \<mapsto> s'), sv_pm := ?pm\<rparr>"
  note h = hear [OF inv(1), of ?r "told s s'" ?l, unfolded heard_def]
  have same: "\<exists>pa. s = Running pa \<and> ref_of i pa' = ref_of i pa \<and> similar (pa_conf pa) (pa_conf pa')" if "s' = Running pa'" for pa'
    using that run stop by (cases s) auto
  have "link ?cs ?sv r" if t: "table ?pm n = Some r" for n r
  proof -
    have l: "link ?cs sv r" "ParentPathClose \<in> set (told s s') \<Longrightarrow> r \<noteq> ?r" using h t c(4) by blast+
    then obtain pa cnf where p: "sv_paths sv (pr_id r) = Some (Running pa)" "ref_of (pr_id r) pa = r"
        "map_of ?cs (pr_confName r) = Some cnf" "similar (pa_conf pa) cnf" by (auto simp: link_def)
    show ?thesis
    proof (cases "pr_id r = i")
      case True
      with p(1) assms(2) have s: "s = Running pa" by simp
      with run [OF s] l(2) p(2) True obtain pa' where "s' = Running pa'" "ref_of i pa' = r" "similar (pa_conf pa) (pa_conf pa')"
        by (cases s') auto
      with True p show ?thesis by (auto simp: link_def dest: similar_left)
    next
      case False
      with p show ?thesis by (simp add: link_def)
    qed
  qed
  moreover have "pending_ok ?sv q" if "q \<in> set (sv_reloads sv)" for q
    using c(5) [OF that] assms(2) same by (auto simp: pending_ok_def) (metis similar_left)
  moreover have "run_inv x \<and> j < pm_next ?pm" if "sv_paths ?sv j = Some x" for j x
    using that s'(2) c(2,3) [of j x] c(3) [OF assms(2)] h by (auto split: if_splits)
  ultimately have "core ?cs ?sv" using h unfolding core_def by (simp add: pm_inv_def)
  with h inv(2) have "sv_inv ?sv" by (simp add: sv_inv_def)
  with assms(2) s'(1) show ?thesis by (simp add: sv_path_event_def)
qed

lemma sv_reloads_inv:
  assumes "sv_inv sv" "set rs \<subseteq> set (sv_reloads sv)"
  shows "sv_inv (sv\<lparr>sv_reloads := rs\<rparr>)"
proof -
  have "link cs (sv\<lparr>sv_reloads := rs\<rparr>) = link cs sv" "pending_ok (sv\<lparr>sv_reloads := rs\<rparr>) = pending_ok sv" for cs
    by (simp_all add: fun_eq_iff link_def pending_ok_def)
  with assms show ?thesis unfolding sv_inv_def core_def by auto
qed

lemma sv_step_inv:
  assumes "sv_inv sv" "sv_enabled ev sv"
  shows "\<exists>sv'. sv_step lib ev sv = Some sv' \<and> sv_inv sv'"
proof (cases ev)
  case (SvPm e)
  with ok_select [OF assms(1), of e lib "golib.truncate lib"] assms(2) show ?thesis
    by (auto simp: ok_def follow_def sv_pm_event_def Let_def)
next
  case (SvPath i e)
  with assms(2) sv_path_event_inv [OF assms(1), of i _ e lib] show ?thesis by (auto split: option.splits)
next
  case (SvReload k)
  obtain i cnf where e: "sv_reloads sv ! k = (i, cnf)" by fastforce
  let ?rs = "take k (sv_reloads sv) @ drop (Suc k) (sv_reloads sv)" 
  have k: "(i, cnf) \<in> set (sv_reloads sv)" using assms(2) SvReload e nth_mem [of k "sv_reloads sv"] by simp
  have "core (pm_pathConfs (sv_pm sv)) sv" using assms(1) by (simp add: sv_inv_def)
  from coreD(5) [OF this k] obtain s where s: "sv_paths sv i = Some s" "pathconf_valid cnf"
      "\<And>pa. s = Running pa \<Longrightarrow> similar (pa_conf pa) cnf" by (auto simp: pending_ok_def)
  have "event_enabled (ReloadConf cnf) s" using s(2,3) by (cases s) (simp_all add: conf_compatible_similar)
  moreover have "sv_inv (sv\<lparr>sv_reloads := ?rs\<rparr>)"
    by (rule sv_reloads_inv [OF assms(1)]) (auto dest: in_set_takeD in_set_dropD)
  ultimately show ?thesis
    using sv_path_event_inv [of "sv\<lparr>sv_reloads := ?rs\<rparr>" i s "ReloadConf cnf" lib] s(1) SvReload e by simp
qed

interpretation server_machine: machine sv_enabled "sv_step lib" sv_inv for lib
  by unfold_locales (rule sv_step_inv)

lemma newServer_inv:
  assumes "checked_confs confs"
  shows "\<exists>sv. newServer lib rtsp sz confs = Some sv \<and> sv_inv sv"
proof -
  let ?f = "fold add_static_path confs" and ?pm = "pm_empty confs"
  let ?sv = "\<lparr>sv_rtspAddress = rtsp, sv_udpMaxPayloadSize = sz, sv_pm = ?pm, sv_paths = Map.empty, sv_reloads = []\<rparr>"
  have d: "distinct (map fst confs)" using assms by (simp add: checked_confs_def)
  have "index_inv ?pm" by (simp add: index_inv_def pm_empty_def paths_of_def)
  then have "core confs ?sv" by (simp add: core_def pm_empty_def)
  then have "ok lib ?f ?sv (core confs)" using ok_static checked_all [OF assms] by (simp add: case_prod_beta)
  moreover have "pm_pathConfs (?f ?pm) = confs" using grownD(2) [OF add_static [OF \<open>index_inv ?pm\<close>]] by (simp add: pm_empty_def)
  moreover have "pm_out ?pm = []" by (simp add: pm_empty_def)
  ultimately show ?thesis
    using newPathManager_inv [OF d] assms
    by (auto simp: newServer_def ok_def follow_def new_outs_def sv_inv_def newPathManager_eq [OF d] Let_def)
qed

end
