(* ===== verification/ServerSpec.thy ===== *)
theory ServerSpec
  imports ServerInv
begin

text \<open>The properties of the path manager and its paths together.\<close>

text \<open>
  C1. The path manager and its paths together never panic, and requests never reach a dead path.
  Whatever checked configuration the server starts with, whatever requests, timers, reports of the
  sources and reloads happen, in any order (reloads of single paths are delivered in any order and
  after any delay), no path panics, and between the steps each path in the table of the manager exists,
  is running, and bears the name and the configuration name under which the manager keeps it; the
  configuration that it runs with has the regular expression, the source, the mode of the source and
  the command on demand of the current one, which are all that decides about the life of the path.
  (The end of a path and its removal from the table are one step here.)
\<close>

theorem server_never_panics:
  assumes "checked_confs confs"
  shows "\<exists>sv. newServer lib rtsp sz confs = Some sv \<and>
    (\<forall>es. feasible sv_enabled (sv_step lib) es sv \<longrightarrow>
      (\<exists>sv'. run (sv_step lib) es sv = Some sv' \<and> pm_inv (sv_pm sv') \<and>
        (\<forall>n r. map_of (pm_paths (sv_pm sv')) n = Some r \<longrightarrow>
          (\<exists>pa cnf. sv_paths sv' (pr_id r) = Some (Running pa) \<and> path_inv pa \<and>
             pa_name pa = n \<and> pa_confName pa = pr_confName r \<and>
             map_of (pm_pathConfs (sv_pm sv')) (pr_confName r) = Some cnf \<and> similar (pa_conf pa) cnf))))"
proof -
  obtain sv where sv: "newServer lib rtsp sz confs = Some sv" "sv_inv sv" using newServer_inv [OF assms] by blast
  have "\<exists>pa cnf. sv_paths sv' (pr_id r) = Some (Running pa) \<and> path_inv pa \<and> pa_name pa = n \<and> pa_confName pa = pr_confName r \<and>
      map_of (pm_pathConfs (sv_pm sv')) (pr_confName r) = Some cnf \<and> similar (pa_conf pa) cnf"
    if "sv_inv sv'" and t: "map_of (pm_paths (sv_pm sv')) n = Some r" for sv' n r
  proof -
    have c: "core (pm_pathConfs (sv_pm sv')) sv'" using that(1) by (simp add: sv_inv_def)
    obtain pa cnf where p: "sv_paths sv' (pr_id r) = Some (Running pa)" "ref_of (pr_id r) pa = r"
        "map_of (pm_pathConfs (sv_pm sv')) (pr_confName r) = Some cnf" "similar (pa_conf pa) cnf"
      using coreD(4) [OF c t] by (auto simp: link_def)
    moreover have "pa_name pa = pr_name r" "pa_confName pa = pr_confName r"
      by (subst p(2) [symmetric], simp add: ref_of_def)+
    moreover have "pr_name r = n" by (rule index_invD(4) [OF coreD(1) [OF c] t])
    ultimately show ?thesis using coreD(2) [OF c p(1)] by simp
  qed
  with sv server_machine.run_inv [OF sv(2)] show ?thesis by (metis sv_inv_def)
qed

lemma sample_checked: "checked_confs [(''b'', on_demand_sample)]"
  using on_demand_sample_valid by (simp add: checked_confs_def named_def)

abbreviation sample_server_events :: "sv_event list" where
  "sample_server_events \<equiv> [SvPath 0 (Describe sample_describe), SvPm (PmDescribe 7 ''b'' None), SvPm (PmConfReload [])]"

lemma sample_server:
  assumes "newServer plain_pathlib '':8554'' 1472 [(''b'', on_demand_sample)] = Some sv"
  shows "feasible sv_enabled (sv_step plain_pathlib) sample_server_events sv"
proof -
  have "pm_out (newPathManager [(''b'', on_demand_sample)]) = [PathNew ref_b on_demand_sample []]"
    by (simp add: newPathManager_def createPath_def pm_emit_def Let_def ref_b_def)
  with assms have "sv_paths sv 0 \<noteq> None" by (auto simp: newServer_def Let_def ref_b_def split: bind_splits)
  then obtain s where s: "sv_paths sv 0 = Some s" by blast
  then have "event_enabled (Describe sample_describe) s" by (cases s) simp_all
  moreover have "checked_confs []" by (simp add: checked_confs_def)
  ultimately show ?thesis using s by (simp split: option.splits)
qed

theorem server_never_panics_witness:
  "checked_confs [(''b'', on_demand_sample)] \<and>
   (\<exists>sv. newServer plain_pathlib '':8554'' 1472 [(''b'', on_demand_sample)] = Some sv \<and>
     feasible sv_enabled (sv_step plain_pathlib) sample_server_events sv \<and>
     (\<exists>sv'. run (sv_step plain_pathlib) sample_server_events sv = Some sv' \<and> pm_inv (sv_pm sv')))"
  using server_never_panics [OF sample_checked, of plain_pathlib "'':8554''" 1472] sample_checked sample_server by meson

end
