(* ===== verification/Core.thy ===== *)
theory Core
  imports Conf
begin

text \<open>
  The core (\<open>internal/core/core.go\<close>): the instance of the server that owns all the others.  It creates
  the resources that the configuration asks for, and on a reload closes those that the new
  configuration affects and creates them again.  A resource is an instance number with the arguments
  that its constructor was given; references to other resources are instance numbers.  Whether a
  constructor succeeds (whether an address is free, a file can be opened) depends on the environment:
  \<open>env n\<close> is the error of the creation of instance \<open>n\<close>, if any.
\<close>

section \<open>Resources\<close>

record 'a inst =
  in_id :: nat
  in_args :: 'a

record logger_args =
  lg_level :: "log_level option"
  lg_destinations :: "log_destination list"
  lg_filePath :: string

record http_args =
  ht_address :: string
  ht_readTimeout :: duration

record pathManager_args =
  pg_rtspAddress :: string
  pg_readTimeout :: duration
  pg_writeTimeout :: duration
  pg_readBufferCount :: int
  pg_udpMaxPayloadSize :: int
  pg_pathConfs :: "(string \<times> PathConf option) set"
  pg_metrics :: "nat option"

record rtspServer_args =
  rs_externalAuthenticationURL :: string
  rs_address :: string
  rs_authMethods :: "auth_method list"
  rs_readTimeout :: duration
  rs_writeTimeout :: duration
  rs_readBufferCount :: int
  rs_useUDP :: bool
  rs_useMulticast :: bool
  rs_rtpAddress :: string
  rs_rtcpAddress :: string
  rs_multicastIPRange :: string
  rs_multicastRTPPort :: int
  rs_multicastRTCPPort :: int
  rs_isTLS :: bool
  rs_serverCert :: string
  rs_serverKey :: string
  rs_rtspAddress :: string
  rs_protocols :: "transport set"
  rs_runOnConnect :: string
  rs_runOnConnectRestart :: bool
  rs_metrics :: "nat option"
  rs_pathManager :: "nat option"

record rtmpServer_args =
  rm_externalAuthenticationURL :: string
  rm_address :: string
  rm_readTimeout :: duration
  rm_writeTimeout :: duration
  rm_readBufferCount :: int
  rm_isTLS :: bool
  rm_serverCert :: string
  rm_serverKey :: string
  rm_rtspAddress :: string
  rm_runOnConnect :: string
  rm_runOnConnectRestart :: bool
  rm_metrics :: "nat option"
  rm_pathManager :: "nat option"

record hlsServer_args =
  hs_address :: string
  hs_encryption :: bool
  hs_serverKey :: string
  hs_serverCert :: string
  hs_externalAuthenticationURL :: string
  hs_alwaysRemux :: bool
  hs_variant :: "hls_variant option"
  hs_segmentCount :: int
  hs_segmentDuration :: duration
  hs_partDuration :: duration
  hs_segmentMaxSize :: u64
  hs_allowOrigin :: string
  hs_trustedProxies :: "string list"
  hs_directory :: string
  hs_readTimeout :: duration
  hs_readBufferCount :: int
  hs_pathManager :: "nat option"
  hs_metrics :: "nat option"

record webRTCServer_args =
  ws_externalAuthenticationURL :: string
  ws_address :: string
  ws_encryption :: bool
  ws_serverKey :: string
  ws_serverCert :: string
  ws_allowOrigin :: string
  ws_trustedProxies :: "string list"
  ws_iceServers :: "string list option"
  ws_readTimeout :: duration
  ws_readBufferCount :: int
  ws_pathManager :: "nat option"
  ws_metrics :: "nat option"
  ws_iceHostNAT1To1IPs :: "string list"
  ws_iceUDPMuxAddress :: string
  ws_iceTCPMuxAddress :: string

record api_args =
  ap_address :: string
  ap_readTimeout :: duration
  ap_conf :: Conf
  ap_pathManager :: "nat option"
  ap_rtspServer :: "nat option"
  ap_rtspsServer :: "nat option"
  ap_rtmpServer :: "nat option"
  ap_rtmpsServer :: "nat option"
  ap_hlsServer :: "nat option"
  ap_webRTCServer :: "nat option"

text \<open>What the core does to its resources, in order.\<close>

datatype core_out = Started nat | Closed nat | PathManagerConfReload nat | APIConfReload nat

record Core =
  co_conf :: Conf
  co_confFound :: bool
  co_logger :: "logger_args inst option"
  co_externalCmdPool :: bool
  co_metrics :: "http_args inst option"
  co_pprof :: "http_args inst option"
  co_pathManager :: "pathManager_args inst option"
  co_rtspServer :: "rtspServer_args inst option"
  co_rtspsServer :: "rtspServer_args inst option"
  co_rtmpServer :: "rtmpServer_args inst option"
  co_rtmpsServer :: "rtmpServer_args inst option"
  co_hlsServer :: "hlsServer_args inst option"
  co_webRTCServer :: "webRTCServer_args inst option"
  co_api :: "api_args inst option"
  co_confWatcher :: "unit inst option"
  co_next :: nat
  co_out :: "core_out list"

type_synonym env = "nat \<Rightarrow> string option"

abbreviation ref :: "'a inst option \<Rightarrow> nat option" where
  "ref \<equiv> map_option in_id"

text \<open>The arguments of the constructors, or \<open>None\<close> if the configuration does not ask for the resource.\<close>

definition logger_want :: "Conf \<Rightarrow> logger_args option" where
  "logger_want c = Some \<lparr>lg_level = cf_LogLevel c, lg_destinations = cf_LogDestinations c, lg_filePath = cf_LogFile c\<rparr>"

definition metrics_want :: "Conf \<Rightarrow> http_args option" where
  "metrics_want c =
     (if cf_Metrics c then Some \<lparr>ht_address = cf_MetricsAddress c, ht_readTimeout = cf_ReadTimeout c\<rparr> else None)"

definition pprof_want :: "Conf \<Rightarrow> http_args option" where
  "pprof_want c =
     (if cf_PPROF c then Some \<lparr>ht_address = cf_PPROFAddress c, ht_readTimeout = cf_ReadTimeout c\<rparr> else None)"

definition pathManager_want :: "Conf \<Rightarrow> nat option \<Rightarrow> pathManager_args option" where
  "pathManager_want c metrics = Some
     \<lparr>pg_rtspAddress = cf_RTSPAddress c, pg_readTimeout = cf_ReadTimeout c, pg_writeTimeout = cf_WriteTimeout c,
      pg_readBufferCount = cf_ReadBufferCount c, pg_udpMaxPayloadSize = cf_UDPMaxPayloadSize c,
      pg_pathConfs = set (cf_Paths c), pg_metrics = metrics\<rparr>"

definition rtspServer_want :: "Conf \<Rightarrow> nat option \<Rightarrow> nat option \<Rightarrow> rtspServer_args option" where
  "rtspServer_want c metrics pm =
     (if \<not> cf_RTSPDisable c \<and> (cf_Encryption c = EncryptionNo \<or> cf_Encryption c = EncryptionOptional)
      then Some \<lparr>rs_externalAuthenticationURL = cf_ExternalAuthenticationURL c, rs_address = cf_RTSPAddress c,
        rs_authMethods = cf_AuthMethods c, rs_readTimeout = cf_ReadTimeout c, rs_writeTimeout = cf_WriteTimeout c,
        rs_readBufferCount = cf_ReadBufferCount c, rs_useUDP = TransportUDP \<in> cf_Protocols c,
        rs_useMulticast = TransportUDPMulticast \<in> cf_Protocols c, rs_rtpAddress = cf_RTPAddress c,
        rs_rtcpAddress = cf_RTCPAddress c, rs_multicastIPRange = cf_MulticastIPRange c,
        rs_multicastRTPPort = cf_MulticastRTPPort c, rs_multicastRTCPPort = cf_MulticastRTCPPort c,
        rs_isTLS = False, rs_serverCert = '''', rs_serverKey = '''', rs_rtspAddress = cf_RTSPAddress c,
        rs_protocols = cf_Protocols c, rs_runOnConnect = cf_RunOnConnect c,
        rs_runOnConnectRestart = cf_RunOnConnectRestart c, rs_metrics = metrics, rs_pathManager = pm\<rparr>
      else None)"

definition rtspsServer_want :: "Conf \<Rightarrow> nat option \<Rightarrow> nat option \<Rightarrow> rtspServer_args option" where
  "rtspsServer_want c metrics pm =
     (if \<not> cf_RTSPDisable c \<and> (cf_Encryption c = EncryptionStrict \<or> cf_Encryption c = EncryptionOptional)
      then Some \<lparr>rs_externalAuthenticationURL = cf_ExternalAuthenticationURL c, rs_address = cf_RTSPSAddress c,
        rs_authMethods = cf_AuthMethods c, rs_readTimeout = cf_ReadTimeout c, rs_writeTimeout = cf_WriteTimeout c,
        rs_readBufferCount = cf_ReadBufferCount c, rs_useUDP = False, rs_useMulticast = False, rs_rtpAddress = '''',
        rs_rtcpAddress = '''', rs_multicastIPRange = '''', rs_multicastRTPPort = 0, rs_multicastRTCPPort = 0,
        rs_isTLS = True, rs_serverCert = cf_ServerCert c, rs_serverKey = cf_ServerKey c, rs_rtspAddress = cf_RTSPAddress c,
        rs_protocols = cf_Protocols c, rs_runOnConnect = cf_RunOnConnect c,
        rs_runOnConnectRestart = cf_RunOnConnectRestart c, rs_metrics = metrics, rs_pathManager = pm\<rparr>
      else None)"

definition rtmpServer_want :: "Conf \<Rightarrow> nat option \<Rightarrow> nat option \<Rightarrow> rtmpServer_args option" where
  "rtmpServer_want c metrics pm =
     (if \<not> cf_RTMPDisable c \<and> (cf_RTMPEncryption c = EncryptionNo \<or> cf_RTMPEncryption c = EncryptionOptional)
      then Some \<lparr>rm_externalAuthenticationURL = cf_ExternalAuthenticationURL c, rm_address = cf_RTMPAddress c,
        rm_readTimeout = cf_ReadTimeout c, rm_writeTimeout = cf_WriteTimeout c, rm_readBufferCount = cf_ReadBufferCount c,
        rm_isTLS = False, rm_serverCert = '''', rm_serverKey = '''', rm_rtspAddress = cf_RTSPAddress c,
        rm_runOnConnect = cf_RunOnConnect c, rm_runOnConnectRestart = cf_RunOnConnectRestart c,
        rm_metrics = metrics, rm_pathManager = pm\<rparr>
      else None)"

definition rtmpsServer_want :: "Conf \<Rightarrow> nat option \<Rightarrow> nat option \<Rightarrow> rtmpServer_args option" where
  "rtmpsServer_want c metrics pm =
     (if \<not> cf_RTMPDisable c \<and> (cf_RTMPEncryption c = EncryptionStrict \<or> cf_RTMPEncryption c = EncryptionOptional)
      then Some \<lparr>rm_externalAuthenticationURL = cf_ExternalAuthenticationURL c, rm_address = cf_RTMPSAddress c,
        rm_readTimeout = cf_ReadTimeout c, rm_writeTimeout = cf_WriteTimeout c, rm_readBufferCount = cf_ReadBufferCount c,
        rm_isTLS = True, rm_serverCert = cf_RTMPServerCert c, rm_serverKey = cf_RTMPServerKey c,
        rm_rtspAddress = cf_RTSPAddress c, rm_runOnConnect = cf_RunOnConnect c,
        rm_runOnConnectRestart = cf_RunOnConnectRestart c, rm_metrics = metrics, rm_pathManager = pm\<rparr>
      else None)"

definition hlsServer_want :: "Conf \<Rightarrow> nat option \<Rightarrow> nat option \<Rightarrow> hlsServer_args option" where
  "hlsServer_want c metrics pm =
     (if \<not> cf_HLSDisable c
      then Some \<lparr>hs_address = cf_HLSAddress c, hs_encryption = cf_HLSEncryption c, hs_serverKey = cf_HLSServerKey c,
        hs_serverCert = cf_HLSServerCert c, hs_externalAuthenticationURL = cf_ExternalAuthenticationURL c,
        hs_alwaysRemux = cf_HLSAlwaysRemux c, hs_variant = cf_HLSVariant c, hs_segmentCount = cf_HLSSegmentCount c,
        hs_segmentDuration = cf_HLSSegmentDuration c, hs_partDuration = cf_HLSPartDuration c,
        hs_segmentMaxSize = cf_HLSSegmentMaxSize c, hs_allowOrigin = cf_HLSAllowOrigin c,
        hs_trustedProxies = cf_HLSTrustedProxies c, hs_directory = cf_HLSDirectory c, hs_readTimeout = cf_ReadTimeout c,
        hs_readBufferCount = cf_ReadBufferCount c, hs_pathManager = pm, hs_metrics = metrics\<rparr>
      else None)"

definition webRTCServer_want :: "Conf \<Rightarrow> nat option \<Rightarrow> nat option \<Rightarrow> webRTCServer_args option" where
  "webRTCServer_want c metrics pm =
     (if \<not> cf_WebRTCDisable c
      then Some \<lparr>ws_externalAuthenticationURL = cf_ExternalAuthenticationURL c, ws_address = cf_WebRTCAddress c,
        ws_encryption = cf_WebRTCEncryption c, ws_serverKey = cf_WebRTCServerKey c, ws_serverCert = cf_WebRTCServerCert c,
        ws_allowOrigin = cf_WebRTCAllowOrigin c, ws_trustedProxies = cf_WebRTCTrustedProxies c,
        ws_iceServers = cf_WebRTCICEServers c, ws_readTimeout = cf_ReadTimeout c, ws_readBufferCount = cf_ReadBufferCount c,
        ws_pathManager = pm, ws_metrics = metrics, ws_iceHostNAT1To1IPs = cf_WebRTCICEHostNAT1To1IPs c,
        ws_iceUDPMuxAddress = cf_WebRTCICEUDPMuxAddress c, ws_iceTCPMuxAddress = cf_WebRTCICETCPMuxAddress c\<rparr>
      else None)"

definition api_want :: "Core \<Rightarrow> api_args option" where
  "api_want p =
     (let c = co_conf p in
      if cf_API c
      then Some \<lparr>ap_address = cf_APIAddress c, ap_readTimeout = cf_ReadTimeout c, ap_conf = c,
        ap_pathManager = ref (co_pathManager p), ap_rtspServer = ref (co_rtspServer p),
        ap_rtspsServer = ref (co_rtspsServer p), ap_rtmpServer = ref (co_rtmpServer p),
        ap_rtmpsServer = ref (co_rtmpsServer p), ap_hlsServer = ref (co_hlsServer p),
        ap_webRTCServer = ref (co_webRTCServer p)\<rparr>
      else None)"

section \<open>createResources\<close>

definition co_emit :: "core_out \<Rightarrow> Core \<Rightarrow> Core" where
  "co_emit out p = p\<lparr>co_out := co_out p @ [out]\<rparr>"

text \<open>The logger is dereferenced: without one, this panics.\<close>

definition Core_Log :: "(Core, unit) io" where
  "Core_Log p = (if co_logger p = None then (Inl Panic, p) else (Inr (), p))"

text \<open>
  One of the blocks of \<open>createResources\<close>: nothing happens if the resource is not wanted or exists;
  otherwise its constructor is called, and its error ends the function.
\<close>

definition create ::
  "env \<Rightarrow> (Core \<Rightarrow> 'a option) \<Rightarrow> (Core \<Rightarrow> 'a inst option) \<Rightarrow> (('a inst option \<Rightarrow> 'a inst option) \<Rightarrow> Core \<Rightarrow> Core) \<Rightarrow>
   (Core, unit) io" where
  "create env want slot set_slot p =
     (case (want p, slot p) of
        (Some args, None) \<Rightarrow>
          (let n = co_next p; p = p\<lparr>co_next := n + 1\<rparr> in
           case env n of
             Some e \<Rightarrow> (Inl (Err e), p)
           | None \<Rightarrow> (Inr (), co_emit (Started n) (set_slot (\<lambda>_. Some \<lparr>in_id = n, in_args = args\<rparr>) p)))
      | _ \<Rightarrow> (Inr (), p))"

fun sequenceIO :: "('s, unit) io list \<Rightarrow> ('s, unit) io" where
  "sequenceIO [] = returnIO ()"
| "sequenceIO (m # ms) = bindIO m (\<lambda>_. sequenceIO ms)"

definition create_initial :: "bool \<Rightarrow> (Core, unit) io" where
  "create_initial initial = (if initial then bindIO Core_Log (\<lambda>_ p. (Inr (), p\<lparr>co_externalCmdPool := True\<rparr>)) else returnIO ())"

text \<open>\<open>newPathManager\<close> cannot fail.\<close>

definition create_pathManager :: "(Core, unit) io" where
  "create_pathManager =
     create (\<lambda>_. None) (\<lambda>p. pathManager_want (co_conf p) (ref (co_metrics p))) co_pathManager co_pathManager_update"

definition create_server ::
  "env \<Rightarrow> (Conf \<Rightarrow> nat option \<Rightarrow> nat option \<Rightarrow> 'a option) \<Rightarrow> (Core \<Rightarrow> 'a inst option) \<Rightarrow>
   (('a inst option \<Rightarrow> 'a inst option) \<Rightarrow> Core \<Rightarrow> Core) \<Rightarrow> (Core, unit) io" where
  "create_server env want =
     create env (\<lambda>p. want (co_conf p) (ref (co_metrics p)) (ref (co_pathManager p)))"

definition create_rest :: "env \<Rightarrow> bool \<Rightarrow> (Core, unit) io list" where
  "create_rest env initial =
     [create_initial initial,
      create env (\<lambda>p. metrics_want (co_conf p)) co_metrics co_metrics_update,
      create env (\<lambda>p. pprof_want (co_conf p)) co_pprof co_pprof_update,
      create_pathManager,
      create_server env rtspServer_want co_rtspServer co_rtspServer_update,
      create_server env rtspsServer_want co_rtspsServer co_rtspsServer_update,
      create_server env rtmpServer_want co_rtmpServer co_rtmpServer_update,
      create_server env rtmpsServer_want co_rtmpsServer co_rtmpsServer_update,
      create_server env hlsServer_want co_hlsServer co_hlsServer_update,
      create_server env webRTCServer_want co_webRTCServer co_webRTCServer_update,
      create env api_want co_api co_api_update,
      create env (\<lambda>p. if initial \<and> co_confFound p then Some () else None) co_confWatcher co_confWatcher_update]"

definition createResources :: "env \<Rightarrow> bool \<Rightarrow> (Core, unit) io" where
  "createResources env initial =
     sequenceIO (create env (\<lambda>p. logger_want (co_conf p)) co_logger co_logger_update # create_rest env initial)"

section \<open>closeResources\<close>

text \<open>Which resources a new configuration affects; with \<open>nil\<close>, all of them.\<close>

definition closeLogger :: "Conf option \<Rightarrow> Conf \<Rightarrow> bool" where
  "closeLogger newConf old =
     (case newConf of
        None \<Rightarrow> True
      | Some new \<Rightarrow> cf_LogDestinations new \<noteq> cf_LogDestinations old \<or>
          cf_LogFile new \<noteq> cf_LogFile old)"

definition closeMetrics :: "Conf option \<Rightarrow> Conf \<Rightarrow> bool" where
  "closeMetrics newConf old =
     (case newConf of
        None \<Rightarrow> True
      | Some new \<Rightarrow> cf_Metrics new \<noteq> cf_Metrics old \<or>
          cf_MetricsAddress new \<noteq> cf_MetricsAddress old \<or> cf_ReadTimeout new \<noteq> cf_ReadTimeout old)"

definition closePPROF :: "Conf option \<Rightarrow> Conf \<Rightarrow> bool" where
  "closePPROF newConf old =
     (case newConf of
        None \<Rightarrow> True
      | Some new \<Rightarrow> cf_PPROF new \<noteq> cf_PPROF old \<or>
          cf_PPROFAddress new \<noteq> cf_PPROFAddress old \<or> cf_ReadTimeout new \<noteq> cf_ReadTimeout old)"

definition closePathManager :: "Conf option \<Rightarrow> Conf \<Rightarrow> bool" where
  "closePathManager newConf old =
     (case newConf of
        None \<Rightarrow> True
      | Some new \<Rightarrow> cf_RTSPAddress new \<noteq> cf_RTSPAddress old \<or>
          cf_ReadTimeout new \<noteq> cf_ReadTimeout old \<or> cf_WriteTimeout new \<noteq> cf_WriteTimeout old \<or>
          cf_ReadBufferCount new \<noteq> cf_ReadBufferCount old \<or>
          cf_UDPMaxPayloadSize new \<noteq> cf_UDPMaxPayloadSize old \<or> closeMetrics newConf old)"

definition closeRTSPServer :: "Conf option \<Rightarrow> Conf \<Rightarrow> bool" where
  "closeRTSPServer newConf old =
     (case newConf of
        None \<Rightarrow> True
      | Some new \<Rightarrow> cf_RTSPDisable new \<noteq> cf_RTSPDisable old \<or>
          cf_Encryption new \<noteq> cf_Encryption old \<or>
          cf_ExternalAuthenticationURL new \<noteq> cf_ExternalAuthenticationURL old \<or>
          cf_RTSPAddress new \<noteq> cf_RTSPAddress old \<or> cf_AuthMethods new \<noteq> cf_AuthMethods old \<or>
          cf_ReadTimeout new \<noteq> cf_ReadTimeout old \<or> cf_WriteTimeout new \<noteq> cf_WriteTimeout old \<or>
          cf_ReadBufferCount new \<noteq> cf_ReadBufferCount old \<or> cf_Protocols new \<noteq> cf_Protocols old \<or>
          cf_RTPAddress new \<noteq> cf_RTPAddress old \<or> cf_RTCPAddress new \<noteq> cf_RTCPAddress old \<or>
          cf_MulticastIPRange new \<noteq> cf_MulticastIPRange old \<or>
          cf_MulticastRTPPort new \<noteq> cf_MulticastRTPPort old \<or>
          cf_MulticastRTCPPort new \<noteq> cf_MulticastRTCPPort old \<or>
          cf_RTSPAddress new \<noteq> cf_RTSPAddress old \<or> cf_Protocols new \<noteq> cf_Protocols old \<or>
          cf_RunOnConnect new \<noteq> cf_RunOnConnect old \<or>
          cf_RunOnConnectRestart new \<noteq> cf_RunOnConnectRestart old \<or> closeMetrics newConf old \<or>
          closePathManager newConf old)"

definition closeRTSPSServer :: "Conf option \<Rightarrow> Conf \<Rightarrow> bool" where
  "closeRTSPSServer newConf old =
     (case newConf of
        None \<Rightarrow> True
      | Some new \<Rightarrow> cf_RTSPDisable new \<noteq> cf_RTSPDisable old \<or>
          cf_Encryption new \<noteq> cf_Encryption old \<or>
          cf_ExternalAuthenticationURL new \<noteq> cf_ExternalAuthenticationURL old \<or>
          cf_RTSPSAddress new \<noteq> cf_RTSPSAddress old \<or> cf_AuthMethods new \<noteq> cf_AuthMethods old \<or>
          cf_ReadTimeout new \<noteq> cf_ReadTimeout old \<or> cf_WriteTimeout new \<noteq> cf_WriteTimeout old \<or>
          cf_ReadBufferCount new \<noteq> cf_ReadBufferCount old \<or> cf_ServerCert new \<noteq> cf_ServerCert old \<or>
          cf_ServerKey new \<noteq> cf_ServerKey old \<or> cf_RTSPAddress new \<noteq> cf_RTSPAddress old \<or>
          cf_Protocols new \<noteq> cf_Protocols old \<or> cf_RunOnConnect new \<noteq> cf_RunOnConnect old \<or>
          cf_RunOnConnectRestart new \<noteq> cf_RunOnConnectRestart old \<or> closeMetrics newConf old \<or>
          closePathManager newConf old)"

definition closeRTMPServer :: "Conf option \<Rightarrow> Conf \<Rightarrow> bool" where
  "closeRTMPServer newConf old =
     (case newConf of
        None \<Rightarrow> True
      | Some new \<Rightarrow> cf_RTMPDisable new \<noteq> cf_RTMPDisable old \<or>
          cf_RTMPEncryption new \<noteq> cf_RTMPEncryption old \<or> cf_RTMPAddress new \<noteq> cf_RTMPAddress old \<or>
          cf_ExternalAuthenticationURL new \<noteq> cf_ExternalAuthenticationURL old \<or>
          cf_ReadTimeout new \<noteq> cf_ReadTimeout old \<or> cf_WriteTimeout new \<noteq> cf_WriteTimeout old \<or>
          cf_ReadBufferCount new \<noteq> cf_ReadBufferCount old \<or> cf_RTSPAddress new \<noteq> cf_RTSPAddress old \<or>
          cf_RunOnConnect new \<noteq> cf_RunOnConnect old \<or>
          cf_RunOnConnectRestart new \<noteq> cf_RunOnConnectRestart old \<or> closeMetrics newConf old \<or>
          closePathManager newConf old)"

definition closeRTMPSServer :: "Conf option \<Rightarrow> Conf \<Rightarrow> bool" where
  "closeRTMPSServer newConf old =
     (case newConf of
        None \<Rightarrow> True
      | Some new \<Rightarrow> cf_RTMPDisable new \<noteq> cf_RTMPDisable old \<or>
          cf_RTMPEncryption new \<noteq> cf_RTMPEncryption old \<or> cf_RTMPSAddress new \<noteq> cf_RTMPSAddress old \<or>
          cf_ExternalAuthenticationURL new \<noteq> cf_ExternalAuthenticationURL old \<or>
          cf_ReadTimeout new \<noteq> cf_ReadTimeout old \<or> cf_WriteTimeout new \<noteq> cf_WriteTimeout old \<or>
          cf_ReadBufferCount new \<noteq> cf_ReadBufferCount old \<or>
          cf_RTMPServerCert new \<noteq> cf_RTMPServerCert old \<or>
          cf_RTMPServerKey new \<noteq> cf_RTMPServerKey old \<or> cf_RTSPAddress new \<noteq> cf_RTSPAddress old \<or>
          cf_RunOnConnect new \<noteq> cf_RunOnConnect old \<or>
          cf_RunOnConnectRestart new \<noteq> cf_RunOnConnectRestart old \<or> closeMetrics newConf old \<or>
          closePathManager newConf old)"

definition closeHLSServer :: "Conf option \<Rightarrow> Conf \<Rightarrow> bool" where
  "closeHLSServer newConf old =
     (case newConf of
        None \<Rightarrow> True
      | Some new \<Rightarrow> cf_HLSDisable new \<noteq> cf_HLSDisable old \<or>
          cf_HLSAddress new \<noteq> cf_HLSAddress old \<or> cf_HLSEncryption new \<noteq> cf_HLSEncryption old \<or>
          cf_HLSServerKey new \<noteq> cf_HLSServerKey old \<or> cf_HLSServerCert new \<noteq> cf_HLSServerCert old \<or>
          cf_ExternalAuthenticationURL new \<noteq> cf_ExternalAuthenticationURL old \<or>
          cf_HLSAlwaysRemux new \<noteq> cf_HLSAlwaysRemux old \<or> cf_HLSVariant new \<noteq> cf_HLSVariant old \<or>
          cf_HLSSegmentCount new \<noteq> cf_HLSSegmentCount old \<or>
          cf_HLSSegmentDuration new \<noteq> cf_HLSSegmentDuration old \<or>
          cf_HLSPartDuration new \<noteq> cf_HLSPartDuration old \<or>
          cf_HLSSegmentMaxSize new \<noteq> cf_HLSSegmentMaxSize old \<or>
          cf_HLSAllowOrigin new \<noteq> cf_HLSAllowOrigin old \<or>
          cf_HLSTrustedProxies new \<noteq> cf_HLSTrustedProxies old \<or>
          cf_HLSDirectory new \<noteq> cf_HLSDirectory old \<or> cf_ReadTimeout new \<noteq> cf_ReadTimeout old \<or>
          cf_ReadBufferCount new \<noteq> cf_ReadBufferCount old \<or> closePathManager newConf old \<or>
          closeMetrics newConf old)"

definition closeWebRTCServer :: "Conf option \<Rightarrow> Conf \<Rightarrow> bool" where
  "closeWebRTCServer newConf old =
     (case newConf of
        None \<Rightarrow> True
      | Some new \<Rightarrow> cf_WebRTCDisable new \<noteq> cf_WebRTCDisable old \<or>
          cf_ExternalAuthenticationURL new \<noteq> cf_ExternalAuthenticationURL old \<or>
          cf_WebRTCAddress new \<noteq> cf_WebRTCAddress old \<or>
          cf_WebRTCEncryption new \<noteq> cf_WebRTCEncryption old \<or>
          cf_WebRTCServerKey new \<noteq> cf_WebRTCServerKey old \<or>
          cf_WebRTCServerCert new \<noteq> cf_WebRTCServerCert old \<or>
          cf_WebRTCAllowOrigin new \<noteq> cf_WebRTCAllowOrigin old \<or>
          cf_WebRTCTrustedProxies new \<noteq> cf_WebRTCTrustedProxies old \<or>
          cf_WebRTCICEServers new \<noteq> cf_WebRTCICEServers old \<or>
          cf_ReadTimeout new \<noteq> cf_ReadTimeout old \<or> cf_ReadBufferCount new \<noteq> cf_ReadBufferCount old \<or>
          closeMetrics newConf old \<or> closePathManager newConf old \<or>
          cf_WebRTCICEHostNAT1To1IPs new \<noteq> cf_WebRTCICEHostNAT1To1IPs old \<or>
          cf_WebRTCICEUDPMuxAddress new \<noteq> cf_WebRTCICEUDPMuxAddress old \<or>
          cf_WebRTCICETCPMuxAddress new \<noteq> cf_WebRTCICETCPMuxAddress old)"

definition closeAPI :: "Conf option \<Rightarrow> Conf \<Rightarrow> bool" where
  "closeAPI newConf old =
     (case newConf of
        None \<Rightarrow> True
      | Some new \<Rightarrow> cf_API new \<noteq> cf_API old \<or> cf_APIAddress new \<noteq> cf_APIAddress old \<or>
          cf_ReadTimeout new \<noteq> cf_ReadTimeout old \<or> closePathManager newConf old \<or>
          closeRTSPServer newConf old \<or> closeRTSPSServer newConf old \<or> closeRTMPServer newConf old \<or>
          closeHLSServer newConf old \<or> closeWebRTCServer newConf old)"

text \<open>Closing one resource.\<close>

definition close_slot ::
  "bool \<Rightarrow> (Core \<Rightarrow> 'a inst option) \<Rightarrow> (('a inst option \<Rightarrow> 'a inst option) \<Rightarrow> Core \<Rightarrow> Core) \<Rightarrow> Core \<Rightarrow> Core" where
  "close_slot c slot set_slot p =
     (case slot p of
        Some i \<Rightarrow> if c then set_slot (\<lambda>_. None) (co_emit (Closed (in_id i)) p) else p
      | None \<Rightarrow> p)"

text \<open>The configuration of the paths is handed to the path manager if nothing else about it has changed.\<close>

definition reload_pathManager :: "Conf option \<Rightarrow> (Core, unit) io" where
  "reload_pathManager newConf p =
     (case newConf of
        Some new \<Rightarrow>
          if \<not> closePathManager newConf (co_conf p) \<and> set (cf_Paths new) \<noteq> set (cf_Paths (co_conf p))
          then case co_pathManager p of
                 None \<Rightarrow> (Inl Panic, p)
               | Some i \<Rightarrow> (Inr (), (co_emit (PathManagerConfReload (in_id i)) p)
                   \<lparr>co_pathManager := Some (i\<lparr>in_args := (in_args i)\<lparr>pg_pathConfs := set (cf_Paths new)\<rparr>\<rparr>)\<rparr>)
          else (Inr (), p)
      | None \<Rightarrow> (Inr (), p))"

definition close_api :: "Conf option \<Rightarrow> bool \<Rightarrow> Core \<Rightarrow> Core" where
  "close_api newConf calledByAPI p =
     (case co_api p of
        None \<Rightarrow> p
      | Some i \<Rightarrow>
          if closeAPI newConf (co_conf p) then close_slot True co_api co_api_update p
          else case newConf of
            Some new \<Rightarrow>
              if \<not> calledByAPI
              then (co_emit (APIConfReload (in_id i)) p)\<lparr>co_api := Some (i\<lparr>in_args := (in_args i)\<lparr>ap_conf := new\<rparr>\<rparr>)\<rparr>
              else p
          | None \<Rightarrow> p)"

definition close_logger :: "Conf option \<Rightarrow> (Core, unit) io" where
  "close_logger newConf p =
     (if closeLogger newConf (co_conf p)
      then if co_logger p = None then (Inl Panic, p) else (Inr (), close_slot True co_logger co_logger_update p)
      else (Inr (), p))"

definition close_servers :: "Conf option \<Rightarrow> bool \<Rightarrow> Core \<Rightarrow> Core" where
  "close_servers newConf calledByAPI p =
     (let old = co_conf p;
          p = close_slot (newConf = None) co_confWatcher co_confWatcher_update p;
          p = close_api newConf calledByAPI p;
          p = close_slot (closeRTSPSServer newConf old) co_rtspsServer co_rtspsServer_update p;
          p = close_slot (closeRTSPServer newConf old) co_rtspServer co_rtspServer_update p;
          p = close_slot (closePathManager newConf old) co_pathManager co_pathManager_update p;
          p = close_slot (closeWebRTCServer newConf old) co_webRTCServer co_webRTCServer_update p;
          p = close_slot (closeHLSServer newConf old) co_hlsServer co_hlsServer_update p;
          p = close_slot (closeRTMPSServer newConf old) co_rtmpsServer co_rtmpsServer_update p;
          p = close_slot (closeRTMPServer newConf old) co_rtmpServer co_rtmpServer_update p;
          p = close_slot (closePPROF newConf old) co_pprof co_pprof_update p in
      close_slot (closeMetrics newConf old) co_metrics co_metrics_update p)"

definition closeResources :: "Conf option \<Rightarrow> bool \<Rightarrow> (Core, unit) io" where
  "closeResources newConf calledByAPI = sequenceIO
     [reload_pathManager newConf,
      (\<lambda>p. (Inr (), close_servers newConf calledByAPI p)),
      (\<lambda>p. if newConf = None \<and> co_externalCmdPool p then Core_Log p else (Inr (), p)),
      close_logger newConf]"

section \<open>The loop\<close>

definition reloadConf :: "env \<Rightarrow> Conf \<Rightarrow> bool \<Rightarrow> (Core, unit) io" where
  "reloadConf env newConf calledByAPI =
     bindIO (closeResources (Some newConf) calledByAPI) (\<lambda>_ p. createResources env False (p\<lparr>co_conf := newConf\<rparr>))"

text \<open>The events of the loop; a change of the file comes with what \<open>conf.Load\<close> returns.\<close>

datatype core_event = ConfChanged "Conf result" | APIConfigSet Conf | Interrupt | CoreCtxDone

text \<open>A reload whose error is logged and ends the loop: the result says whether the loop goes on.\<close>

definition try_reload :: "env \<Rightarrow> Conf \<Rightarrow> bool \<Rightarrow> (Core, bool) io" where
  "try_reload env newConf calledByAPI p =
     (case reloadConf env newConf calledByAPI p of
        (Inr _, p) \<Rightarrow> (Inr True, p)
      | (Inl Panic, p) \<Rightarrow> (Inl Panic, p)
      | (Inl _, p) \<Rightarrow> bindIO Core_Log (\<lambda>_. returnIO False) p)"

fun core_select :: "env \<Rightarrow> core_event \<Rightarrow> (Core, bool) io" where
  "core_select env (ConfChanged loaded) =
     bindIO Core_Log (\<lambda>_. case loaded of
         Inl _ \<Rightarrow> bindIO Core_Log (\<lambda>_. returnIO False)
       | Inr newConf \<Rightarrow> try_reload env newConf False)"
| "core_select env (APIConfigSet newConf) = bindIO Core_Log (\<lambda>_. try_reload env newConf True)"
| "core_select env Interrupt = bindIO Core_Log (\<lambda>_. returnIO False)"
| "core_select env CoreCtxDone = returnIO False"

fun core_run :: "env \<Rightarrow> core_event list \<Rightarrow> (Core, bool) io" where
  "core_run env [] = returnIO True"
| "core_run env (ev # evs) = bindIO (core_select env ev) (\<lambda>continue.
     if continue then core_run env evs else bindIO (closeResources None False) (\<lambda>_. returnIO False))"

definition core_zero :: "Conf \<Rightarrow> bool \<Rightarrow> Core" where
  "core_zero c found =
     \<lparr>co_conf = c, co_confFound = found, co_logger = None, co_externalCmdPool = False, co_metrics = None, co_pprof = None,
      co_pathManager = None, co_rtspServer = None, co_rtspsServer = None, co_rtmpServer = None, co_rtmpsServer = None,
      co_hlsServer = None, co_webRTCServer = None, co_api = None, co_confWatcher = None, co_next = 0, co_out = []\<rparr>"

text \<open>\<open>New\<close>, after the arguments have been parsed and the file has been read; the result says whether it worked.\<close>

definition core_New :: "env \<Rightarrow> (Core, bool) io" where
  "core_New env p =
     (case createResources env True p of
        (Inr _, p) \<Rightarrow> (Inr True, p)
      | (Inl Panic, p) \<Rightarrow> (Inl Panic, p)
      | (Inl _, p) \<Rightarrow> bindIO (closeResources None False) (\<lambda>_. returnIO False) p)"

end
