(* ===== verification/CoreInv.thy ===== *)
theory CoreInv
  imports Core "HOL-Library.Multiset"
begin

text \<open>What \<open>createResources\<close> and \<open>closeResources\<close> do to the resources, and the instances that are alive.\<close>

section \<open>Instances\<close>

definition opt :: "'a inst option \<Rightarrow> nat multiset" where
  "opt x = (case x of None \<Rightarrow> {#} | Some i \<Rightarrow> {#in_id i#})"

definition live :: "Core \<Rightarrow> nat multiset" where
  "live p = opt (co_logger p) + opt (co_metrics p) + opt (co_pprof p) + opt (co_pathManager p) +
     opt (co_rtspServer p) + opt (co_rtspsServer p) + opt (co_rtmpServer p) + opt (co_rtmpsServer p) +
     opt (co_hlsServer p) + opt (co_webRTCServer p) + opt (co_api p) + opt (co_confWatcher p)"

fun started :: "core_out \<Rightarrow> nat option" where
  "started (Started n) = Some n"
| "started _ = None"

fun closed :: "core_out \<Rightarrow> nat option" where
  "closed (Closed n) = Some n"
| "closed _ = None"

definition starts :: "Core \<Rightarrow> nat list" where
  "starts p = List.map_filter started (co_out p)"

definition closes :: "Core \<Rightarrow> nat list" where
  "closes p = List.map_filter closed (co_out p)"

text \<open>Every instance has been started once; those that are not alive have been closed once.\<close>

definition balanced :: "Core \<Rightarrow> bool" where
  "balanced p \<longleftrightarrow> mset (starts p) = mset (closes p) + live p \<and> distinct (starts p) \<and> (\<forall>n \<in> set (starts p). n < co_next p)"

lemma opt_simps [simp]: "opt None = {#}" "opt (Some i) = {#in_id i#}"
  by (simp_all add: opt_def)

lemma core_emit_simps [simp]:
  "co_next (co_emit out p) = co_next p" "co_out (co_emit out p) = co_out p @ [out]" "co_conf (co_emit out p) = co_conf p"
  "live (co_emit out p) = live p"
  by (simp_all add: co_emit_def live_def)

lemma starts_emit [simp]:
  "starts (co_emit out p) = starts p @ (case started out of None \<Rightarrow> [] | Some n \<Rightarrow> [n])"
  "closes (co_emit out p) = closes p @ (case closed out of None \<Rightarrow> [] | Some n \<Rightarrow> [n])"
  by (simp_all add: starts_def closes_def map_filter_def split: option.splits)

lemma live_next [simp]: "live (p\<lparr>co_next := n\<rparr>) = live p" "live (p\<lparr>co_out := out\<rparr>) = live p"
  "live (p\<lparr>co_conf := c\<rparr>) = live p" "live (p\<lparr>co_externalCmdPool := b\<rparr>) = live p"
  by (simp_all add: live_def)

lemma starts_next [simp]: "starts (p\<lparr>co_next := n\<rparr>) = starts p" "closes (p\<lparr>co_next := n\<rparr>) = closes p"
  by (simp_all add: starts_def closes_def)

text \<open>A resource after \<open>createResources\<close>: the one that existed, or one with the arguments that are wanted.\<close>

definition filled :: "'a inst option \<Rightarrow> 'a option \<Rightarrow> 'a inst option \<Rightarrow> bool" where
  "filled s want x \<longleftrightarrow> (if s = None then map_option in_args x = want else x = s)"

lemma sequenceIO_Cons:
  "sequenceIO (m # ms) s = (Inr (), s') \<longleftrightarrow> (\<exists>s1. m s = (Inr (), s1) \<and> sequenceIO ms s1 = (Inr (), s'))"
  by (auto simp: bindIO_def split: prod.splits sum.splits)

definition close_out :: "bool \<Rightarrow> 'a inst option \<Rightarrow> core_out list" where
  "close_out c s = (case s of Some i \<Rightarrow> if c then [Closed (in_id i)] else [] | None \<Rightarrow> [])"

section \<open>A slot of the core\<close>

text \<open>A field that holds a resource: what reading and writing it have to do with each other and with the rest.\<close>

locale core_slot =
  fixes slot :: "Core \<Rightarrow> 'a inst option" and set_slot :: "('a inst option \<Rightarrow> 'a inst option) \<Rightarrow> Core \<Rightarrow> Core"
  assumes get_set: "slot (set_slot f p) = f (slot p)"
    and set_same: "set_slot (\<lambda>_. slot p) p = p"
    and set_out: "set_slot f (p\<lparr>co_out := out\<rparr>) = (set_slot f p)\<lparr>co_out := out\<rparr>"
    and set_next: "set_slot f (p\<lparr>co_next := n\<rparr>) = (set_slot f p)\<lparr>co_next := n\<rparr>"
    and others: "co_out (set_slot f p) = co_out p" "co_next (set_slot f p) = co_next p"
    and live_set: "live (set_slot (\<lambda>_. x) p) + opt (slot p) = live p + opt x"
begin

lemma create_ok:
  assumes "create env want slot set_slot p = (Inr (), p')"
  shows "\<exists>x n out. p' = (set_slot (\<lambda>_. x) p)\<lparr>co_next := n, co_out := out\<rparr> \<and> filled (slot p) (want p) x"
proof (cases "slot p = None \<and> want p \<noteq> None")
  case True
  then obtain args where a: "want p = Some args" "slot p = None" by auto
  then have "p' = (set_slot (\<lambda>_. Some \<lparr>in_id = co_next p, in_args = args\<rparr>) p)
      \<lparr>co_next := co_next p + 1, co_out := co_out p @ [Started (co_next p)]\<rparr>"
    using assms by (simp add: create_def Let_def co_emit_def set_next set_out others split: option.splits)
  with a show ?thesis by (intro exI [of _ "Some \<lparr>in_id = co_next p, in_args = args\<rparr>"]) (auto simp: filled_def)
next
  case False
  with assms have "p' = p" by (auto simp: create_def split: option.splits)
  moreover have "p = (set_slot (\<lambda>_. slot p) p)\<lparr>co_next := co_next p, co_out := co_out p\<rparr>" by (simp add: set_same)
  moreover have "filled (slot p) (want p) (slot p)" using False by (auto simp: filled_def)
  ultimately show ?thesis by metis
qed

lemma create_step:
  assumes "sequenceIO (create env want slot set_slot # ms) p = (Inr (), p')"
  obtains x n out where "filled (slot p) (want p) x"
    "sequenceIO ms ((set_slot (\<lambda>_. x) p)\<lparr>co_next := n, co_out := out\<rparr>) = (Inr (), p')"
  using assms unfolding sequenceIO_Cons by (metis create_ok)

lemma create_out: "set (co_out p) \<subseteq> set (co_out (snd (create env want slot set_slot p)))"
  by (auto simp: create_def Let_def co_emit_def others split: option.splits)

lemma create_balanced:
  assumes "balanced p"
  shows "balanced (snd (create env want slot set_slot p))"
proof (cases "slot p = None \<and> want p \<noteq> None")
  case True
  then obtain args where a: "want p = Some args" "slot p = None" by auto
  define i where "i = \<lparr>in_id = co_next p, in_args = args\<rparr>"
  define q where "q = set_slot (\<lambda>_. Some i) (p\<lparr>co_next := co_next p + 1\<rparr>)"
  have q: "live q = live p + {#co_next p#}" "co_out q = co_out p" "co_next q = co_next p + 1"
    using live_set [of "Some i" p] a(2) by (simp_all add: q_def i_def set_next others)
  have "starts q = starts p" "closes q = closes p" by (simp_all add: starts_def closes_def q)
  with q have "balanced (co_emit (Started (co_next p)) q)" using assms by (auto simp: balanced_def)
  moreover have "balanced (p\<lparr>co_next := co_next p + 1\<rparr>)" using assms by (auto simp: balanced_def)
  ultimately show ?thesis using a by (simp add: create_def Let_def q_def i_def split: option.splits)
next
  case False
  then have "snd (create env want slot set_slot p) = p" by (auto simp: create_def split: option.splits)
  with assms show ?thesis by simp
qed

lemma close_slot_eq:
  "close_slot c slot set_slot p = (set_slot (\<lambda>_. if c then None else slot p) p)\<lparr>co_out := co_out p @ close_out c (slot p)\<rparr>"
proof -
  have "(set_slot (\<lambda>_. slot p) p)\<lparr>co_out := co_out p\<rparr> = p" by (simp add: set_same)
  then show ?thesis
    by (cases "slot p") (auto simp: close_slot_def close_out_def co_emit_def set_out)
qed

lemma close_slot_balanced: "balanced p \<Longrightarrow> balanced (close_slot c slot set_slot p)"
proof (cases "slot p")
  case (Some i)
  assume b: "balanced p"
  have "live (set_slot (\<lambda>_. None) p) + {#in_id i#} = live p" using live_set [of None p] Some by simp
  then have "mset (starts p) = add_mset (in_id i) (mset (closes p) + live (set_slot (\<lambda>_. None) p))"
    using b by (metis add.right_neutral add_mset_add_single balanced_def union_assoc)
  moreover define q where "q = co_emit (Closed (in_id i)) p"
  have "live (set_slot (\<lambda>_. None) q) = live (set_slot (\<lambda>_. None) p)" by (simp add: q_def co_emit_def set_out)
  moreover have "starts (set_slot (\<lambda>_. None) q) = starts p" "closes (set_slot (\<lambda>_. None) q) = closes p @ [in_id i]"
    by (simp_all add: starts_def closes_def others q_def map_filter_def)
  ultimately show ?thesis
    using b Some by (cases c) (simp_all add: close_slot_def balanced_def q_def [symmetric] others, simp add: q_def)
qed (simp add: close_slot_def)

end

interpretation logger: core_slot co_logger co_logger_update by unfold_locales (simp_all add: live_def)
interpretation metrics: core_slot co_metrics co_metrics_update by unfold_locales (simp_all add: live_def)
interpretation pprof: core_slot co_pprof co_pprof_update by unfold_locales (simp_all add: live_def)
interpretation pathManager: core_slot co_pathManager co_pathManager_update by unfold_locales (simp_all add: live_def)
interpretation rtspServer: core_slot co_rtspServer co_rtspServer_update by unfold_locales (simp_all add: live_def)
interpretation rtspsServer: core_slot co_rtspsServer co_rtspsServer_update by unfold_locales (simp_all add: live_def)
interpretation rtmpServer: core_slot co_rtmpServer co_rtmpServer_update by unfold_locales (simp_all add: live_def)
interpretation rtmpsServer: core_slot co_rtmpsServer co_rtmpsServer_update by unfold_locales (simp_all add: live_def)
interpretation hlsServer: core_slot co_hlsServer co_hlsServer_update by unfold_locales (simp_all add: live_def)
interpretation webRTCServer: core_slot co_webRTCServer co_webRTCServer_update by unfold_locales (simp_all add: live_def)
interpretation api: core_slot co_api co_api_update by unfold_locales (simp_all add: live_def)
interpretation confWatcher: core_slot co_confWatcher co_confWatcher_update by unfold_locales (simp_all add: live_def)

lemmas create_balanced = logger.create_balanced metrics.create_balanced pprof.create_balanced pathManager.create_balanced
  rtspServer.create_balanced rtspsServer.create_balanced rtmpServer.create_balanced rtmpsServer.create_balanced
  hlsServer.create_balanced webRTCServer.create_balanced api.create_balanced confWatcher.create_balanced

lemmas create_out = logger.create_out metrics.create_out pprof.create_out pathManager.create_out
  rtspServer.create_out rtspsServer.create_out rtmpServer.create_out rtmpsServer.create_out
  hlsServer.create_out webRTCServer.create_out api.create_out confWatcher.create_out

lemmas close_slot_balanced = logger.close_slot_balanced metrics.close_slot_balanced pprof.close_slot_balanced
  pathManager.close_slot_balanced rtspServer.close_slot_balanced rtspsServer.close_slot_balanced
  rtmpServer.close_slot_balanced rtmpsServer.close_slot_balanced hlsServer.close_slot_balanced
  webRTCServer.close_slot_balanced api.close_slot_balanced confWatcher.close_slot_balanced

section \<open>createResources\<close>

lemma sequenceIO_inv:
  assumes "\<And>m s. m \<in> set ms \<Longrightarrow> P s \<Longrightarrow> P (snd (m s))" "P s"
  shows "P (snd (sequenceIO ms s))"
  using assms
proof (induction ms arbitrary: s)
  case (Cons m ms)
  obtain r s1 where m: "m s = (r, s1)" by fastforce
  have s1: "P s1" using Cons.prems(1) [of m s] Cons.prems(2) m by simp
  have "P (snd (sequenceIO ms s1))" by (rule Cons.IH [OF _ s1]) (use Cons.prems(1) in simp)
  with m s1 show ?case by (cases r) (simp_all add: bindIO_def)
qed (simp add: returnIO_def)

lemma balanced_update [simp]:
  "balanced (p\<lparr>co_externalCmdPool := b\<rparr>) = balanced p" "balanced (p\<lparr>co_conf := c\<rparr>) = balanced p"
  by (simp_all add: balanced_def starts_def closes_def)

lemma createResources_balanced: "balanced p \<Longrightarrow> balanced (snd (createResources env initial p))"
  unfolding createResources_def create_rest_def create_pathManager_def create_server_def
  by (rule sequenceIO_inv [where P = balanced])
    (auto simp: create_balanced create_initial_def Core_Log_def bindIO_def returnIO_def)

lemma createResources_out: "x \<in> set (co_out p) \<Longrightarrow> x \<in> set (co_out (snd (createResources env initial p)))"
  unfolding createResources_def create_rest_def create_pathManager_def create_server_def
  by (rule sequenceIO_inv [where P = "\<lambda>p. x \<in> set (co_out p)"])
    (auto intro: create_out [THEN subsetD] simp: create_initial_def bindIO_def Core_Log_def returnIO_def)

lemma initial_step:
  assumes "sequenceIO (create_initial initial # ms) p = (Inr (), p')"
  shows "sequenceIO ms (p\<lparr>co_externalCmdPool := initial \<or> co_externalCmdPool p\<rparr>) = (Inr (), p')"
  using assms unfolding sequenceIO_Cons
  by (auto simp: create_initial_def bindIO_def Core_Log_def returnIO_def split: if_splits)

lemmas create_steps = logger.create_step metrics.create_step pprof.create_step pathManager.create_step
  rtspServer.create_step rtspsServer.create_step rtmpServer.create_step rtmpsServer.create_step
  hlsServer.create_step webRTCServer.create_step api.create_step confWatcher.create_step

lemma createResources_all:
  "createResources env initial p = (Inr (), p') \<Longrightarrow> \<exists>c mt pg. c = co_conf p \<and> mt = ref (co_metrics p') \<and> pg = ref (co_pathManager p') \<and>
    co_conf p' = c \<and> co_externalCmdPool p' = (initial \<or> co_externalCmdPool p) \<and>
    filled (co_logger p) (logger_want c) (co_logger p') \<and> filled (co_metrics p) (metrics_want c) (co_metrics p') \<and>
    filled (co_pprof p) (pprof_want c) (co_pprof p') \<and>
    filled (co_pathManager p) (pathManager_want c mt) (co_pathManager p') \<and>
    filled (co_rtspServer p) (rtspServer_want c mt pg) (co_rtspServer p') \<and>
    filled (co_rtspsServer p) (rtspsServer_want c mt pg) (co_rtspsServer p') \<and>
    filled (co_rtmpServer p) (rtmpServer_want c mt pg) (co_rtmpServer p') \<and>
    filled (co_rtmpsServer p) (rtmpsServer_want c mt pg) (co_rtmpsServer p') \<and>
    filled (co_hlsServer p) (hlsServer_want c mt pg) (co_hlsServer p') \<and>
    filled (co_webRTCServer p) (webRTCServer_want c mt pg) (co_webRTCServer p') \<and>
    filled (co_api p) (api_want p') (co_api p')"
  unfolding createResources_def create_rest_def create_pathManager_def create_server_def
  by (elim logger.create_step, drule initial_step, elim create_steps)
    (simp add: returnIO_def api_want_def Let_def cong: if_cong, auto)

lemma createResources_ok:
  assumes "createResources env initial p = (Inr (), p')"
  defines "c \<equiv> co_conf p" and "mt \<equiv> ref (co_metrics p')" and "pg \<equiv> ref (co_pathManager p')"
  shows "co_conf p' = c" "co_externalCmdPool p' = (initial \<or> co_externalCmdPool p)"
    "filled (co_logger p) (logger_want c) (co_logger p')" "filled (co_metrics p) (metrics_want c) (co_metrics p')"
    "filled (co_pprof p) (pprof_want c) (co_pprof p')"
    "filled (co_pathManager p) (pathManager_want c mt) (co_pathManager p')"
    "filled (co_rtspServer p) (rtspServer_want c mt pg) (co_rtspServer p')"
    "filled (co_rtspsServer p) (rtspsServer_want c mt pg) (co_rtspsServer p')"
    "filled (co_rtmpServer p) (rtmpServer_want c mt pg) (co_rtmpServer p')"
    "filled (co_rtmpsServer p) (rtmpsServer_want c mt pg) (co_rtmpsServer p')"
    "filled (co_hlsServer p) (hlsServer_want c mt pg) (co_hlsServer p')"
    "filled (co_webRTCServer p) (webRTCServer_want c mt pg) (co_webRTCServer p')"
    "filled (co_api p) (api_want p') (co_api p')"
  using createResources_all [OF assms(1)] unfolding assms(2-4) by blast+

section \<open>closeResources\<close>

lemmas close_slot_eqs = logger.close_slot_eq metrics.close_slot_eq pprof.close_slot_eq pathManager.close_slot_eq
  rtspServer.close_slot_eq rtspsServer.close_slot_eq rtmpServer.close_slot_eq rtmpsServer.close_slot_eq
  hlsServer.close_slot_eq webRTCServer.close_slot_eq api.close_slot_eq confWatcher.close_slot_eq

definition api_reloaded :: "Conf option \<Rightarrow> bool \<Rightarrow> api_args inst \<Rightarrow> api_args inst" where
  "api_reloaded newConf calledByAPI i =
     (case newConf of Some new \<Rightarrow> if calledByAPI then i else i\<lparr>in_args := (in_args i)\<lparr>ap_conf := new\<rparr>\<rparr> | None \<Rightarrow> i)"

lemma close_api_eq:
  "\<exists>out. close_api newConf calledByAPI p =
     p\<lparr>co_api := (if closeAPI newConf (co_conf p) then None else map_option (api_reloaded newConf calledByAPI) (co_api p)),
       co_out := out\<rparr>"
  by (cases "co_api p")
    (auto simp: close_api_def api.close_slot_eq api_reloaded_def co_emit_def split: option.splits
      intro!: exI [of _ "co_out (close_api newConf calledByAPI p)"])

definition kept :: "bool \<Rightarrow> 'a option \<Rightarrow> 'a option" where
  "kept c s = (if c then None else s)"

lemma close_servers_eq:
  "\<exists>out. close_servers newConf calledByAPI p =
     p\<lparr>co_confWatcher := kept (newConf = None) (co_confWatcher p),
       co_api := kept (closeAPI newConf (co_conf p)) (map_option (api_reloaded newConf calledByAPI) (co_api p)),
       co_rtspsServer := kept (closeRTSPSServer newConf (co_conf p)) (co_rtspsServer p),
       co_rtspServer := kept (closeRTSPServer newConf (co_conf p)) (co_rtspServer p),
       co_pathManager := kept (closePathManager newConf (co_conf p)) (co_pathManager p),
       co_webRTCServer := kept (closeWebRTCServer newConf (co_conf p)) (co_webRTCServer p),
       co_hlsServer := kept (closeHLSServer newConf (co_conf p)) (co_hlsServer p),
       co_rtmpsServer := kept (closeRTMPSServer newConf (co_conf p)) (co_rtmpsServer p),
       co_rtmpServer := kept (closeRTMPServer newConf (co_conf p)) (co_rtmpServer p),
       co_pprof := kept (closePPROF newConf (co_conf p)) (co_pprof p),
       co_metrics := kept (closeMetrics newConf (co_conf p)) (co_metrics p), co_out := out\<rparr>"
proof -
  obtain f where a: "\<And>p. close_api newConf calledByAPI p =
      p\<lparr>co_api := kept (closeAPI newConf (co_conf p)) (map_option (api_reloaded newConf calledByAPI) (co_api p)),
        co_out := f p\<rparr>"
    using close_api_eq unfolding kept_def by metis
  show ?thesis
    by (intro exI [of _ "co_out (close_servers newConf calledByAPI p)"])
      (simp add: close_servers_def Let_def a close_slot_eqs kept_def [symmetric])
qed

lemma close_servers_rtmps:
  assumes "closeRTMPSServer newConf (co_conf p)" "co_rtmpsServer p = Some i"
  shows "Closed (in_id i) \<in> set (co_out (close_servers newConf calledByAPI p))"
proof -
  obtain f where a: "\<And>p. close_api newConf calledByAPI p =
      p\<lparr>co_api := kept (closeAPI newConf (co_conf p)) (map_option (api_reloaded newConf calledByAPI) (co_api p)),
        co_out := f p\<rparr>"
    using close_api_eq unfolding kept_def by metis
  show ?thesis using assms by (simp add: close_servers_def Let_def a close_slot_eqs close_out_def [of True])
qed

lemma close_api_balanced: "balanced p \<Longrightarrow> balanced (close_api newConf calledByAPI p)"
  using api.close_slot_balanced [of p True]
  by (auto simp: close_api_def balanced_def starts_def closes_def co_emit_def live_def map_filter_def split: option.splits)

lemma closeResources_balanced: "balanced p \<Longrightarrow> balanced (snd (closeResources newConf calledByAPI p))"
  unfolding closeResources_def
proof (rule sequenceIO_inv [where P = balanced])
  fix m s assume m: "m \<in> set [reload_pathManager newConf, \<lambda>p. (Inr (), close_servers newConf calledByAPI p),
      \<lambda>p. if newConf = None \<and> co_externalCmdPool p then Core_Log p else (Inr (), p), close_logger newConf]" and b: "balanced s"
  have "balanced (snd (reload_pathManager newConf s))"
    using b by (auto simp: reload_pathManager_def balanced_def starts_def closes_def co_emit_def live_def map_filter_def split: option.splits)
  moreover have "balanced (close_servers newConf calledByAPI s)"
    unfolding close_servers_def Let_def by (intro close_slot_balanced close_api_balanced b)
  moreover have "balanced (snd (close_logger newConf s))" using b close_slot_balanced(1) by (auto simp: close_logger_def)
  ultimately show "balanced (snd (m s))" using m b by (auto simp: Core_Log_def)
qed

end
