(* ===== verification/CoreSpec.thy ===== *)
theory CoreSpec
  imports CoreInv
begin

text \<open>The properties of the core.\<close>

section \<open>Resources that agree with the configuration\<close>

text \<open>What the API server is given, except for its copy of the configuration and its reference to the RTMPS server.\<close>

definition api_view :: "api_args \<Rightarrow> _" where
  "api_view a = (ap_address a, ap_readTimeout a, ap_pathManager a, ap_rtspServer a, ap_rtspsServer a, ap_rtmpServer a,
     ap_hlsServer a, ap_webRTCServer a)"

definition logger_view :: "logger_args \<Rightarrow> log_destination list \<times> string" where
  "logger_view a = (lg_destinations a, lg_filePath a)"

text \<open>
  The resources that run are those of the configuration, with the arguments and references of a fresh
  start, except for what the two views leave out: the log level of the logger, and the copy of the
  configuration and the reference to the RTMPS server of the API server.
\<close>

definition up_to_date :: "Core \<Rightarrow> bool" where
  "up_to_date p \<longleftrightarrow> (let c = co_conf p; mt = ref (co_metrics p); pg = ref (co_pathManager p) in
     map_option (logger_view \<circ> in_args) (co_logger p) = map_option logger_view (logger_want c) \<and>
     map_option in_args (co_metrics p) = metrics_want c \<and> map_option in_args (co_pprof p) = pprof_want c \<and>
     map_option in_args (co_pathManager p) = pathManager_want c mt \<and>
     map_option in_args (co_rtspServer p) = rtspServer_want c mt pg \<and>
     map_option in_args (co_rtspsServer p) = rtspsServer_want c mt pg \<and>
     map_option in_args (co_rtmpServer p) = rtmpServer_want c mt pg \<and>
     map_option in_args (co_rtmpsServer p) = rtmpsServer_want c mt pg \<and>
     map_option in_args (co_hlsServer p) = hlsServer_want c mt pg \<and>
     map_option in_args (co_webRTCServer p) = webRTCServer_want c mt pg \<and>
     map_option (api_view \<circ> in_args) (co_api p) = map_option api_view (api_want p))"

lemma up_to_dateD:
  assumes "up_to_date p"
  defines "c \<equiv> co_conf p" and "mt \<equiv> ref (co_metrics p)" and "pg \<equiv> ref (co_pathManager p)"
  shows "map_option (logger_view \<circ> in_args) (co_logger p) = map_option logger_view (logger_want c)"
    "map_option in_args (co_metrics p) = metrics_want c" "map_option in_args (co_pprof p) = pprof_want c"
    "map_option in_args (co_pathManager p) = pathManager_want c mt"
    "map_option in_args (co_rtspServer p) = rtspServer_want c mt pg"
    "map_option in_args (co_rtspsServer p) = rtspsServer_want c mt pg"
    "map_option in_args (co_rtmpServer p) = rtmpServer_want c mt pg"
    "map_option in_args (co_rtmpsServer p) = rtmpsServer_want c mt pg"
    "map_option in_args (co_hlsServer p) = hlsServer_want c mt pg"
    "map_option in_args (co_webRTCServer p) = webRTCServer_want c mt pg"
    "map_option (api_view \<circ> in_args) (co_api p) = map_option api_view (api_want p)"
  using assms(1) unfolding up_to_date_def Let_def assms(2-4) by blast+

text \<open>A resource that a new configuration does not affect would be created with the same arguments.\<close>

lemma same_want:
  "\<not> closeMetrics (Some new) old \<longrightarrow> metrics_want new = metrics_want old"
  "\<not> closePPROF (Some new) old \<longrightarrow> pprof_want new = pprof_want old"
  "\<not> closeRTSPServer (Some new) old \<longrightarrow> rtspServer_want new mt pg = rtspServer_want old mt pg"
  "\<not> closeRTSPSServer (Some new) old \<longrightarrow> rtspsServer_want new mt pg = rtspsServer_want old mt pg"
  "\<not> closeRTMPServer (Some new) old \<longrightarrow> rtmpServer_want new mt pg = rtmpServer_want old mt pg"
  "\<not> closeRTMPSServer (Some new) old \<longrightarrow> rtmpsServer_want new mt pg = rtmpsServer_want old mt pg"
  "\<not> closeHLSServer (Some new) old \<longrightarrow> hlsServer_want new mt pg = hlsServer_want old mt pg"
  "\<not> closeWebRTCServer (Some new) old \<longrightarrow> webRTCServer_want new mt pg = webRTCServer_want old mt pg"
  by (simp_all add: closeMetrics_def closePPROF_def closeRTSPServer_def closeRTSPSServer_def closeRTMPServer_def
      closeRTMPSServer_def closeHLSServer_def closeWebRTCServer_def metrics_want_def pprof_want_def rtspServer_want_def
      rtspsServer_want_def rtmpServer_want_def rtmpsServer_want_def hlsServer_want_def webRTCServer_want_def)

text \<open>A server is closed with the metrics and the path manager that it refers to.\<close>

lemma close_deps:
  "closeMetrics (Some new) old \<Longrightarrow> closePathManager (Some new) old"
  "closePathManager (Some new) old \<Longrightarrow> closeRTSPServer (Some new) old"
  "closePathManager (Some new) old \<Longrightarrow> closeRTSPSServer (Some new) old"
  "closePathManager (Some new) old \<Longrightarrow> closeRTMPServer (Some new) old"
  "closePathManager (Some new) old \<Longrightarrow> closeRTMPSServer (Some new) old"
  "closePathManager (Some new) old \<Longrightarrow> closeHLSServer (Some new) old"
  "closePathManager (Some new) old \<Longrightarrow> closeWebRTCServer (Some new) old"
  by (auto simp: closePathManager_def closeRTSPServer_def closeRTSPSServer_def closeRTMPServer_def closeRTMPSServer_def
      closeHLSServer_def closeWebRTCServer_def)

lemma same_server:
  assumes "\<not> closeMetrics (Some new) old \<longrightarrow> mt' = mt" "\<not> closePathManager (Some new) old \<longrightarrow> pg' = pg"
  shows "\<not> closeRTSPServer (Some new) old \<longrightarrow> rtspServer_want new mt' pg' = rtspServer_want old mt pg"
    "\<not> closeRTSPSServer (Some new) old \<longrightarrow> rtspsServer_want new mt' pg' = rtspsServer_want old mt pg"
    "\<not> closeRTMPServer (Some new) old \<longrightarrow> rtmpServer_want new mt' pg' = rtmpServer_want old mt pg"
    "\<not> closeRTMPSServer (Some new) old \<longrightarrow> rtmpsServer_want new mt' pg' = rtmpsServer_want old mt pg"
    "\<not> closeHLSServer (Some new) old \<longrightarrow> hlsServer_want new mt' pg' = hlsServer_want old mt pg"
    "\<not> closeWebRTCServer (Some new) old \<longrightarrow> webRTCServer_want new mt' pg' = webRTCServer_want old mt pg"
  using assms close_deps [of new old] same_want(3-8) [of new old mt pg] by auto

lemma close_api_deps:
  assumes "\<not> closeAPI (Some new) old"
  shows "\<not> closePathManager (Some new) old" "\<not> closeRTSPServer (Some new) old" "\<not> closeRTSPSServer (Some new) old"
    "\<not> closeRTMPServer (Some new) old" "\<not> closeHLSServer (Some new) old" "\<not> closeWebRTCServer (Some new) old"
    "cf_API new = cf_API old" "cf_APIAddress new = cf_APIAddress old" "cf_ReadTimeout new = cf_ReadTimeout old"
  using assms by (auto simp: closeAPI_def)

lemma reload_slot:
  assumes "map_option in_args s = w" "filled (kept c s) w' x" "\<not> c \<longrightarrow> w' = w"
  shows "map_option in_args x = w'" "\<not> c \<Longrightarrow> x = s"
  using assms by (auto simp: filled_def kept_def split: if_splits)

section \<open>Reload\<close>

lemma closeResources_ok:
  assumes "up_to_date p"
  shows "\<exists>q pg. closeResources (Some new) calledByAPI p = (Inr (), q) \<and> co_conf q = co_conf p \<and> co_next q = co_next p \<and>
    co_externalCmdPool q = co_externalCmdPool p \<and> co_logger q = kept (closeLogger (Some new) (co_conf p)) (co_logger p) \<and>
    co_metrics q = kept (closeMetrics (Some new) (co_conf p)) (co_metrics p) \<and>
    co_pprof q = kept (closePPROF (Some new) (co_conf p)) (co_pprof p) \<and>
    co_pathManager q = kept (closePathManager (Some new) (co_conf p)) (Some pg) \<and>
    ref (Some pg) = ref (co_pathManager p) \<and>
    (\<not> closePathManager (Some new) (co_conf p) \<longrightarrow> Some (in_args pg) = pathManager_want new (ref (co_metrics p))) \<and>
    co_rtspServer q = kept (closeRTSPServer (Some new) (co_conf p)) (co_rtspServer p) \<and>
    co_rtspsServer q = kept (closeRTSPSServer (Some new) (co_conf p)) (co_rtspsServer p) \<and>
    co_rtmpServer q = kept (closeRTMPServer (Some new) (co_conf p)) (co_rtmpServer p) \<and>
    co_rtmpsServer q = kept (closeRTMPSServer (Some new) (co_conf p)) (co_rtmpsServer p) \<and>
    co_hlsServer q = kept (closeHLSServer (Some new) (co_conf p)) (co_hlsServer p) \<and>
    co_webRTCServer q = kept (closeWebRTCServer (Some new) (co_conf p)) (co_webRTCServer p) \<and>
    co_api q = kept (closeAPI (Some new) (co_conf p)) (map_option (api_reloaded (Some new) calledByAPI) (co_api p)) \<and>
    co_confWatcher q = co_confWatcher p"
proof -
  let ?c = "co_conf p"
  obtain pm where pm: "co_pathManager p = Some pm" "Some (in_args pm) = pathManager_want ?c (ref (co_metrics p))"
    using up_to_dateD(4) [OF assms] by (auto simp: pathManager_want_def)
  obtain l where l: "co_logger p = Some l" using up_to_dateD(1) [OF assms] by (auto simp: logger_want_def)
  obtain pg out where r: "reload_pathManager (Some new) p = (Inr (), p\<lparr>co_pathManager := Some pg, co_out := out\<rparr>)"
      "in_id pg = in_id pm"
      "\<not> closePathManager (Some new) ?c \<longrightarrow> Some (in_args pg) = pathManager_want new (ref (co_metrics p))"
  proof (cases "\<not> closePathManager (Some new) ?c \<and> set (cf_Paths new) \<noteq> set (cf_Paths ?c)")
    case True
    with pm show thesis
      by (intro that [of "co_out p @ [PathManagerConfReload (in_id pm)]" "pm\<lparr>in_args := (in_args pm)\<lparr>pg_pathConfs := set (cf_Paths new)\<rparr>\<rparr>"])
        (auto simp: reload_pathManager_def co_emit_def pathManager_want_def closePathManager_def)
  next
    case False
    with pm show thesis
      by (intro that [of "co_out p" pm]) (auto simp: reload_pathManager_def pathManager_want_def closePathManager_def)
  qed
  let ?p = "p\<lparr>co_pathManager := Some pg, co_out := out\<rparr>"
  let ?q = "close_servers (Some new) calledByAPI ?p"
  have "closeResources (Some new) calledByAPI p = close_logger (Some new) ?q"
    using r(1) by (simp add: closeResources_def bindIO_def returnIO_def split: prod.splits sum.splits)
  moreover have "close_logger (Some new) ?q =
      (Inr (), ?q\<lparr>co_logger := kept (closeLogger (Some new) ?c) (co_logger p),
        co_out := co_out ?q @ close_out (closeLogger (Some new) ?c) (co_logger p)\<rparr>)"
    using close_servers_eq [of "Some new" calledByAPI ?p] l
    by (auto simp: close_logger_def logger.close_slot_eq kept_def close_out_def)
  ultimately show ?thesis
    using close_servers_eq [of "Some new" calledByAPI ?p] r(2,3) pm(1)
    by (elim exE) (auto simp: kept_def [of False] intro!: exI [of _ pg])
qed

lemma api_view_reloaded [simp]: "api_view (in_args (api_reloaded newConf b i)) = api_view (in_args i)" "in_id (api_reloaded newConf b i) = in_id i"
  by (auto simp: api_view_def api_reloaded_def split: option.splits)

lemma api_slot:
  assumes "filled (kept c (map_option (api_reloaded newConf b) s)) w x"
    and "\<not> c \<Longrightarrow> map_option (api_view \<circ> in_args) s = map_option api_view w"
  shows "map_option (api_view \<circ> in_args) x = map_option api_view w"
  using assms by (auto simp: filled_def kept_def comp_def option.map_comp split: if_splits)

lemma reload_up_to_date:
  assumes u: "up_to_date p" and r: "reloadConf env new calledByAPI p = (Inr (), p')"
  shows "up_to_date p'" "co_conf p' = new"
    "co_logger p \<noteq> None \<Longrightarrow> \<not> closeLogger (Some new) (co_conf p) \<Longrightarrow> co_logger p' = co_logger p"
    "\<not> closeAPI (Some new) (co_conf p) \<Longrightarrow> co_api p \<noteq> None \<Longrightarrow> co_api p' = map_option (api_reloaded (Some new) calledByAPI) (co_api p)"
proof -
  let ?old = "co_conf p" and ?new = "Some new"
  note d = up_to_dateD [OF u]
  obtain q pg where q: "closeResources ?new calledByAPI p = (Inr (), q)"
    and s: "co_logger q = kept (closeLogger ?new ?old) (co_logger p)" "co_metrics q = kept (closeMetrics ?new ?old) (co_metrics p)"
      "co_pprof q = kept (closePPROF ?new ?old) (co_pprof p)" "co_pathManager q = kept (closePathManager ?new ?old) (Some pg)"
      "co_rtspServer q = kept (closeRTSPServer ?new ?old) (co_rtspServer p)"
      "co_rtspsServer q = kept (closeRTSPSServer ?new ?old) (co_rtspsServer p)"
      "co_rtmpServer q = kept (closeRTMPServer ?new ?old) (co_rtmpServer p)"
      "co_rtmpsServer q = kept (closeRTMPSServer ?new ?old) (co_rtmpsServer p)"
      "co_hlsServer q = kept (closeHLSServer ?new ?old) (co_hlsServer p)"
      "co_webRTCServer q = kept (closeWebRTCServer ?new ?old) (co_webRTCServer p)"
      "co_api q = kept (closeAPI ?new ?old) (map_option (api_reloaded ?new calledByAPI) (co_api p))"
    and pg: "ref (Some pg) = ref (co_pathManager p)"
      "\<not> closePathManager ?new ?old \<Longrightarrow> Some (in_args pg) = pathManager_want new (ref (co_metrics p))"
    using closeResources_ok [OF u, of new calledByAPI] by blast
  have c: "createResources env False (q\<lparr>co_conf := new\<rparr>) = (Inr (), p')" using r q by (simp add: reloadConf_def bindIO_def)
  note f = createResources_ok [OF c, simplified, unfolded s]
  note mt = reload_slot [OF d(2) f(4) same_want(1)] and pp = reload_slot [OF d(3) f(5) same_want(2)]
  have mt': "\<not> closeMetrics ?new ?old \<longrightarrow> ref (co_metrics p') = ref (co_metrics p)" using mt(2) by auto
  have pm: "map_option in_args (co_pathManager p') = pathManager_want new (ref (co_metrics p'))"
      "\<not> closePathManager ?new ?old \<longrightarrow> ref (co_pathManager p') = ref (co_pathManager p)"
    using f(6) pg mt' close_deps(1) [of new ?old]
    by (cases "closeMetrics ?new ?old"; auto simp: filled_def kept_def split: if_splits)+
  show "co_conf p' = new" by (rule f(1))
  note rs = reload_slot [OF d(5) f(7) same_server(1) [OF mt' pm(2)]]
    and rss = reload_slot [OF d(6) f(8) same_server(2) [OF mt' pm(2)]]
    and rm = reload_slot [OF d(7) f(9) same_server(3) [OF mt' pm(2)]]
    and rms = reload_slot [OF d(8) f(10) same_server(4) [OF mt' pm(2)]]
    and hs = reload_slot [OF d(9) f(11) same_server(5) [OF mt' pm(2)]]
    and ws = reload_slot [OF d(10) f(12) same_server(6) [OF mt' pm(2)]]
  have "map_option (api_view \<circ> in_args) (co_api p') = map_option api_view (api_want p')"
  proof (rule api_slot [OF f(13)])
    assume c: "\<not> closeAPI ?new ?old"
    note n = close_api_deps [OF c]
    show "map_option (api_view \<circ> in_args) (co_api p) = map_option api_view (api_want p')"
      unfolding d(11) using n(7-9) pm(2) n(1) rs(2) [OF n(2)] rss(2) [OF n(3)] rm(2) [OF n(4)] hs(2) [OF n(5)] ws(2) [OF n(6)] f(1)
      by (simp add: api_want_def api_view_def Let_def)
  qed
  moreover have "map_option (logger_view \<circ> in_args) (co_logger p') = map_option logger_view (logger_want new)"
    using f(3) d(1) by (auto simp: filled_def kept_def logger_want_def logger_view_def closeLogger_def split: if_splits)
  ultimately show "up_to_date p'"
    unfolding up_to_date_def Let_def f(1) using mt(1) pp(1) pm(1) rs(1) rss(1) rm(1) rms(1) hs(1) ws(1) by blast
  show "co_logger p' = co_logger p" if "co_logger p \<noteq> None" "\<not> closeLogger ?new ?old"
    using f(3) that by (simp add: filled_def kept_def)
  show "co_api p' = map_option (api_reloaded ?new calledByAPI) (co_api p)" if "\<not> closeAPI ?new ?old" "co_api p \<noteq> None"
    using f(13) that by (simp add: filled_def kept_def)
qed

section \<open>The loop\<close>

fun last_conf :: "core_event list \<Rightarrow> Conf \<Rightarrow> Conf" where
  "last_conf [] c = c"
| "last_conf (ConfChanged (Inr new) # evs) c = last_conf evs new"
| "last_conf (APIConfigSet new # evs) c = last_conf evs new"
| "last_conf (_ # evs) c = last_conf evs c"

lemma up_to_date_logger: "up_to_date p \<Longrightarrow> co_logger p \<noteq> None"
  using up_to_dateD(1) by (auto simp: logger_want_def)

lemma core_Log_Some: "co_logger p \<noteq> None \<Longrightarrow> bindIO Core_Log f p = f () p"
  by (auto simp: bindIO_def Core_Log_def)

lemma try_reload_True:
  "try_reload env new b p = (Inr True, p') \<longleftrightarrow> reloadConf env new b p = (Inr (), p')"
  by (auto simp: try_reload_def bindIO_def returnIO_def Core_Log_def split: prod.splits sum.splits error.splits if_splits)

lemma core_New_up_to_date:
  assumes "core_New env (core_zero c found) = (Inr True, p)"
  shows "up_to_date p" "co_conf p = c"
proof -
  have "createResources env True (core_zero c found) = (Inr (), p)"
    using assms by (auto simp: core_New_def bindIO_def returnIO_def split: prod.splits sum.splits error.splits)
  note f = createResources_ok [OF this]
  have z: "co_conf (core_zero c found) = c" by (simp add: core_zero_def)
  have "map_option in_args (co_logger p) = logger_want c" "map_option in_args (co_metrics p) = metrics_want c"
    "map_option in_args (co_pprof p) = pprof_want c" "map_option in_args (co_api p) = api_want p"
    "map_option in_args (co_pathManager p) = pathManager_want c (ref (co_metrics p))"
    using f(3-6,13) by (simp_all add: filled_def core_zero_def)
  moreover have "map_option in_args (co_rtspServer p) = rtspServer_want c (ref (co_metrics p)) (ref (co_pathManager p))"
    "map_option in_args (co_rtspsServer p) = rtspsServer_want c (ref (co_metrics p)) (ref (co_pathManager p))"
    "map_option in_args (co_rtmpServer p) = rtmpServer_want c (ref (co_metrics p)) (ref (co_pathManager p))"
    "map_option in_args (co_rtmpsServer p) = rtmpsServer_want c (ref (co_metrics p)) (ref (co_pathManager p))"
    "map_option in_args (co_hlsServer p) = hlsServer_want c (ref (co_metrics p)) (ref (co_pathManager p))"
    "map_option in_args (co_webRTCServer p) = webRTCServer_want c (ref (co_metrics p)) (ref (co_pathManager p))"
    using f(7-12) by (simp_all add: filled_def core_zero_def)
  ultimately show "up_to_date p" unfolding up_to_date_def Let_def f(1) z by (simp flip: option.map_comp)
  show "co_conf p = c" using f(1) z by simp
qed

lemma core_run_up_to_date:
  "up_to_date p \<Longrightarrow> core_run env evs p = (Inr True, p') \<Longrightarrow> up_to_date p' \<and> co_conf p' = last_conf evs (co_conf p)"
proof (induction evs arbitrary: p)
  case (Cons ev evs)
  from Cons.prems(2) obtain p1 where s: "core_select env ev p = (Inr True, p1)" "core_run env evs p1 = (Inr True, p')"
    by (auto simp: bindIO_def returnIO_def split: prod.splits sum.splits if_splits)
  note l = core_Log_Some [OF up_to_date_logger [OF Cons.prems(1)]]
  have "up_to_date p1 \<and> last_conf evs (co_conf p1) = last_conf (ev # evs) (co_conf p)"
  proof (cases ev)
    case (ConfChanged loaded)
    with s(1) reload_up_to_date(1,2) [OF Cons.prems(1)] show ?thesis
      by (cases loaded) (auto simp: l returnIO_def try_reload_True)
  next
    case (APIConfigSet new)
    with s(1) reload_up_to_date(1,2) [OF Cons.prems(1)] show ?thesis by (auto simp: l try_reload_True)
  qed (use s(1) in \<open>simp_all add: l returnIO_def\<close>)
  with Cons.IH [of p1] s(2) show ?case by auto
qed (simp add: returnIO_def)

section \<open>Instances at the end\<close>

lemma reloadConf_balanced: "balanced p \<Longrightarrow> balanced (snd (reloadConf env new b p))"
  using closeResources_balanced [of p "Some new" b]
  by (auto simp: reloadConf_def bindIO_def createResources_balanced split: prod.splits sum.splits)

lemma core_Log_snd [simp]: "snd (Core_Log p) = p"
  by (simp add: Core_Log_def)

lemma core_select_balanced: "balanced p \<Longrightarrow> balanced (snd (core_select env ev p))"
  using reloadConf_balanced [of p env]
  by (cases ev)
    (auto simp: try_reload_def bindIO_def returnIO_def Core_Log_def split: prod.splits sum.splits error.splits if_splits,
      (metis snd_conv)+)

lemma closeResources_None:
  assumes "closeResources None b p = (Inr (), q)"
  shows "live q = {#}"
  using assms close_servers_eq [of None b p]
  by (auto simp: closeResources_def bindIO_def returnIO_def reload_pathManager_def Core_Log_def close_logger_def
      logger.close_slot_eq live_def kept_def closeLogger_def closeMetrics_def closePPROF_def closePathManager_def
      closeRTSPServer_def closeRTSPSServer_def closeRTMPServer_def closeRTMPSServer_def closeHLSServer_def
      closeWebRTCServer_def closeAPI_def split: if_splits)

definition settled :: "Core \<Rightarrow> bool" where
  "settled p \<longleftrightarrow> live p = {#} \<and> mset (starts p) = mset (closes p) \<and> distinct (starts p)"

lemma core_run_settled:
  "balanced p \<Longrightarrow> core_run env evs p = (Inr False, p') \<Longrightarrow> settled p'"
proof (induction evs arbitrary: p)
  case (Cons ev evs)
  from Cons.prems(2) obtain b p1 where s: "core_select env ev p = (Inr b, p1)"
      "b \<Longrightarrow> core_run env evs p1 = (Inr False, p')" "\<not> b \<Longrightarrow> closeResources None False p1 = (Inr (), p')"
    by (auto simp: bindIO_def returnIO_def split: prod.splits sum.splits if_splits)
  have "balanced p1" using core_select_balanced [OF Cons.prems(1), of env ev] s(1) by simp
  then show ?case
    using Cons.IH s(2,3) closeResources_None closeResources_balanced [of p1 None False]
    by (cases b) (auto simp: settled_def balanced_def)
qed (simp add: returnIO_def)

lemma core_New_balanced:
  assumes "core_New env (core_zero c found) = (Inr b, p)"
  shows "balanced p" "\<not> b \<Longrightarrow> settled p"
proof -
  let ?z = "core_zero c found"
  have "balanced ?z" by (simp add: balanced_def core_zero_def starts_def closes_def live_def map_filter_def)
  then have b: "balanced (snd (createResources env True ?z))" by (rule createResources_balanced)
  from assms consider "createResources env True ?z = (Inr (), p)" "b"
    | e q where "createResources env True ?z = (Inl e, q)" "closeResources None False q = (Inr (), p)" "\<not> b"
    by (auto simp: core_New_def bindIO_def returnIO_def split: prod.splits sum.splits error.splits)
  then have "balanced p \<and> (\<not> b \<longrightarrow> settled p)"
  proof cases
    case 1
    with b show ?thesis by simp
  next
    case (2 e q)
    then have "balanced p" using b closeResources_balanced [of q None False] by simp
    with closeResources_None [OF 2(2)] show ?thesis by (simp add: settled_def balanced_def)
  qed
  then show "balanced p" "\<not> b \<Longrightarrow> settled p" by simp_all
qed

section \<open>Panics\<close>

lemma sequenceIO_calm:
  assumes "\<And>m s. m \<in> set ms \<Longrightarrow> P s \<Longrightarrow> P (snd (m s)) \<and> fst (m s) \<noteq> Inl Panic" "P s"
  shows "fst (sequenceIO ms s) \<noteq> Inl Panic"
  using assms
proof (induction ms arbitrary: s)
  case (Cons m ms)
  obtain r s1 where m: "m s = (r, s1)" by fastforce
  have s1: "P s1" "r \<noteq> Inl Panic" using Cons.prems(1) [of m s] Cons.prems(2) m by simp_all
  have "fst (sequenceIO ms s1) \<noteq> Inl Panic" by (rule Cons.IH [OF _ s1(1)]) (use Cons.prems(1) in simp)
  with m s1 show ?case by (cases r) (simp_all add: bindIO_def)
qed (simp add: returnIO_def)

lemma create_calm: "fst (create env want slot set_slot p) \<noteq> Inl Panic"
  by (auto simp: create_def Let_def split: option.splits)

lemma create_logger [simp]:
  "co_logger (snd (create env want co_metrics co_metrics_update p)) = co_logger p"
  "co_logger (snd (create env want1 co_pprof co_pprof_update p)) = co_logger p"
  "co_logger (snd (create env want2 co_pathManager co_pathManager_update p)) = co_logger p"
  "co_logger (snd (create env want3 co_rtspServer co_rtspServer_update p)) = co_logger p"
  "co_logger (snd (create env want3 co_rtspsServer co_rtspsServer_update p)) = co_logger p"
  "co_logger (snd (create env want4 co_rtmpServer co_rtmpServer_update p)) = co_logger p"
  "co_logger (snd (create env want4 co_rtmpsServer co_rtmpsServer_update p)) = co_logger p"
  "co_logger (snd (create env want5 co_hlsServer co_hlsServer_update p)) = co_logger p"
  "co_logger (snd (create env want6 co_webRTCServer co_webRTCServer_update p)) = co_logger p"
  "co_logger (snd (create env want7 co_api co_api_update p)) = co_logger p"
  "co_logger (snd (create env want8 co_confWatcher co_confWatcher_update p)) = co_logger p"
  by (auto simp: create_def Let_def co_emit_def split: option.splits)

text \<open>Only the logger decides whether \<open>createResources\<close> is followed by a panic.\<close>

lemma createResources_logger:
  defines "P \<equiv> \<lambda>s. co_logger s \<noteq> None"
  shows "fst (createResources env False p) \<noteq> Inl Panic"
    "P (snd (createResources env False p)) \<longleftrightarrow> P p \<or> env (co_next p) = None"
proof -
  let ?l = "create env (\<lambda>p. logger_want (co_conf p)) co_logger co_logger_update"
  obtain r q where l: "?l p = (r, q)" by fastforce
  have r: "r \<noteq> Inl Panic" using create_calm [of env _ co_logger co_logger_update p] l by (metis fst_conv)
  have q: "if P p \<or> env (co_next p) = None then r = Inr () \<and> P q else (\<exists>e. r = Inl e) \<and> \<not> P q"
    using l by (auto simp: P_def create_def Let_def logger_want_def co_emit_def split: option.splits)
  have c: "createResources env False p = bindIO ?l (\<lambda>_. sequenceIO (create_rest env False)) p"
    by (simp add: createResources_def)
  have step: "P (snd (m s)) \<and> fst (m s) \<noteq> Inl Panic" if "m \<in> set (create_rest env False)" "P s" for m s
    using that unfolding create_rest_def P_def create_pathManager_def create_server_def
    by (auto simp: create_initial_def returnIO_def create_calm)
  have rest: "P (snd (sequenceIO (create_rest env False) q)) \<and> fst (sequenceIO (create_rest env False) q) \<noteq> Inl Panic"
    if "P q"
    using sequenceIO_inv [of "create_rest env False" P q] sequenceIO_calm [of "create_rest env False" P q] step that by blast
  show "fst (createResources env False p) \<noteq> Inl Panic"
    "P (snd (createResources env False p)) \<longleftrightarrow> P p \<or> env (co_next p) = None"
    using l r q rest by (auto simp: c bindIO_def split: sum.splits if_splits)
qed

lemma try_reload_panic:
  assumes "up_to_date p"
  shows "if closeLogger (Some new) (co_conf p) \<and> env (co_next p) \<noteq> None
    then fst (try_reload env new b p) = Inl Panic
    else (\<exists>c. fst (try_reload env new b p) = Inr c) \<and> co_logger (snd (try_reload env new b p)) \<noteq> None"
proof -
  obtain q where q: "closeResources (Some new) b p = (Inr (), q)" "co_next q = co_next p"
      "co_logger q = kept (closeLogger (Some new) (co_conf p)) (co_logger p)"
    using closeResources_ok [OF assms, of new b] by blast
  let ?q = "q\<lparr>co_conf := new\<rparr>"
  have r: "reloadConf env new b p = createResources env False ?q" using q(1) by (simp add: reloadConf_def bindIO_def)
  have l: "co_logger (snd (createResources env False ?q)) \<noteq> None \<longleftrightarrow>
      \<not> (closeLogger (Some new) (co_conf p) \<and> env (co_next p) \<noteq> None)"
    using createResources_logger(2) [of env ?q] q(2,3) up_to_date_logger [OF assms] by (auto simp: kept_def)
  moreover have "co_logger p' \<noteq> None" if "createResources env False ?q = (Inr (), p')" for p'
    using createResources_ok(3) [OF that] by (auto simp: filled_def logger_want_def split: if_splits)
  ultimately show ?thesis
    using createResources_logger(1) [of env ?q]
    by (auto simp: try_reload_def r bindIO_def returnIO_def Core_Log_def split: prod.splits sum.splits error.splits)
qed

lemma closeResources_calm:
  assumes "co_logger p \<noteq> None"
  shows "\<exists>q. closeResources None b p = (Inr (), q)"
  using assms close_servers_eq [of None b p]
  by (auto simp: closeResources_def bindIO_def returnIO_def reload_pathManager_def Core_Log_def close_logger_def)

lemma core_step_panic:
  assumes "up_to_date p"
  shows "fst (core_run env [ev] p) = Inl Panic \<longleftrightarrow>
    (\<exists>new. (ev = ConfChanged (Inr new) \<or> ev = APIConfigSet new) \<and> closeLogger (Some new) (co_conf p) \<and> env (co_next p) \<noteq> None)"
proof -
  note lg = up_to_date_logger [OF assms]
  note l = core_Log_Some [OF lg]
  have calm: "fst (bindIO m (\<lambda>continue. if continue then core_run env [] else bindIO (closeResources None False) (\<lambda>_. returnIO False)) p) \<noteq> Inl Panic"
    if "fst (m p) = Inr c" "co_logger (snd (m p)) \<noteq> None" for m c
    using that closeResources_calm [OF that(2), of False] by (cases "m p"; cases c) (auto simp: bindIO_def returnIO_def)
  have reload: "fst (bindIO (try_reload env new b) (\<lambda>continue. if continue then core_run env [] else bindIO (closeResources None False) (\<lambda>_. returnIO False)) p) = Inl Panic \<longleftrightarrow>
      closeLogger (Some new) (co_conf p) \<and> env (co_next p) \<noteq> None" for new b
    using try_reload_panic [OF assms, of new env b] calm [of "try_reload env new b"]
    by (cases "closeLogger (Some new) (co_conf p) \<and> env (co_next p) \<noteq> None") (auto simp: bindIO_def split: prod.splits)
  show ?thesis
  proof (cases ev)
    case (ConfChanged loaded)
    then show ?thesis
      using reload calm [of "returnIO False" False] lg
      by (cases loaded) (simp_all add: bindIO_assoc l, simp add: returnIO_def)
  next
    case (APIConfigSet new)
    then show ?thesis using reload by (simp add: bindIO_assoc l)
  next
    case Interrupt
    then show ?thesis using calm [of "returnIO False" False] lg by (simp add: bindIO_assoc l) (simp add: returnIO_def)
  next
    case CoreCtxDone
    then show ?thesis using calm [of "returnIO False" False] lg by (simp add: returnIO_def)
  qed
qed

section \<open>When nothing fails\<close>

lemma sequenceIO_ok:
  assumes "\<And>m s. m \<in> set ms \<Longrightarrow> P s \<Longrightarrow> P (snd (m s)) \<and> fst (m s) = Inr ()" "P s"
  shows "fst (sequenceIO ms s) = Inr ()"
  using assms
proof (induction ms arbitrary: s)
  case (Cons m ms)
  have s1: "P (snd (m s))" "fst (m s) = Inr ()" using Cons.prems(1) [of m s] Cons.prems(2) by simp_all
  have "fst (sequenceIO ms (snd (m s))) = Inr ()" by (rule Cons.IH [OF _ s1(1)]) (use Cons.prems(1) in simp)
  with s1(2) show ?case by (cases "m s") (simp add: bindIO_def)
qed (simp add: returnIO_def)

lemma create_nothing_fails: "fst (create (\<lambda>_. None) want slot set_slot p) = Inr ()"
  by (auto simp: create_def Let_def split: option.splits)

lemma create_rest_ok: "co_logger p \<noteq> None \<Longrightarrow> fst (sequenceIO (create_rest (\<lambda>_. None) b) p) = Inr ()"
  unfolding create_rest_def create_pathManager_def create_server_def
  by (rule sequenceIO_ok [where P = "\<lambda>p. co_logger p \<noteq> None"])
    (auto simp: create_nothing_fails create_initial_def bindIO_def Core_Log_def returnIO_def)

lemma nothing_fails: "\<exists>p'. createResources (\<lambda>_. None) b p = (Inr (), p')"
proof -
  let ?l = "create (\<lambda>_. None) (\<lambda>p. logger_want (co_conf p)) co_logger co_logger_update"
  have "?l p = (Inr (), snd (?l p))" by (simp add: prod_eq_iff create_nothing_fails)
  moreover have "co_logger (snd (?l p)) \<noteq> None"
    by (auto simp: create_def Let_def logger_want_def co_emit_def split: option.splits)
  ultimately have "fst (createResources (\<lambda>_. None) b p) = Inr ()"
    using create_rest_ok [of "snd (?l p)" b] by (simp add: createResources_def bindIO_Inr)
  then show ?thesis by (cases "createResources (\<lambda>_. None) b p") simp
qed

lemma core_New_nothing_fails: "\<exists>p. core_New (\<lambda>_. None) (core_zero c found) = (Inr True, p)"
  using nothing_fails [of True "core_zero c found"] by (auto simp: core_New_def)

lemma reload_nothing_fails: "up_to_date p \<Longrightarrow> \<exists>p'. reloadConf (\<lambda>_. None) new b p = (Inr (), p')"
  using closeResources_ok [of p new b] nothing_fails by (auto simp: reloadConf_def bindIO_def)

section \<open>Properties\<close>

text \<open>
  C2. Reloads are equivalent to a fresh start, up to three things.  After any sequence of reloads, the server runs exactly
  the resources that the last configuration asks for, each created with the arguments that a fresh
  start with this configuration would give it (for the path manager, with the paths handed over by
  \<open>confReload\<close>), and referring to the instances that run now; so a reload closes everything that the new
  configuration affects.  The three exceptions are the log level of the logger and, in the API server, the
  reference to the RTMPS server and the copy of the configuration.
\<close>

theorem reload_like_fresh_start:
  assumes "core_New env (core_zero c found) = (Inr True, p)" "core_run env evs p = (Inr True, p')"
  shows "up_to_date p' \<and> co_conf p' = last_conf evs c"
  using core_run_up_to_date [OF core_New_up_to_date(1) [OF assms(1)] assms(2)] core_New_up_to_date(2) [OF assms(1)] by simp

text \<open>
  C15. No resource leaks.  When the server has ended, after whatever reloads and however it ended (on
  request, or because a file could not be read or a resource not be created), and also when it could
  not be started, every resource that was ever started has been closed exactly once.
\<close>

theorem no_resource_leaks:
  assumes "core_New env (core_zero c found) = (Inr works, p)"
  shows "if works then \<forall>evs p'. core_run env evs p = (Inr False, p') \<longrightarrow> settled p' else settled p"
  using core_New_balanced [OF assms] core_run_settled by auto

text \<open>
  C16. The only way in which the core panics while it handles an event: the new configuration changes the
  destinations or the file of the logger, and the new logger cannot be created.  Then the logger is a
  nil pointer, and logging that very error dereferences it.
\<close>

theorem core_panics_without_logger:
  assumes "core_New env (core_zero c found) = (Inr True, p)" "core_run env evs p = (Inr True, p')"
  shows "fst (core_run env [ev] p') = Inl Panic \<longleftrightarrow>
    (\<exists>new. (ev = ConfChanged (Inr new) \<or> ev = APIConfigSet new) \<and> closeLogger (Some new) (co_conf p') \<and>
       env (co_next p') \<noteq> None)"
  using core_run_up_to_date [OF core_New_up_to_date(1) [OF assms(1)] assms(2)] core_step_panic by blast

lemma reload_like_fresh_start_sample:
  assumes "core_New (\<lambda>_. None) (core_zero c found) = (Inr True, p)"
  shows "\<exists>p'. core_run (\<lambda>_. None) [ConfChanged (Inr new)] p = (Inr True, p')"
proof -
  note u = core_New_up_to_date(1) [OF assms]
  obtain p' where "reloadConf (\<lambda>_. None) new False p = (Inr (), p')" using reload_nothing_fails [OF u] by blast
  then have "core_select (\<lambda>_. None) (ConfChanged (Inr new)) p = (Inr True, p')"
    by (simp add: core_Log_Some [OF up_to_date_logger [OF u]] try_reload_True)
  then show ?thesis by (simp add: bindIO_Inr returnIO_def del: core_select.simps)
qed

theorem reload_like_fresh_start_witness:
  "\<exists>p p'. core_New (\<lambda>_. None) (core_zero sample_conf True) = (Inr True, p) \<and>
     core_run (\<lambda>_. None) [ConfChanged (Inr (sample_conf\<lparr>cf_HLSDisable := True\<rparr>))] p = (Inr True, p') \<and>
     up_to_date p' \<and> cf_HLSDisable (co_conf p')"
proof -
  let ?new = "sample_conf\<lparr>cf_HLSDisable := True\<rparr>"
  obtain p where p: "core_New (\<lambda>_. None) (core_zero sample_conf True) = (Inr True, p)"
    using core_New_nothing_fails by blast
  obtain p' where p': "core_run (\<lambda>_. None) [ConfChanged (Inr ?new)] p = (Inr True, p')"
    using reload_like_fresh_start_sample [OF p] by blast
  have "last_conf [ConfChanged (Inr ?new)] sample_conf = ?new" by simp
  with reload_like_fresh_start [OF p p'] p p' show ?thesis by auto
qed

theorem no_resource_leaks_witness:
  "\<exists>p p'. core_New (\<lambda>_. None) (core_zero sample_conf True) = (Inr True, p) \<and>
     core_run (\<lambda>_. None) [Interrupt] p = (Inr False, p') \<and> settled p'"
proof -
  obtain p where p: "core_New (\<lambda>_. None) (core_zero sample_conf True) = (Inr True, p)"
    using core_New_nothing_fails by blast
  have l: "co_logger p \<noteq> None" by (rule up_to_date_logger [OF core_New_up_to_date(1) [OF p]])
  obtain p' where p': "core_run (\<lambda>_. None) [Interrupt] p = (Inr False, p')"
    using closeResources_calm [OF l, of False] l by (auto simp: bindIO_def returnIO_def Core_Log_def)
  with no_resource_leaks [OF p] p show ?thesis unfolding if_True by blast
qed

text \<open>A server with all listeners disabled: the logger is instance 0, the path manager instance 1.\<close>

definition quiet_conf :: Conf where
  "quiet_conf = sample_conf\<lparr>cf_RTSPDisable := True, cf_RTMPDisable := True, cf_HLSDisable := True, cf_WebRTCDisable := True, cf_API := False\<rparr>"

definition failing_logger :: env where
  "failing_logger n = (if n = 2 then Some ''permission denied'' else None)"

lemma quiet_start: "\<exists>p. core_New failing_logger (core_zero quiet_conf False) = (Inr True, p) \<and> co_next p = 2"
proof -
  have "cf_RTSPDisable quiet_conf" "cf_RTMPDisable quiet_conf" "cf_HLSDisable quiet_conf" "cf_WebRTCDisable quiet_conf"
      "\<not> cf_API quiet_conf" "\<not> cf_Metrics quiet_conf" "\<not> cf_PPROF quiet_conf"
    by (simp_all add: quiet_conf_def sample_conf_def)
  then show ?thesis
    by (simp add: core_New_def createResources_def create_rest_def create_pathManager_def create_server_def create_def
        create_initial_def core_zero_def logger_want_def metrics_want_def pprof_want_def pathManager_want_def
        rtspServer_want_def rtspsServer_want_def rtmpServer_want_def rtmpsServer_want_def hlsServer_want_def
        webRTCServer_want_def api_want_def bindIO_def returnIO_def Core_Log_def co_emit_def failing_logger_def)
qed

theorem core_panics_without_logger_witness:
  "\<exists>p. core_New failing_logger (core_zero quiet_conf False) = (Inr True, p) \<and>
     fst (core_run failing_logger [ConfChanged (Inr (quiet_conf\<lparr>cf_LogFile := ''b''\<rparr>))] p) = Inl Panic"
proof -
  obtain p where p: "core_New failing_logger (core_zero quiet_conf False) = (Inr True, p)" "co_next p = 2"
    using quiet_start by blast
  have "core_run failing_logger [] p = (Inr True, p)" by (simp add: returnIO_def)
  note iff = core_panics_without_logger [OF p(1) this]
  have "closeLogger (Some (quiet_conf\<lparr>cf_LogFile := ''b''\<rparr>)) (co_conf p)"
    using core_New_up_to_date(2) [OF p(1)] by (simp add: closeLogger_def quiet_conf_def sample_conf_def)
  moreover have "failing_logger (co_next p) \<noteq> None" using p(2) by (simp add: failing_logger_def)
  ultimately show ?thesis using iff p(1) by blast
qed

text \<open>
  C36. A changed log level is ignored: a reload that leaves the destinations and the file of the logger
  alone keeps the logger as it is, with the old level.
\<close>

theorem log_level_not_reloaded:
  assumes "core_New env (core_zero c found) = (Inr True, p)" "core_run env evs p = (Inr True, p')"
    and "reloadConf env new calledByAPI p' = (Inr (), p'')"
    and "cf_LogDestinations new = cf_LogDestinations (co_conf p')" "cf_LogFile new = cf_LogFile (co_conf p')"
  shows "co_conf p'' = new \<and> co_logger p'' = co_logger p'"
proof -
  have u: "up_to_date p'" using core_run_up_to_date [OF core_New_up_to_date(1) [OF assms(1)] assms(2)] by blast
  with reload_up_to_date(2,3) [OF u assms(3)] up_to_date_logger [OF u] assms(4,5) show ?thesis by (simp add: closeLogger_def)
qed

theorem log_level_not_reloaded_witness:
  "\<exists>p p'. reloadConf (\<lambda>_. None) (sample_conf\<lparr>cf_LogLevel := Some Debug\<rparr>) False p = (Inr (), p') \<and>
     cf_LogLevel (co_conf p') = Some Debug \<and> map_option (lg_level \<circ> in_args) (co_logger p') = Some None"
proof -
  let ?new = "sample_conf\<lparr>cf_LogLevel := Some Debug\<rparr>"
  obtain p where p: "core_New (\<lambda>_. None) (core_zero sample_conf True) = (Inr True, p)" using core_New_nothing_fails by blast
  note u = core_New_up_to_date [OF p]
  have r: "core_run (\<lambda>_. None) [] p = (Inr True, p)" by (simp add: returnIO_def)
  obtain p' where p': "reloadConf (\<lambda>_. None) ?new False p = (Inr (), p')" using reload_nothing_fails [OF u(1)] by blast
  have "createResources (\<lambda>_. None) True (core_zero sample_conf True) = (Inr (), p)"
    using p nothing_fails [of True "core_zero sample_conf True"] by (auto simp: core_New_def)
  from createResources_ok(3) [OF this] have "map_option (lg_level \<circ> in_args) (co_logger p) = Some None"
    by (auto simp: filled_def core_zero_def logger_want_def sample_conf_def)
  moreover have "cf_LogDestinations ?new = cf_LogDestinations (co_conf p)" "cf_LogFile ?new = cf_LogFile (co_conf p)"
    using u(2) by simp_all
  from log_level_not_reloaded [OF p r p' this] have "co_conf p' = ?new" "co_logger p' = co_logger p" by simp_all
  ultimately show ?thesis using p' by (intro exI [of _ p] exI [of _ p']) simp
qed

lemma core_run_balanced: "balanced p \<Longrightarrow> core_run env evs p = (Inr True, p') \<Longrightarrow> balanced p'"
proof (induction evs arbitrary: p)
  case (Cons ev evs)
  from Cons.prems(2) obtain p1 where s: "core_select env ev p = (Inr True, p1)" "core_run env evs p1 = (Inr True, p')"
    by (auto simp: bindIO_def returnIO_def split: prod.splits sum.splits if_splits)
  have "balanced p1" using core_select_balanced [OF Cons.prems(1), of env ev] s(1) by simp
  from Cons.IH [OF this s(2)] show ?case .
qed (simp add: returnIO_def)

lemma closed_not_live:
  assumes "balanced p" "Closed n \<in> set (co_out p)"
  shows "n \<notin># live p"
proof
  assume "n \<in># live p"
  moreover have "n \<in> set (closes p)" using assms(2) by (force simp: closes_def map_filter_def)
  ultimately have "count (mset (closes p)) n > 0" "count (live p) n > 0" by simp_all
  moreover have "count (mset (starts p)) n \<le> 1"
    using assms(1) unfolding balanced_def distinct_count_atmost_1 by (metis le_numeral_extra(4) zero_le_one)
  then have "count (mset (closes p)) n + count (live p) n \<le> 1" using assms(1) by (simp add: balanced_def)
  ultimately show False by linarith
qed

lemma reload_closes_rtmps:
  assumes "co_rtmpsServer p = Some s" "closeRTMPSServer (Some new) (co_conf p)" "reloadConf env new b p = (Inr (), p')"
  shows "Closed (in_id s) \<in> set (co_out p')"
proof -
  obtain q where q: "closeResources (Some new) b p = (Inr (), q)" "createResources env False (q\<lparr>co_conf := new\<rparr>) = (Inr (), p')"
    using assms(3) by (auto simp: reloadConf_def bindIO_def split: prod.splits sum.splits)
  obtain p1 where p1: "reload_pathManager (Some new) p = (Inr (), p1)" "close_logger (Some new) (close_servers (Some new) b p1) = (Inr (), q)"
    using q(1) by (auto simp: closeResources_def bindIO_def returnIO_def split: prod.splits sum.splits)
  have "co_rtmpsServer p1 = Some s" "co_conf p1 = co_conf p"
    using p1(1) assms(1) by (auto simp: reload_pathManager_def co_emit_def split: option.splits if_splits)
  then have "Closed (in_id s) \<in> set (co_out (close_servers (Some new) b p1))" using assms(2) by (simp add: close_servers_rtmps)
  then have "Closed (in_id s) \<in> set (co_out q)"
    using p1(2) by (auto simp: close_logger_def logger.close_slot_eq split: if_splits)
  with createResources_out [of _ "q\<lparr>co_conf := new\<rparr>" env False] q(2) show ?thesis by simp
qed

text \<open>
  C35. The API server keeps a closed RTMPS server.  When a reload changes nothing but the address of the
  RTMPS listener, the RTMPS server is closed and created again, but the API server is not: from then
  on it asks the closed instance, which is not the one that runs.
\<close>

theorem api_keeps_closed_rtmps:
  assumes "core_New env (core_zero c found) = (Inr True, p)" "core_run env evs p = (Inr True, p')"
    and "co_api p' = Some a" "co_rtmpsServer p' = Some s" "ap_rtmpsServer (in_args a) = Some (in_id s)"
    and "addr \<noteq> cf_RTMPSAddress (co_conf p')"
    and "reloadConf env ((co_conf p')\<lparr>cf_RTMPSAddress := addr\<rparr>) calledByAPI p' = (Inr (), p'')"
  shows "Closed (in_id s) \<in> set (co_out p'') \<and> ref (co_rtmpsServer p'') \<noteq> Some (in_id s) \<and>
    map_option (ap_rtmpsServer \<circ> in_args) (co_api p'') = Some (Some (in_id s))"
proof -
  let ?c = "co_conf p'" and ?new = "(co_conf p')\<lparr>cf_RTMPSAddress := addr\<rparr>"
  have u: "up_to_date p'" using core_run_up_to_date [OF core_New_up_to_date(1) [OF assms(1)] assms(2)] by blast
  have "balanced p''"
    using reloadConf_balanced [OF core_run_balanced [OF core_New_balanced(1) [OF assms(1)] assms(2)], of env ?new calledByAPI] assms(7)
    by simp
  moreover have closed: "Closed (in_id s) \<in> set (co_out p'')"
    by (rule reload_closes_rtmps [OF assms(4) _ assms(7)]) (use assms(6) in \<open>simp add: closeRTMPSServer_def\<close>)
  ultimately have "in_id s \<notin># live p''" by (rule closed_not_live)
  then have "ref (co_rtmpsServer p'') \<noteq> Some (in_id s)" by (auto simp: live_def)
  moreover have "\<not> closeAPI (Some ?new) ?c"
    by (simp add: closeAPI_def closePathManager_def closeMetrics_def closeRTSPServer_def closeRTSPSServer_def
        closeRTMPServer_def closeHLSServer_def closeWebRTCServer_def)
  then have "map_option (ap_rtmpsServer \<circ> in_args) (co_api p'') = Some (Some (in_id s))"
    using reload_up_to_date(4) [OF u assms(7)] assms(3,5) by (simp add: api_reloaded_def)
  ultimately show ?thesis using closed by blast
qed

definition rtmps_conf :: Conf where
  "rtmps_conf = sample_conf\<lparr>cf_RTMPEncryption := EncryptionStrict\<rparr>"

theorem api_keeps_closed_rtmps_witness:
  "\<exists>p s p'. co_rtmpsServer p = Some s \<and> reloadConf (\<lambda>_. None) (rtmps_conf\<lparr>cf_RTMPSAddress := '':1937''\<rparr>) False p = (Inr (), p') \<and>
     Closed (in_id s) \<in> set (co_out p') \<and> map_option (ap_rtmpsServer \<circ> in_args) (co_api p') = Some (Some (in_id s))"
proof -
  let ?new = "rtmps_conf\<lparr>cf_RTMPSAddress := '':1937''\<rparr>"
  have c: "\<not> cf_RTMPDisable rtmps_conf" "cf_RTMPEncryption rtmps_conf = EncryptionStrict" "cf_API rtmps_conf"
      "cf_RTMPSAddress rtmps_conf = []"
    by (simp_all add: rtmps_conf_def sample_conf_def)
  obtain p where p: "core_New (\<lambda>_. None) (core_zero rtmps_conf True) = (Inr True, p)" using core_New_nothing_fails by blast
  note u = core_New_up_to_date [OF p]
  have r: "core_run (\<lambda>_. None) [] p = (Inr True, p)" by (simp add: returnIO_def)
  obtain p' where p': "reloadConf (\<lambda>_. None) ?new False p = (Inr (), p')" using reload_nothing_fails [OF u(1)] by blast
  have "createResources (\<lambda>_. None) True (core_zero rtmps_conf True) = (Inr (), p)"
    using p nothing_fails [of True "core_zero rtmps_conf True"] by (auto simp: core_New_def)
  from createResources_ok(10,13) [OF this]
  have a: "map_option in_args (co_rtmpsServer p) \<noteq> None" "map_option in_args (co_api p) = api_want p"
    using c by (auto simp: filled_def core_zero_def rtmpsServer_want_def)
  then obtain s where s: "co_rtmpsServer p = Some s" by blast
  obtain i where i: "co_api p = Some i" "ap_rtmpsServer (in_args i) = Some (in_id s)"
    using a(2) c(3) u(2) s by (auto simp: api_want_def Let_def)
  have addr: "'':1937'' \<noteq> cf_RTMPSAddress (co_conf p)" using c(4) u(2) by simp
  from api_keeps_closed_rtmps [OF p r i(1) s i(2) addr, unfolded u(2), OF p'] s p' show ?thesis by blast
qed

end
