(* ===== verification/SourceStatic.thy ===== *)
theory SourceStatic
  imports PathSpec PathFrame
begin

text \<open>
  The static source of a path (\<open>internal/core/source_static.go\<close>): the goroutine that runs an
  implementation (RTSP, RTMP, HLS, UDP, camera), restarts it after a pause when it returns an error and
  forwards its reports to the path; and its composition with the path.  The implementations are
  clients of the network: of them, the composition knows only when their \<open>run\<close> is active and whether
  they have reported that they are ready.
\<close>

section \<open>The source\<close>

datatype impl_kind = RTSPSource | RTMPSource | HLSSource | UDPSource | RPICameraSource

text \<open>The context of the source is a nil interface until the first start.\<close>

datatype ctx = CtxNil | CtxLive | CtxCancelled

datatype ss_out =
    ImplRun PathConf
  | ImplCancel | ImplWait
  | ImplReload PathConf
  | ParentSetReady | ParentSetNotReady

record sourceStatic =
  ss_conf :: PathConf
  ss_impl :: "impl_kind option"
  ss_running :: bool
  ss_ctx :: ctx
  ss_recreating :: bool
  ss_recreateTimer :: "duration option"
  ss_out :: "ss_out list"

definition sourceStaticRetryPause :: duration where
  "sourceStaticRetryPause = 5000 * millisecond"

definition newSourceStatic :: "PathConf \<Rightarrow> sourceStatic" where
  "newSourceStatic cnf =
     (let src = pc_Source cnf in
      \<lparr>ss_conf = cnf,
       ss_impl =
         (if HasPrefix src ''rtsp://'' \<or> HasPrefix src ''rtsps://'' then Some RTSPSource
          else if HasPrefix src ''rtmp://'' \<or> HasPrefix src ''rtmps://'' then Some RTMPSource
          else if HasPrefix src ''http://'' \<or> HasPrefix src ''https://'' then Some HLSSource
          else if HasPrefix src ''udp://'' then Some UDPSource
          else if src = ''rpiCamera'' then Some RPICameraSource
          else None),
       ss_running = False, ss_ctx = CtxNil, ss_recreating = False, ss_recreateTimer = None, ss_out = []\<rparr>)"

definition ss_emit :: "ss_out \<Rightarrow> sourceStatic \<Rightarrow> sourceStatic" where
  "ss_emit out s = s\<lparr>ss_out := ss_out s @ [out]\<rparr>"

text \<open>\<open>recreate\<close> starts the implementation with the configuration of the source; a nil implementation is dereferenced.\<close>

definition recreate :: "sourceStatic \<Rightarrow> sourceStatic option" where
  "recreate s = (case ss_impl s of None \<Rightarrow> None | Some _ \<Rightarrow> Some (ss_emit (ImplRun (ss_conf s)) s))"

text \<open>\<open>start\<close>, with the beginning of \<open>run\<close>; \<open>stop\<close>, with its end.\<close>

definition ss_start :: "sourceStatic \<Rightarrow> sourceStatic option" where
  "ss_start s =
     (if ss_running s then None
      else recreate (s\<lparr>ss_running := True, ss_ctx := CtxLive, ss_recreating := False, ss_recreateTimer := None\<rparr>))"

definition ss_stop :: "sourceStatic \<Rightarrow> sourceStatic option" where
  "ss_stop s =
     (if \<not> ss_running s then None
      else let s = s\<lparr>ss_running := False, ss_ctx := CtxCancelled\<rparr> in
        Some (if ss_recreating s then s else ss_emit ImplWait (ss_emit ImplCancel s)))"

definition ss_close :: "sourceStatic \<Rightarrow> sourceStatic option" where
  "ss_close s = (if ss_running s then ss_stop s else Some s)"

datatype ss_event = ImplErr | SsReloadConf PathConf | SsSetReady | SsSetNotReady | RecreateTimer

fun ss_select :: "ss_event \<Rightarrow> sourceStatic \<Rightarrow> sourceStatic option" where
  "ss_select ImplErr s = Some ((ss_emit ImplCancel s)\<lparr>ss_recreating := True, ss_recreateTimer := Some sourceStaticRetryPause\<rparr>)"
| "ss_select (SsReloadConf newConf) s =
     (let s = s\<lparr>ss_conf := newConf\<rparr> in Some (if ss_recreating s then s else ss_emit (ImplReload newConf) s))"
| "ss_select SsSetReady s = Some (ss_emit ParentSetReady s)"
| "ss_select SsSetNotReady s = Some (ss_emit ParentSetNotReady s)"
| "ss_select RecreateTimer s = do {
     s \<leftarrow> recreate (s\<lparr>ss_recreateTimer := None\<rparr>);
     Some (s\<lparr>ss_recreating := False\<rparr>)
   }"

text \<open>\<open>reloadConf\<close> waits for the loop or for the end of the context, which it dereferences.\<close>

definition ss_reloadConf :: "PathConf \<Rightarrow> sourceStatic \<Rightarrow> sourceStatic option" where
  "ss_reloadConf newConf s =
     (case ss_ctx s of CtxNil \<Rightarrow> None | CtxLive \<Rightarrow> ss_select (SsReloadConf newConf) s | CtxCancelled \<Rightarrow> Some s)"

section \<open>The source with its path\<close>

text \<open>
  \<open>sp_ready\<close>: the implementation has reported that it is ready, the path has accepted, and it has not
  reported the contrary since.  \<open>sp_reloads\<close>: the calls \<open>go pa.source.reloadConf(newConf)\<close> that have not been
  carried out yet.
\<close>

record static_path =
  sp_path :: run_state
  sp_src :: sourceStatic
  sp_ready :: bool
  sp_reloads :: "PathConf list"

text \<open>What the path does to the source; \<open>close\<close> of the source at the end of the path is a stop.\<close>

fun sp_apply :: "path_out \<Rightarrow> static_path \<Rightarrow> static_path option" where
  "sp_apply SourceStart sp = do { s \<leftarrow> ss_start (sp_src sp); Some (sp\<lparr>sp_src := s\<rparr>) }"
| "sp_apply SourceStop sp = do { s \<leftarrow> ss_stop (sp_src sp); Some (sp\<lparr>sp_src := s, sp_ready := False\<rparr>) }"
| "sp_apply (SourceReload c) sp = Some (sp\<lparr>sp_reloads := sp_reloads sp @ [c]\<rparr>)"
| "sp_apply _ sp = Some sp"

fun sp_apply_all :: "path_out list \<Rightarrow> static_path \<Rightarrow> static_path option" where
  "sp_apply_all [] sp = Some sp"
| "sp_apply_all (out # outs) sp = do { sp \<leftarrow> sp_apply out sp; sp_apply_all outs sp }"

definition path_outs :: "run_state \<Rightarrow> run_state \<Rightarrow> path_out list" where
  "path_outs s s' = drop (length (pa_out (path_of s))) (pa_out (path_of s'))"

definition sp_path_event :: "pathlib \<Rightarrow> path_event \<Rightarrow> static_path \<Rightarrow> static_path option" where
  "sp_path_event lib ev sp = do {
     s \<leftarrow> path_step lib ev (sp_path sp);
     sp_apply_all (path_outs (sp_path sp) s) (sp\<lparr>sp_path := s\<rparr>)
   }"

datatype sp_event =
    SpPath path_event
  | SpImplSetReady int "media list" bool
  | SpImplSetNotReady
  | SpImplErr
  | SpRecreateTimer
  | SpReload nat

fun has_stream :: "run_state \<Rightarrow> bool" where
  "has_stream (Running pa) \<longleftrightarrow> pa_stream pa \<noteq> None"
| "has_stream (Stopped pa) \<longleftrightarrow> False"

fun sp_step :: "pathlib \<Rightarrow> sp_event \<Rightarrow> static_path \<Rightarrow> static_path option" where
  "sp_step lib (SpPath ev) sp = sp_path_event lib ev sp"
| "sp_step lib (SpImplSetReady now medias gen) sp = do {
     s \<leftarrow> ss_select SsSetReady (sp_src sp);
     sp \<leftarrow> sp_path_event lib (SourceStaticSetReady now medias gen) (sp\<lparr>sp_src := s\<rparr>);
     Some (sp\<lparr>sp_ready := has_stream (sp_path sp)\<rparr>)
   }"
| "sp_step lib SpImplSetNotReady sp = do {
     s \<leftarrow> ss_select SsSetNotReady (sp_src sp);
     sp_path_event lib SourceStaticSetNotReady (sp\<lparr>sp_src := s, sp_ready := False\<rparr>)
   }"
| "sp_step lib SpImplErr sp = do { s \<leftarrow> ss_select ImplErr (sp_src sp); Some (sp\<lparr>sp_src := s\<rparr>) }"
| "sp_step lib SpRecreateTimer sp = do { s \<leftarrow> ss_select RecreateTimer (sp_src sp); Some (sp\<lparr>sp_src := s\<rparr>) }"
| "sp_step lib (SpReload k) sp = do {
     s \<leftarrow> ss_reloadConf (sp_reloads sp ! k) (sp_src sp);
     Some (sp\<lparr>sp_src := s, sp_reloads := take k (sp_reloads sp) @ drop (Suc k) (sp_reloads sp)\<rparr>)
   }"

text \<open>
  What can happen.  An implementation reports only while its \<open>run\<close> is active, first that it is ready
  and then that it is not, and it returns only when it is not ready (\<open>run\<close> of all the implementations
  defers \<open>sourceStaticImplSetNotReady\<close> after a successful \<open>sourceStaticImplSetReady\<close>).
\<close>

fun source_event :: "path_event \<Rightarrow> bool" where
  "source_event (SourceStaticSetReady _ _ _) = True"
| "source_event SourceStaticSetNotReady = True"
| "source_event _ = False"

definition impl_active :: "sourceStatic \<Rightarrow> bool" where
  "impl_active s \<longleftrightarrow> ss_running s \<and> \<not> ss_recreating s"

fun sp_enabled :: "sp_event \<Rightarrow> static_path \<Rightarrow> bool" where
  "sp_enabled (SpPath ev) sp \<longleftrightarrow> \<not> source_event ev \<and> event_enabled ev (sp_path sp)"
| "sp_enabled (SpImplSetReady now medias gen) sp \<longleftrightarrow> impl_active (sp_src sp) \<and> \<not> sp_ready sp"
| "sp_enabled SpImplSetNotReady sp \<longleftrightarrow> impl_active (sp_src sp) \<and> sp_ready sp"
| "sp_enabled SpImplErr sp \<longleftrightarrow> impl_active (sp_src sp) \<and> \<not> sp_ready sp"
| "sp_enabled SpRecreateTimer sp \<longleftrightarrow> ss_running (sp_src sp) \<and> ss_recreateTimer (sp_src sp) \<noteq> None"
| "sp_enabled (SpReload k) sp \<longleftrightarrow> k < length (sp_reloads sp)"

text \<open>A path with a static source, at its creation.\<close>

definition new_static_path ::
  "pathlib \<Rightarrow> string \<Rightarrow> int \<Rightarrow> string \<Rightarrow> PathConf \<Rightarrow> string \<Rightarrow> string list \<Rightarrow> static_path option" where
  "new_static_path lib rtsp sz confName cnf name matches = do {
     pa \<leftarrow> path_init lib (newPath rtsp sz confName cnf name matches);
     sp_apply_all (pa_out pa) \<lparr>sp_path = Running pa, sp_src = newSourceStatic cnf, sp_ready = False, sp_reloads = []\<rparr>
   }"

end
