(* ===== verification/SourceStaticInv.thy ===== *)
theory SourceStaticInv
  imports SourceStatic
begin

text \<open>The invariant of a path together with its static source.\<close>

section \<open>The source follows the path\<close>

definition src_inv :: "static_path \<Rightarrow> bool" where
  "src_inv sp \<longleftrightarrow> ss_impl (sp_src sp) \<noteq> None \<and> (ss_running (sp_src sp) \<longleftrightarrow> ss_ctx (sp_src sp) = CtxLive) \<and>
     (ss_running (sp_src sp) \<longrightarrow> (ss_recreating (sp_src sp) \<longleftrightarrow> ss_recreateTimer (sp_src sp) \<noteq> None)) \<and>
     (sp_ready sp \<longrightarrow> impl_active (sp_src sp))"

lemma sp_apply_ok:
  assumes "src_inv sp" "switch source_on source_off [out] (ss_running (sp_src sp)) = Some b"
  shows "\<exists>sp'. sp_apply out sp = Some sp' \<and> src_inv sp' \<and> ss_running (sp_src sp') = b \<and> sp_path sp' = sp_path sp \<and>
    sp_ready sp' = (sp_ready sp \<and> out \<noteq> SourceStop) \<and> (\<not> ss_recreating (sp_src sp) \<longrightarrow> \<not> ss_recreating (sp_src sp'))"
  using assms
  by (cases out)
    (auto simp: src_inv_def impl_active_def ss_start_def ss_stop_def recreate_def ss_emit_def Let_def split: if_splits)

lemma sp_apply_all_ok:
  assumes "src_inv sp" "switch source_on source_off outs (ss_running (sp_src sp)) = Some b"
  shows "\<exists>sp'. sp_apply_all outs sp = Some sp' \<and> src_inv sp' \<and> ss_running (sp_src sp') = b \<and> sp_path sp' = sp_path sp \<and>
    sp_ready sp' = (sp_ready sp \<and> SourceStop \<notin> set outs) \<and>
    (\<not> ss_recreating (sp_src sp) \<longrightarrow> \<not> ss_recreating (sp_src sp'))"
  using assms
proof (induction outs arbitrary: sp)
  case (Cons out outs)
  have "switch source_on source_off ([out] @ outs) (ss_running (sp_src sp)) = Some b" using Cons.prems(2) by simp
  then obtain b1 where b1: "switch source_on source_off [out] (ss_running (sp_src sp)) = Some b1"
      "switch source_on source_off outs b1 = Some b"
    unfolding switch_append by (auto simp: bind_eq_Some_conv)
  obtain sp1 where "sp_apply out sp = Some sp1" "src_inv sp1" "ss_running (sp_src sp1) = b1" "sp_path sp1 = sp_path sp"
      "sp_ready sp1 = (sp_ready sp \<and> out \<noteq> SourceStop)" "\<not> ss_recreating (sp_src sp) \<longrightarrow> \<not> ss_recreating (sp_src sp1)"
    using sp_apply_ok [OF Cons.prems(1) b1(1)] by blast
  with Cons.IH [of sp1] b1(2) show ?case by (auto simp del: sp_apply.simps)
qed simp

section \<open>What the path does with a static source\<close>

abbreviation source_runs :: "path \<Rightarrow> bool" where
  "source_runs pa \<equiv> pa_source pa = Some (SourceStatic True)"

lemma static_not_other:
  assumes "HasStaticSource c"
  shows "pc_Source c \<noteq> ''publisher''" "pc_Source c \<noteq> ''redirect''"
  using assms by (auto simp: HasStaticSource_def)

lemma static_cases:
  assumes "path_inv pa" "HasStaticSource (pa_conf pa)"
  obtains (on_demand) "pc_SourceOnDemand (pa_conf pa)" "static_inv pa"
    | (always) "\<not> pc_SourceOnDemand (pa_conf pa)" "source_runs pa"
proof -
  note n = static_not_other [OF assms(2)]
  have "\<not> HasOnDemandPublisher (pa_conf pa)" using path_inv_base [OF assms(1)] n(1) by (auto simp: base_inv_def pathconf_valid_def)
  with assms n that show thesis
    by (auto simp: path_inv_def HasOnDemandStaticSource_def plain_source_def split: if_splits)
qed

lemma static_no_publisher:
  assumes "path_inv pa" "HasStaticSource (pa_conf pa)"
  shows "pa_source pa \<noteq> Some (SourcePublisher author)" "pa_source pa \<noteq> Some SourceRedirect" "pa_source pa \<noteq> None"
    "\<not> HasOnDemandPublisher (pa_conf pa)"
proof -
  have "\<exists>r. pa_source pa = Some (SourceStatic r)" by (rule static_cases [OF assms]) (auto simp: static_inv_def)
  then show "pa_source pa \<noteq> Some (SourcePublisher author)" "pa_source pa \<noteq> Some SourceRedirect" "pa_source pa \<noteq> None" by auto
  show "\<not> HasOnDemandPublisher (pa_conf pa)"
    using path_inv_base [OF assms(1)] static_not_other(1) [OF assms(2)] by (simp add: base_inv_def pathconf_valid_def)
qed

text \<open>While the source runs, only the source itself changes whether there is a stream.\<close>

definition calm :: "path \<Rightarrow> path \<Rightarrow> bool" where
  "calm pa pa' \<longleftrightarrow> (source_runs pa' \<longrightarrow> (pa_stream pa' = None) = (pa_stream pa = None) \<and>
     SourceStop \<notin> set (drop (length (pa_out pa)) (pa_out pa')))"

lemma static_calm:
  assumes i: "path_inv pa" "HasStaticSource (pa_conf pa)" and e: "path_enabled ev pa" "\<not> source_event ev"
    and s: "path_select lib ev pa = Some (pa', c)"
  shows "calm pa pa'"
proof -
  note n = static_no_publisher [OF i]
  have idle: "pa_onDemandPublisherReadyTimer pa = None" "pa_onDemandPublisherCloseTimer pa = None"
    using i(1) n(4) by (auto simp: path_inv_def publisher_idle_def split: if_splits)
  show ?thesis
  proof (cases ev)
    case (Describe req)
    with s n show ?thesis
      by (auto simp: calm_def handleDescribe_def check_close_def onDemandStaticSourceStart_def sourceStatic_start_def
          hold_describe_def emit_def split: bind_splits option.splits source.splits if_splits)
  next
    case (PathReaderAdd req)
    with s n show ?thesis
      by (auto simp: calm_def handleReaderAdd_def handleReaderAddPost_def check_close_def onDemandStaticSourceStart_def
          sourceStatic_start_def hold_reader_def keep_open_def emit_def Let_def split: bind_splits option.splits source.splits if_splits)
  next
    case (PathReaderRemove req r)
    with s show ?thesis
      by (auto simp: calm_def handleReaderRemove_def doReaderRemove_def check_close_def go_on_def emit_def Let_def
          onDemandStaticSourceScheduleClose_def onDemandPublisherScheduleClose_def split: if_splits)
  next
    case StaticSourceReadyTimer
    with s show ?thesis 
      by (auto simp: calm_def Let_def check_close_def onDemandStaticSourceStop_def sourceStatic_stop_def split: bind_splits option.splits source.splits if_splits)
  next
    case StaticSourceCloseTimer
    with s show ?thesis 
      by (auto simp: calm_def Let_def check_close_def onDemandStaticSourceStop_def sourceStatic_stop_def split: bind_splits option.splits source.splits if_splits)
  next
    case PublisherReadyTimer
    with e(1) idle show ?thesis by simp
  next
    case PublisherCloseTimer
    with e(1) idle show ?thesis by simp
  qed (use s e(2) n i(2) in \<open>auto simp: calm_def go_on_def check_close_def reload_conf_def handlePublisherAdd_def handlePublisherStart_def
       handlePublisherStop_def handlePublisherRemove_def handleAPIPathsList_def emit_def static_not_other [OF i(2)] split: bind_splits option.splits source.splits if_splits\<close>)
qed

lemma static_conf_kept:
  assumes "path_enabled ev pa" "path_select lib ev pa = Some (pa', c)" "HasStaticSource (pa_conf pa)"
  shows "HasStaticSource (pa_conf pa')"
proof (cases "\<exists>cnf. ev = ReloadConf cnf")
  case True
  with reload_conf_frame [of lib _ pa pa' c] assms show ?thesis by (auto simp: conf_compatible_def HasStaticSource_def)
next
  case False
  with path_select_frame [OF assms(2)] assms(3) show ?thesis by (simp add: frame_def)
qed

lemma static_no_stream: "path_inv pa \<Longrightarrow> HasStaticSource (pa_conf pa) \<Longrightarrow> \<not> source_runs pa \<Longrightarrow> pa_stream pa = None"
  by (erule (1) static_cases) (auto simp: static_inv_def)

section \<open>The invariant\<close>

definition sp_inv :: "static_path \<Rightarrow> bool" where
  "sp_inv sp \<longleftrightarrow> life_inv (sp_path sp) \<and> src_inv sp \<and>
     (case sp_path sp of
        Running pa \<Rightarrow> HasStaticSource (pa_conf pa) \<and> (ss_running (sp_src sp) \<longleftrightarrow> source_runs pa) \<and>
          (sp_ready sp \<longleftrightarrow> pa_stream pa \<noteq> None)
      | Stopped pa \<Rightarrow> \<not> ss_running (sp_src sp))"

definition src_on :: "run_state \<Rightarrow> bool" where
  "src_on s = (case s of Running pa \<Rightarrow> source_runs pa | Stopped pa \<Rightarrow> False)"

lemma life_switch: "life_inv s \<Longrightarrow> switch source_on source_off (pa_out (path_of s)) False = Some (src_on s)"
  by (cases s) (auto simp: books_def all_off_def src_on_def)

lemma select_extends:
  assumes "path_select lib ev pa = Some (pa', c)"
  shows "\<exists>outs. pa_out pa' = pa_out pa @ outs"
proof (cases "\<exists>cnf. ev = ReloadConf cnf")
  case True
  with assms reload_conf_frame show ?thesis by blast
next
  case False
  with path_select_frame [OF assms] show ?thesis by (simp add: frame_def)
qed

lemma step_extends:
  assumes "life_inv s" "event_enabled ev s" "path_step lib ev s = Some s'"
  shows "pa_out (path_of s') = pa_out (path_of s) @ path_outs s s'"
    "switch source_on source_off (path_outs s s') (src_on s) = Some (src_on s')"
proof -
  show e: "pa_out (path_of s') = pa_out (path_of s) @ path_outs s s'"
  proof (cases s)
    case (Running pa)
    obtain pa1 c where p: "path_select lib ev pa = Some (pa1, c)" "path_inv pa1"
      using path_select_inv [of pa ev lib] assms(1,2) Running by auto
    obtain o1 where "pa_out pa1 = pa_out pa @ o1" using select_extends [OF p(1)] by blast
    with Running p(1) path_exit_eq [OF p(2)] assms(3) show ?thesis by (cases c) (auto simp: path_outs_def simp del: path_select.simps)
  next
    case (Stopped pa)
    with assms(3) show ?thesis by (cases ev) (auto simp: path_outs_def)
  qed
  have "life_inv s'" by (rule path_life.step_inv [OF assms])
  from life_switch [OF this] show "switch source_on source_off (path_outs s s') (src_on s) = Some (src_on s')"
    unfolding e switch_append life_switch [OF assms(1)] by simp
qed

text \<open>One event of the path: the source is switched as the path says, and is ready only if it was.\<close>

lemma sp_path_event_ok:
  assumes "life_inv (sp_path sp)" "src_inv sp" "ss_running (sp_src sp) = src_on (sp_path sp)" "event_enabled ev (sp_path sp)"
  shows "\<exists>sp'. sp_path_event lib ev sp = Some sp' \<and> path_step lib ev (sp_path sp) = Some (sp_path sp') \<and>
    life_inv (sp_path sp') \<and> src_inv sp' \<and> ss_running (sp_src sp') = src_on (sp_path sp') \<and>
    sp_ready sp' = (sp_ready sp \<and> SourceStop \<notin> set (path_outs (sp_path sp) (sp_path sp'))) \<and>
    (\<not> ss_recreating (sp_src sp) \<longrightarrow> \<not> ss_recreating (sp_src sp'))"
proof -
  obtain s' where s': "path_step lib ev (sp_path sp) = Some s'" "life_inv s'" using path_step_settles [OF assms(1,4)] by blast
  have "src_inv (sp\<lparr>sp_path := s'\<rparr>)" using assms(2) by (simp add: src_inv_def)
  from sp_apply_all_ok [OF this, of "path_outs (sp_path sp) s'" "src_on s'"] step_extends(2) [OF assms(1,4) s'(1)] assms(3) s'
  show ?thesis by (auto simp: sp_path_event_def)
qed

lemma sp_inv_parts:
  assumes "sp_inv sp"
  shows "life_inv (sp_path sp)" "src_inv sp" "ss_running (sp_src sp) = src_on (sp_path sp)"
  using assms by (auto simp: sp_inv_def src_on_def split: run_state.splits)

lemma sp_invI:
  assumes "life_inv (sp_path sp)" "src_inv sp" "ss_running (sp_src sp) = src_on (sp_path sp)"
    "\<And>pa. sp_path sp = Running pa \<Longrightarrow> HasStaticSource (pa_conf pa) \<and> (source_runs pa \<longrightarrow> (sp_ready sp \<longleftrightarrow> pa_stream pa \<noteq> None))"
  shows "sp_inv sp"
proof (cases "sp_path sp")
  case (Running pa)
  with assms static_no_stream [of pa] show ?thesis
    by (cases "source_runs pa") (auto simp: sp_inv_def src_on_def src_inv_def impl_active_def)
next
  case (Stopped pa)
  with assms show ?thesis by (simp add: sp_inv_def src_on_def)
qed

lemma path_step_running:
  assumes "path_step lib ev s = Some (Running pa')"
  shows "\<exists>pa. s = Running pa \<and> path_select lib ev pa = Some (pa', True)"
  using assms by (cases s) (auto split: bind_splits if_splits simp del: path_select.simps)

lemma path_step_runs:
  "path_step lib ev s = Some s' \<Longrightarrow> s = Running pa \<Longrightarrow> s' = Running pa' \<Longrightarrow> path_select lib ev pa = Some (pa', True)"
  using path_step_running by blast

lemma sp_path_event_inv:
  assumes i: "sp_inv sp" and e: "event_enabled ev (sp_path sp)" "\<not> source_event ev"
  shows "\<exists>sp'. sp_path_event lib ev sp = Some sp' \<and> sp_inv sp'"
proof -
  obtain sp' where sp': "sp_path_event lib ev sp = Some sp'" "path_step lib ev (sp_path sp) = Some (sp_path sp')"
      "life_inv (sp_path sp')" "src_inv sp'" "ss_running (sp_src sp') = src_on (sp_path sp')"
      "sp_ready sp' = (sp_ready sp \<and> SourceStop \<notin> set (path_outs (sp_path sp) (sp_path sp')))"
    using sp_path_event_ok [OF sp_inv_parts [OF i] e(1)] by blast
  have "sp_inv sp'"
  proof (rule sp_invI [OF sp'(3-5)])
    fix pa'
    assume r: "sp_path sp' = Running pa'"
    obtain pa where s: "sp_path sp = Running pa" "path_select lib ev pa = Some (pa', True)"
      using path_step_running sp'(2) r by metis
    have pa: "path_inv pa" "HasStaticSource (pa_conf pa)" "sp_ready sp \<longleftrightarrow> pa_stream pa \<noteq> None" "path_enabled ev pa"
      using i s(1) e(1) by (simp_all add: sp_inv_def)
    from static_conf_kept [OF pa(4) s(2) pa(2)] static_calm [OF pa(1,2,4) e(2) s(2)] sp'(6) pa(3)
    show "HasStaticSource (pa_conf pa') \<and> (source_runs pa' \<longrightarrow> (sp_ready sp' \<longleftrightarrow> pa_stream pa' \<noteq> None))"
      by (simp add: calm_def path_outs_def s(1) r)
  qed
  with sp'(1) show ?thesis by blast
qed

text \<open>The reports of the source are events that can happen in the path.\<close>

lemma source_event_enabled:
  assumes "sp_inv sp" "impl_active (sp_src sp)"
  shows "\<exists>pa. sp_path sp = Running pa \<and> source_runs pa \<and> (sp_ready sp \<longleftrightarrow> pa_stream pa \<noteq> None)"
  using assms by (auto simp: sp_inv_def impl_active_def split: run_state.splits)

lemma not_ready_no_stream:
  assumes "path_select lib SourceStaticSetNotReady pa = Some (pa', c)"
  shows "pa_stream pa' = None"
  using assms
  by (auto simp: set_not_ready_def check_close_def onDemandStaticSourceStop_def sourceStatic_stop_def sourceSetNotReady_eq
      emit_def Let_def split: bind_splits option.splits source.splits if_splits)

lemma sp_inv_emit [simp]: "sp_inv (sp\<lparr>sp_src := ss_emit out (sp_src sp)\<rparr>) = sp_inv sp"
  by (cases "sp_path sp") (simp_all add: sp_inv_def src_inv_def impl_active_def ss_emit_def)

lemma sp_inv_reloads [simp]: "sp_inv (sp\<lparr>sp_reloads := rs\<rparr>) = sp_inv sp"
  by (cases "sp_path sp") (simp_all add: sp_inv_def src_inv_def)

lemma sp_set_ready_inv:
  assumes i: "sp_inv sp" and e: "impl_active (sp_src sp)" "\<not> sp_ready sp"
  shows "\<exists>sp'. sp_step lib (SpImplSetReady now medias gen) sp = Some sp' \<and> sp_inv sp'"
proof -
  let ?ev = "SourceStaticSetReady now medias gen" and ?sp = "sp\<lparr>sp_src := ss_emit ParentSetReady (sp_src sp)\<rparr>"
  obtain pa where pa: "sp_path sp = Running pa" "source_runs pa" "pa_stream pa = None" "HasStaticSource (pa_conf pa)"
    using source_event_enabled [OF i e(1)] e(2) i by (auto simp: sp_inv_def)
  have "sp_inv ?sp" using i by simp
  then obtain sp' where sp': "sp_path_event lib ?ev ?sp = Some sp'" "path_step lib ?ev (sp_path sp) = Some (sp_path sp')"
      "life_inv (sp_path sp')" "src_inv sp'" "ss_running (sp_src sp') = src_on (sp_path sp')"
      "\<not> ss_recreating (sp_src sp')"
    using sp_path_event_ok [OF sp_inv_parts, of ?sp ?ev lib] pa e(1) by (auto simp: impl_active_def ss_emit_def)
  have src: "src_inv (sp'\<lparr>sp_ready := has_stream (sp_path sp')\<rparr>)"
  proof (cases "sp_path sp'")
    case (Running pa')
    note p = path_step_runs [OF sp'(2) pa(1) this]
    have "HasStaticSource (pa_conf pa')" using static_conf_kept [OF _ p pa(4)] pa by simp
    then have "source_runs pa'" if "pa_stream pa' \<noteq> None" using static_no_stream [of pa'] sp'(3) Running that by auto
    with sp'(4-6) Running show ?thesis by (auto simp: src_inv_def impl_active_def src_on_def)
  next
    case (Stopped pa')
    with sp'(4) show ?thesis by (simp add: src_inv_def)
  qed
  have "sp_inv (sp'\<lparr>sp_ready := has_stream (sp_path sp')\<rparr>)"
  proof (rule sp_invI [OF _ src])
    fix pa'
    assume "sp_path (sp'\<lparr>sp_ready := has_stream (sp_path sp')\<rparr>) = Running pa'"
    then have r: "sp_path sp' = Running pa'" by simp
    note p = path_step_runs [OF sp'(2) pa(1) this]
    show "HasStaticSource (pa_conf pa') \<and> (source_runs pa' \<longrightarrow>
        (sp_ready (sp'\<lparr>sp_ready := has_stream (sp_path sp')\<rparr>) \<longleftrightarrow> pa_stream pa' \<noteq> None))"
      using static_conf_kept [OF _ p pa(4)] pa r by simp
  qed (use sp' in simp_all)
  with sp'(1) show ?thesis by simp
qed

lemma sp_set_not_ready_inv:
  assumes i: "sp_inv sp" and e: "impl_active (sp_src sp)" "sp_ready sp"
  shows "\<exists>sp'. sp_step lib SpImplSetNotReady sp = Some sp' \<and> sp_inv sp'"
proof -
  let ?sp = "sp\<lparr>sp_src := ss_emit ParentSetNotReady (sp_src sp), sp_ready := False\<rparr>"
  obtain pa where pa: "sp_path sp = Running pa" "source_runs pa" "pa_stream pa \<noteq> None" "HasStaticSource (pa_conf pa)"
    using source_event_enabled [OF i e(1)] e(2) i by (auto simp: sp_inv_def)
  have "life_inv (sp_path ?sp)" "src_inv ?sp" "ss_running (sp_src ?sp) = src_on (sp_path ?sp)"
    using sp_inv_parts [OF i] by (simp_all add: src_inv_def ss_emit_def impl_active_def)
  from sp_path_event_ok [OF this, of SourceStaticSetNotReady lib] pa
  obtain sp' where sp': "sp_path_event lib SourceStaticSetNotReady ?sp = Some sp'"
      "path_step lib SourceStaticSetNotReady (sp_path sp) = Some (sp_path sp')"
      "life_inv (sp_path sp')" "src_inv sp'" "ss_running (sp_src sp') = src_on (sp_path sp')" "\<not> sp_ready sp'"
    by auto
  have "sp_inv sp'"
  proof (rule sp_invI [OF sp'(3-5)])
    fix pa'
    assume r: "sp_path sp' = Running pa'"
    note p = path_step_runs [OF sp'(2) pa(1) this]
    show "HasStaticSource (pa_conf pa') \<and> (source_runs pa' \<longrightarrow> (sp_ready sp' \<longleftrightarrow> pa_stream pa' \<noteq> None))"
      using static_conf_kept [OF _ p pa(4)] not_ready_no_stream [OF p] pa sp'(6) by simp
  qed
  with sp'(1) show ?thesis by simp
qed

text \<open>The other events change only the source.\<close>

lemma sp_inv_src:
  assumes "sp_inv sp" "ss_running s = ss_running (sp_src sp)" "src_inv (sp\<lparr>sp_src := s\<rparr>)"
  shows "sp_inv (sp\<lparr>sp_src := s, sp_reloads := rs\<rparr>)" "sp_inv (sp\<lparr>sp_src := s\<rparr>)"
  using assms by (cases "sp_path sp"; simp add: sp_inv_def src_inv_def)+

fun reload_safe :: "sp_event \<Rightarrow> static_path \<Rightarrow> bool" where
  "reload_safe (SpReload k) sp \<longleftrightarrow> ss_ctx (sp_src sp) \<noteq> CtxNil"
| "reload_safe _ sp \<longleftrightarrow> True"

lemma sp_step_inv:
  assumes i: "sp_inv sp" and e: "sp_enabled e sp" "reload_safe e sp"
  shows "\<exists>sp'. sp_step lib e sp = Some sp' \<and> sp_inv sp'"
proof (cases e)
  case (SpPath ev)
  with sp_path_event_inv [OF i] e show ?thesis by simp
next
  case (SpImplSetReady now medias gen)
  with sp_set_ready_inv [OF i] e show ?thesis by simp
next
  case SpImplSetNotReady
  with sp_set_not_ready_inv [OF i] e show ?thesis by simp
next
  case SpImplErr
  with i e sp_inv_parts [OF i] show ?thesis
    by (auto simp: src_inv_def impl_active_def ss_emit_def intro!: sp_inv_src)
next
  case SpRecreateTimer
  with i e sp_inv_parts [OF i] show ?thesis
    by (auto simp: src_inv_def impl_active_def ss_emit_def recreate_def intro!: sp_inv_src)
next
  case (SpReload k)
  with i e sp_inv_parts [OF i] show ?thesis
    by (cases "ss_ctx (sp_src sp)")
      (auto simp: src_inv_def impl_active_def ss_emit_def ss_reloadConf_def Let_def intro!: sp_inv_src)
qed

interpretation static_machine: machine "\<lambda>e sp. sp_enabled e sp \<and> reload_safe e sp" "sp_step lib" sp_inv for lib
  by unfold_locales (use sp_step_inv in blast)

section \<open>The beginning\<close>

lemma newSourceStatic_impl: "HasStaticSource cnf \<Longrightarrow> ss_impl (newSourceStatic cnf) \<noteq> None"
  by (auto simp: newSourceStatic_def HasStaticSource_def Let_def)

lemma new_static_path_inv:
  assumes "pathconf_valid cnf" "HasStaticSource cnf"
  shows "\<exists>sp. new_static_path lib rtsp sz confName cnf name matches = Some sp \<and> sp_inv sp \<and>
    (ss_ctx (sp_src sp) = CtxNil \<longrightarrow> pc_SourceOnDemand cnf)"
proof -
  obtain pa where pa: "path_init lib (newPath rtsp sz confName cnf name matches) = Some pa" "life_inv (Running pa)"
    using path_init_life [OF assms(1)] by blast
  have p: "pa_conf pa = cnf" "pa_stream pa = None" "source_runs pa \<longleftrightarrow> \<not> pc_SourceOnDemand cnf"
    using pa(1) assms(2) static_not_other [OF assms(2)]
    by (auto simp: path_init_def newPath_def sourceStatic_start_def emit_def Let_def split: if_splits)
  let ?sp = "\<lparr>sp_path = Running pa, sp_src = newSourceStatic cnf, sp_ready = False, sp_reloads = []\<rparr>"
  have "src_inv ?sp" using newSourceStatic_impl [OF assms(2)] by (simp add: src_inv_def) (simp add: newSourceStatic_def Let_def)
  moreover have "\<not> ss_running (newSourceStatic cnf)" by (simp add: newSourceStatic_def Let_def)
  ultimately obtain sp where sp: "sp_apply_all (pa_out pa) ?sp = Some sp" "src_inv sp" "ss_running (sp_src sp) = src_on (Running pa)"
      "sp_path sp = Running pa" "\<not> sp_ready sp"
    using sp_apply_all_ok [of ?sp "pa_out pa" "src_on (Running pa)"] life_switch [OF pa(2)] by auto
  have "sp_inv sp" by (rule sp_invI) (use sp pa(2) p assms(2) in simp_all)
  moreover have "ss_ctx (sp_src sp) = CtxNil \<longrightarrow> pc_SourceOnDemand cnf" using sp(2,3) p(3) by (auto simp: src_inv_def src_on_def)
  ultimately show ?thesis using pa(1) sp(1) by (simp add: new_static_path_def)
qed

lemma sp_apply_ctx: "sp_apply out sp = Some sp' \<Longrightarrow> ss_ctx (sp_src sp) \<noteq> CtxNil \<Longrightarrow> ss_ctx (sp_src sp') \<noteq> CtxNil"
  by (cases out) (auto simp: ss_start_def ss_stop_def recreate_def ss_emit_def Let_def split: bind_splits if_splits option.splits)

lemma sp_apply_all_ctx: "sp_apply_all outs sp = Some sp' \<Longrightarrow> ss_ctx (sp_src sp) \<noteq> CtxNil \<Longrightarrow> ss_ctx (sp_src sp') \<noteq> CtxNil"
  by (induction outs arbitrary: sp) (auto simp: sp_apply_ctx split: bind_splits simp del: sp_apply.simps)

lemma ss_select_ctx: "ss_select e s = Some s' \<Longrightarrow> ss_ctx s' = ss_ctx s"
  by (cases e) (auto simp: ss_emit_def recreate_def Let_def split: bind_splits option.splits)

lemma sp_step_ctx:
  assumes "sp_step lib e sp = Some sp'" "ss_ctx (sp_src sp) \<noteq> CtxNil"
  shows "ss_ctx (sp_src sp') \<noteq> CtxNil"
  using assms
  by (cases e)
    (auto simp: sp_path_event_def ss_reloadConf_def sp_apply_all_ctx ss_select_ctx split: bind_splits ctx.splits simp del: ss_select.simps
      dest!: sp_apply_all_ctx ss_select_ctx)

end
