(* ===== verification/SourceStaticSpec.thy ===== *)
theory SourceStaticSpec
  imports SourceStaticInv
begin

text \<open>What a path and its static source promise each other, and where the reload of the configuration breaks it.\<close>

section \<open>Runs\<close>

definition follows_path :: "static_path \<Rightarrow> bool" where
  "follows_path sp \<longleftrightarrow>
     (case sp_path sp of
        Running pa \<Rightarrow> path_inv pa \<and> (ss_running (sp_src sp) \<longleftrightarrow> pa_source pa = Some (SourceStatic True)) \<and>
          (sp_ready sp \<longleftrightarrow> pa_stream pa \<noteq> None)
      | Stopped pa \<Rightarrow> \<not> ss_running (sp_src sp))"

lemma sp_inv_follows: "sp_inv sp \<Longrightarrow> follows_path sp"
  by (cases "sp_path sp") (simp_all add: sp_inv_def follows_path_def)

definition nil_reload :: "pathlib \<Rightarrow> sp_event list \<Rightarrow> static_path \<Rightarrow> bool" where
  "nil_reload lib es sp \<longleftrightarrow>
     (\<exists>es1 k es2 sp1. es = es1 @ SpReload k # es2 \<and> run (sp_step lib) es1 sp = Some sp1 \<and> ss_ctx (sp_src sp1) = CtxNil)"

lemma nil_reload_Cons: "sp_step lib e sp = Some sp1 \<Longrightarrow> nil_reload lib es sp1 \<Longrightarrow> nil_reload lib (e # es) sp"
  unfolding nil_reload_def by (metis append_Cons bind.bind_lunit run.simps(2))

lemma static_run:
  assumes "sp_inv sp" "feasible sp_enabled (sp_step lib) es sp"
  shows "case run (sp_step lib) es sp of
      None \<Rightarrow> ss_ctx (sp_src sp) = CtxNil \<and> nil_reload lib es sp
    | Some sp' \<Rightarrow> sp_inv sp'"
  using assms
proof (induction es arbitrary: sp)
  case (Cons e es)
  show ?case
  proof (cases "reload_safe e sp")
    case True
    with Cons.prems sp_step_inv [of sp e lib] obtain sp1 where sp1: "sp_step lib e sp = Some sp1" "sp_inv sp1" by auto
    with Cons.prems Cons.IH [of sp1] sp_step_ctx [OF sp1(1)] nil_reload_Cons [OF sp1(1)] show ?thesis
      by (auto split: option.splits)
  next
    case False
    then obtain k where e: "e = SpReload k" "ss_ctx (sp_src sp) = CtxNil" by (cases e) auto
    then have "nil_reload lib (e # es) sp" unfolding nil_reload_def by (metis append_Nil run.simps(1))
    with e show ?thesis by (simp add: ss_reloadConf_def)
  qed
qed simp

section \<open>A path with a source on demand\<close>

definition static_sample :: PathConf where
  "static_sample = zero_PathConf
     \<lparr>pc_Source := ''udp://h'', pc_SourceOnDemand := True, pc_SourceOnDemandStartTimeout := 10,
      pc_SourceOnDemandCloseAfter := 10, pc_RunOnDemandStartTimeout := 10, pc_RunOnDemandCloseAfter := 10\<rparr>"

definition static_path0 :: static_path where
  "static_path0 =
     \<lparr>sp_path = Running ((newPath '':8554'' 1472 ''cam'' static_sample ''cam'' [])\<lparr>pa_source := Some (SourceStatic False)\<rparr>),
      sp_src = newSourceStatic static_sample, sp_ready = False, sp_reloads = []\<rparr>"

lemma static_sample_simps:
  "HasStaticSource static_sample" "pc_SourceOnDemand static_sample" "HasOnDemandStaticSource static_sample"
  "pathconf_valid static_sample" "pc_Source static_sample = ''udp://h''" "pc_RunOnInit static_sample = ''''"
  "pc_Regexp static_sample = None" "\<not> HasOnDemandPublisher static_sample" "pc_Fallback static_sample = ''''"
  by (simp_all add: static_sample_def zero_PathConf_def HasStaticSource_def HasOnDemandStaticSource_def HasOnDemandPublisher_def
      pathconf_valid_def)

lemma static_path0_new:
  "new_static_path lib '':8554'' 1472 ''cam'' static_sample ''cam'' [] = Some static_path0"
  by (simp add: new_static_path_def path_init_def newPath_def static_sample_simps static_path0_def)

abbreviation static_events :: "sp_event list" where
  "static_events \<equiv> [SpPath (Describe sample_describe), SpPath (ReloadConf static_sample), SpPath StaticSourceReadyTimer]"

text \<open>Someone asks for the path, its configuration is reloaded, the source does not become ready in time.\<close>

definition static_path1 :: static_path where
  "static_path1 =
     \<lparr>sp_path = Running ((newPath '':8554'' 1472 ''cam'' static_sample ''cam'' [])
        \<lparr>pa_source := Some (SourceStatic False),
         pa_out := [SourceStart, SourceReload static_sample, DescribeRes 7 (Inl (timed_out sample_path)), SourceStop]\<rparr>),
      sp_src = (newSourceStatic static_sample)
        \<lparr>ss_ctx := CtxCancelled, ss_out := [ImplRun static_sample, ImplCancel, ImplWait]\<rparr>,
      sp_ready = False, sp_reloads = [static_sample]\<rparr>"

lemma static_steps:
  "feasible sp_enabled (sp_step plain_pathlib) static_events static_path0"
  "run (sp_step plain_pathlib) static_events static_path0 = Some static_path1"
  by (simp_all add: static_path0_def static_path1_def newPath_def sp_path_event_def handleDescribe_def static_sample_simps
      onDemandStaticSourceStart_def sourceStatic_start_def hold_describe_def emit_def check_close_def shouldClose_def path_outs_def
      ss_start_def recreate_def newSourceStatic_def ss_emit_def conf_compatible_def reload_conf_def go_on_def
      onDemandStaticSourceStop_def sourceStatic_stop_def fail_on_hold_eq ss_stop_def sample_describe_def Let_def timed_out_def sample_path_def)

section \<open>Claims\<close>

text \<open>
  C3. A path and its static source stay in agreement.  Whatever the requests, the reports of the
  implementation, the errors, the timers and the reloads, no \<open>start\<close> or \<open>stop\<close> panics: the source runs
  exactly when the path thinks it does, the path has a stream exactly when the implementation is
  ready, and when the path has ended the source does not run.  The only way to a panic is a reload
  that reaches a source on demand before its first start.
\<close>

theorem static_source_follows_path:
  assumes "pathconf_valid cnf" "HasStaticSource cnf" "new_static_path lib rtsp sz confName cnf name matches = Some sp"
    and "feasible sp_enabled (sp_step lib) es sp"
  shows "case run (sp_step lib) es sp of
      None \<Rightarrow> pc_SourceOnDemand cnf \<and> nil_reload lib es sp
    | Some sp' \<Rightarrow> follows_path sp'"
proof -
  have "sp_inv sp" "ss_ctx (sp_src sp) = CtxNil \<longrightarrow> pc_SourceOnDemand cnf"
    using new_static_path_inv [OF assms(1,2), of lib rtsp sz confName name matches] assms(3) by auto
  with static_run [OF _ assms(4)] sp_inv_follows show ?thesis by (auto split: option.splits)
qed

theorem static_source_follows_path_witness:
  "feasible sp_enabled (sp_step plain_pathlib) static_events static_path0 \<and>
   run (sp_step plain_pathlib) static_events static_path0 = Some static_path1 \<and> follows_path static_path1"
  using static_source_follows_path [OF static_sample_simps(4,1) static_path0_new static_steps(1)] static_steps by simp

text \<open>
  C37. The reload of an idle source.  If the configuration of a path with a source on demand is
  reloaded before anyone has asked for the path, the goroutine that forwards the reload dereferences
  the nil context of the source: the process panics.
\<close>

theorem reload_before_start_panics:
  assumes "pathconf_valid cnf" "HasStaticSource cnf" "pc_SourceOnDemand cnf" "conf_compatible cnf newConf"
    and "new_static_path lib rtsp sz confName cnf name matches = Some sp"
  shows "feasible sp_enabled (sp_step lib) [SpPath (ReloadConf newConf), SpReload 0] sp \<and>
    run (sp_step lib) [SpPath (ReloadConf newConf), SpReload 0] sp = None"
  using assms(5) static_not_other [OF assms(2)] assms(2-4)
  by (auto simp: new_static_path_def path_init_def newPath_def Let_def sp_path_event_def reload_conf_def emit_def go_on_def
      path_outs_def ss_reloadConf_def newSourceStatic_def split: if_splits)

theorem reload_before_start_panics_witness:
  "run (sp_step plain_pathlib) [SpPath (ReloadConf static_sample), SpReload 0] static_path0 = None"
  by (rule reload_before_start_panics [OF static_sample_simps(4,1,2) _ static_path0_new, THEN conjunct2])
    (simp add: conf_compatible_def static_sample_simps)

text \<open>
  C38. The reload of a stopped source is lost.  When the source of a path has been stopped, a reload
  leaves it as it is, and its next start runs the implementation with the old configuration.
\<close>

theorem stopped_source_misses_reload:
  assumes "pathconf_valid cnf" "HasStaticSource cnf" "new_static_path lib rtsp sz confName cnf name matches = Some sp"
    and "feasible sp_enabled (sp_step lib) es sp" "run (sp_step lib) es sp = Some sp1"
    and "\<not> ss_running (sp_src sp1)" "ss_ctx (sp_src sp1) \<noteq> CtxNil"
  shows "\<exists>sp2 s. sp_step lib (SpReload k) sp1 = Some sp2 \<and> sp_src sp2 = sp_src sp1 \<and>
    ss_start (sp_src sp2) = Some s \<and> ss_out s = ss_out (sp_src sp1) @ [ImplRun (ss_conf (sp_src sp1))]"
proof -
  have "sp_inv sp" using new_static_path_inv [OF assms(1,2), of lib rtsp sz confName name matches] assms(3) by auto
  with static_run [OF _ assms(4)] assms(5) have "src_inv sp1" using sp_inv_parts(2) by auto
  with assms(6,7) show ?thesis
    by (cases "ss_ctx (sp_src sp1)") (auto simp: src_inv_def ss_reloadConf_def ss_start_def recreate_def ss_emit_def)
qed

theorem stopped_source_misses_reload_witness:
  "\<exists>sp2 s. sp_step plain_pathlib (SpReload 0) static_path1 = Some sp2 \<and> sp_src sp2 = sp_src static_path1 \<and>
    ss_start (sp_src sp2) = Some s \<and> ss_out s = ss_out (sp_src static_path1) @ [ImplRun (ss_conf (sp_src static_path1))]"
  by (rule stopped_source_misses_reload [OF static_sample_simps(4,1) static_path0_new static_steps])
    (simp_all add: static_path1_def newSourceStatic_def Let_def)

end
