(* ===== verification/Spec2Isabelle.thy ===== *)
theory Spec2Isabelle
  imports ConnLoops ServerSpec CoreSpec SourceStaticSpec
begin

text \<open>
  A verification development for MediaMTX, a media server and proxy written in Go.

  \<^bold>\<open>The program.\<close>  Publishers and sources deliver media streams to paths, readers get them from paths.
  A core (\<open>internal/core/core.go\<close>) creates the servers of the protocols, the path manager and the
  auxiliary resources, and recreates what a new configuration requires.  The path manager
  (\<open>path_manager.go\<close>) owns the table of paths, finds and creates the path of a request and checks its
  credentials.  A path (\<open>path.go\<close>) is a goroutine with a state of its own: a source or a publisher, a
  stream, readers, requests on hold, timers and external commands.  A static source
  (\<open>source_static.go\<close>) runs the client of another server on behalf of a path.  A stream (\<open>stream*.go\<close>)
  hands the units of a format through its processor (\<open>internal/formatprocessor\<close>) to the readers.  The
  RTMP protocol (\<open>internal/rtmp\<close>) is part of the repository: byte counters, chunks, raw messages,
  messages, handshake, connection.

  \<^bold>\<open>Conventions.\<close>  \<open>Mtx_Prelude\<close> has the machine integers, the errors and the threading of state and
  errors (\<open>('s, 'a) io\<close>); a run-time panic of Go is the error \<open>Panic\<close>, or \<open>None\<close> where an operation
  returns no error.  Where the bytes of a peer decide whether an index or a slice is in range, it is an
  operation of its own (\<open>idx\<close>, \<open>slice_range\<close>, \<open>slice_from\<close>) that panics out of range.  A goroutine is a function that handles one event of its \<open>select\<close>, together with a
  predicate that says which events can happen; what it sends to others is a list of outputs.  Sending
  and receiving on a channel is one event.  \<open>Machine\<close> has the locales that turn facts about one event
  into facts about sequences of events.  Third-party code (the AMF0 encoding, RTP encoders and
  decoders, URLs, regular expressions, the keyed hash) is a record of functions or a function that the
  definitions take as a parameter; a property that relies on it says on what.

  \<^bold>\<open>RTMP.\<close>
  \<^item> \<open>ByteStream\<close>: the connection, \<open>bytecounter\<close>, \<open>io.ReadFull\<close>, \<open>bufio\<close>; the contracts of readers and
    writers are the locales \<open>io_reader\<close> and \<open>io_writer\<close>, interpreted on the counting and the buffered
    streams.
  \<^item> \<open>Chunk\<close>, \<open>RawReader\<close>, \<open>RawWriter\<close>: \<open>chunk\<close> and \<open>rawmessage\<close>.  \<open>RawRoundtrip\<close> and \<open>RawStream\<close> show that
    a reader gets what a writer was given, over any segmentation and interleaving, that no input makes
    the reader panic, that the chunk loop of the writer ends, and where reader and writer disagree.
  \<^item> \<open>Flvio\<close>, \<open>Message\<close>, \<open>MessageCodec\<close>, \<open>MessageRW\<close>, \<open>MessageStream\<close>: \<open>message\<close>, every kind with \<open>Marshal\<close>
    and \<open>Unmarshal\<close>, and the reader, writer and pair; round trips of messages and of sequences of
    messages, absence of panics, the answer to a ping.
  \<^item> \<open>Handshake\<close>, \<open>HandshakeSpec\<close>: \<open>handshake\<close>.  Both sides complete the handshake with each other, and
    neither can be made to panic.
  \<^item> \<open>Duplex\<close>: a small calculus for conversations over a connection with two directions, with rules
    for \<open>does\<close> (consumes this, writes that, succeeds) and \<open>waits\<close> (has written this and asks for more);
    the locale is interpreted on the counting streams and on an ideal connection of messages.
  \<^item> \<open>Conn\<close>, \<open>ConnSpec\<close>, \<open>ConnLoops\<close>: \<open>conn.go\<close>.  Client and server agree on URL and direction in three
    rounds; the loops end.

  \<^bold>\<open>Configuration.\<close>  \<open>PathConf\<close>, \<open>ConfTypes\<close>, \<open>Conf\<close>: the structs of \<open>internal/conf\<close>, the checks and
  defaults of a file (\<open>CheckAndFillMissing\<close>), the names of the enumerations.  A checked configuration
  is valid, checking it again changes nothing, names are read back as they were printed.

  \<^bold>\<open>Media.\<close>  \<open>Formats\<close>, \<open>H26x\<close>: the nine processors.  \<open>Stream\<close>: creation, readers, units.  Packets fit the
  configured size, a removed reader gets nothing, parameter sets are inserted and extracted.

  \<^bold>\<open>Paths.\<close>
  \<^item> \<open>Path\<close>: the state of a path, every handler and helper of \<open>path.go\<close>, the loop, its end, and calls
    after the end.  \<open>PathOps\<close>, \<open>PathInv\<close>: the invariant.  \<open>PathTrace\<close>: the accounting of requests and of
    what is switched on and off.  \<open>PathSpec\<close>: a path never panics, answers every request exactly once,
    answers requests on hold at the latest when the timer fires, stops what it starts.
  \<^item> \<open>PathManager\<close>, \<open>PathManagerInv\<close>, \<open>PathManagerSpec\<close>: the table and its index, access, reload.  Who
    gets access (\<open>valid_name\<close>, \<open>conf_applies\<close>, \<open>refused_with\<close>) and which changes of a configuration a path
    survives (\<open>camera_tuned\<close>) are specified without the functions of the manager.
  \<^item> \<open>PathFrame\<close>, \<open>Server\<close>, \<open>ServerInv\<close>, \<open>ServerSpec\<close>: the path manager composed with its paths, the
    messages between them and the reloads that are still to be delivered, in every order.  A step of
    a path includes what the manager does on its report; the end of a path and its removal from the
    table are thus one step, while in the code a request may meet the path in between and gets the
    error \<open>terminated\<close>.
  \<^item> \<open>SourceStatic\<close>, \<open>SourceStaticInv\<close>, \<open>SourceStaticSpec\<close>: the static source and its composition with
    the path, which discharges what \<open>Path\<close> supposes of the reports of a source.  The reload of a source
    before its first start, which panics, is part of this composition and not of \<open>Server\<close>.

  \<^bold>\<open>Core.\<close>  \<open>Core\<close>, \<open>CoreInv\<close>, \<open>CoreSpec\<close>: the resources are the arguments of their constructors; whether a
  creation fails is a parameter.  The locale \<open>core_slot\<close> has what is common to the twelve resources.
  A reload leads to the state of a fresh start except for the log level and, in the API server, the
  reference to the RTMPS server and the copy of the configuration; nothing leaks; the exceptions and
  the reloads that panic are shown.

  \<^bold>\<open>Bounds.\<close>  The loop of \<open>io.ReadFull\<close> has as fuel the number of bytes to be read, since every read
  delivers at least one; the chunk loop of the writer has as fuel a number that \<open>writeMessage_fuel\<close>
  shows to be enough; the loops for commands have as fuel the number of pending bytes, which
  \<open>initialization_ends\<close> shows to be enough.  The other loops are functions with a termination proof.
  In \<open>sessions_agree\<close> the connection is one of messages; that messages arrive as they were sent is
  \<open>message_stream_roundtrip\<close>.

  \<^bold>\<open>Not modelled.\<close>  The servers and clients of RTSP, HLS and WebRTC, the UDP and camera sources and the API
  are callbacks of third-party libraries; the goroutines of RTMP sockets, external commands, logging,
  metrics, file notifications and HTTP requests are input and output.  What they ask of the path
  manager and of paths, and what they report, are events of the model.  The conversion between RTMP
  messages and tracks (\<open>internal/rtmp/tracks\<close>, \<open>h264conf\<close>) depends on third-party parsers.  Of the
  configuration, the reading of the YAML file and of the environment is left out.  The text of log
  messages is left out, and error texts leave out the printed structs.
\<close>

end
